(* ===== verification/Prelude.thy ===== *)
theory Prelude
  imports Main "HOL-Library.Word" "HOL-Library.AList"
begin

text \<open>
  What every component of the dtrun model shares: the machine integers of the code, the shape of a
  fallible, state-changing Rust function (\<open>prog\<close>) with its Hoare-style reasoning rules, a small JSON
  value type for trace records, and the list and association-list lemmas the component proofs use.
\<close>

unbundle bit_operations_syntax

section \<open>Integers, identifiers, JSON\<close>

type_synonym u8 = "8 word"
type_synonym u16 = "16 word"
type_synonym u32 = "32 word"
type_synonym u64 = "64 word"
type_synonym bytes = "8 word list"

text \<open>
  A process id (nix's \<open>Pid\<close>, an \<open>i32\<close>), an exit code and a raw \<open>errno\<close> are never the operands of
  arithmetic that could leave the range of an \<open>i32\<close>, so they are integers here.
\<close>

type_synonym pid = int
type_synonym errno = int

datatype json =
    JNull
  | JBool bool
  | JNum int
  | JStr string
  | JArr "json list"
  | JObj "(string \<times> json) list"

section \<open>Fallible programs over a state\<close>

text \<open>
  A Rust function taking \<open>&mut self\<close> and returning \<open>Result<a, e>\<close> is a function from the state to an
  outcome and the state it leaves behind; the state survives an error, as it does in the code.
  \<open>More\<close> is not a value of the code: it marks a loop cut off by the fuel of the model, so that the
  state reached so far can still be spoken about.
\<close>

datatype ('e, 'a) outcome = Ok 'a | Err 'e | More

type_synonym ('s, 'e, 'a) prog = "'s \<Rightarrow> ('e, 'a) outcome \<times> 's"

definition ret :: "'a \<Rightarrow> ('s, 'e, 'a) prog" where
  "ret a = (\<lambda>s. (Ok a, s))"

definition fail :: "'e \<Rightarrow> ('s, 'e, 'a) prog" where
  "fail e = (\<lambda>s. (Err e, s))"

definition out_of_fuel :: "('s, 'e, 'a) prog" where
  "out_of_fuel = (\<lambda>s. (More, s))"

definition gets :: "('s \<Rightarrow> 'a) \<Rightarrow> ('s, 'e, 'a) prog" where
  "gets f = (\<lambda>s. (Ok (f s), s))"

definition modify :: "('s \<Rightarrow> 's) \<Rightarrow> ('s, 'e, unit) prog" where
  "modify f = (\<lambda>s. (Ok (), f s))"

text \<open>Rust's \<open>?\<close>: run \<open>m\<close>, return early on an error, go on with the value otherwise.\<close>

definition bind :: "('s, 'e, 'a) prog \<Rightarrow> ('a \<Rightarrow> ('s, 'e, 'b) prog) \<Rightarrow> ('s, 'e, 'b) prog" where
  "bind m f = (\<lambda>s. case m s of
      (Ok a, s') \<Rightarrow> f a s'
    | (Err e, s') \<Rightarrow> (Err e, s')
    | (More, s') \<Rightarrow> (More, s'))"

definition andthen :: "('s, 'e, 'a) prog \<Rightarrow> ('s, 'e, 'b) prog \<Rightarrow> ('s, 'e, 'b) prog" where
  "andthen m n = bind m (\<lambda>_. n)"

text \<open>Rust's \<open>.ok()\<close>: an error becomes \<open>None\<close>, with the state the failed call left behind.\<close>

definition attempt :: "('s, 'e, 'a) prog \<Rightarrow> ('s, 'f, 'a option) prog" where
  "attempt m = (\<lambda>s. case m s of
      (Ok a, s') \<Rightarrow> (Ok (Some a), s')
    | (Err e, s') \<Rightarrow> (Ok None, s')
    | (More, s') \<Rightarrow> (More, s'))"

text \<open>Rust's \<open>as i32\<close> on a 64-bit value: keep the low 32 bits, read them as two's complement.\<close>

definition as_i32 :: "u64 \<Rightarrow> int" where
  "as_i32 x = sint (ucast x :: u32)"

named_theorems prog_simps \<open>evaluation of programs on a given state\<close>

lemma ret_apply [prog_simps]: "ret a s = (Ok a, s)"
  by (simp add: ret_def)

lemma fail_apply [prog_simps]: "fail e s = (Err e, s)"
  by (simp add: fail_def)

lemma out_of_fuel_apply [prog_simps]: "out_of_fuel s = (More, s)"
  by (simp add: out_of_fuel_def)

lemma gets_apply [prog_simps]: "gets f s = (Ok (f s), s)"
  by (simp add: gets_def)

lemma modify_apply [prog_simps]: "modify f s = (Ok (), f s)"
  by (simp add: modify_def)

lemma bind_apply [prog_simps]:
  "bind m f s = (case m s of
      (Ok a, s') \<Rightarrow> f a s' | (Err e, s') \<Rightarrow> (Err e, s') | (More, s') \<Rightarrow> (More, s'))"
  by (simp add: bind_def)

lemma andthen_apply [prog_simps]:
  "andthen m n s = (case m s of
      (Ok a, s') \<Rightarrow> n s' | (Err e, s') \<Rightarrow> (Err e, s') | (More, s') \<Rightarrow> (More, s'))"
  by (simp add: andthen_def bind_def)

lemma attempt_apply [prog_simps]:
  "attempt m s = (case m s of
      (Ok a, s') \<Rightarrow> (Ok (Some a), s') | (Err e, s') \<Rightarrow> (Ok None, s') | (More, s') \<Rightarrow> (More, s'))"
  by (simp add: attempt_def)

lemma bind_Ok: "m s = (Ok a, s') \<Longrightarrow> bind m f s = f a s'"
  by (simp add: bind_def)

lemma bind_Err: "m s = (Err e, s') \<Longrightarrow> bind m f s = (Err e, s')"
  by (simp add: bind_def)

lemma bind_eq_Ok:
  "bind m f s = (Ok b, t) \<longleftrightarrow> (\<exists>a s'. m s = (Ok a, s') \<and> f a s' = (Ok b, t))"
  by (auto simp: bind_def split: prod.splits outcome.splits)

section \<open>Triples: what a program does to a state\<close>

text \<open>
  \<open>triple P m Q R\<close>: from a state with \<open>P\<close>, a normal return \<open>a\<close> leaves a state with \<open>Q a\<close>, and an
  error or running out of fuel leaves one with \<open>R\<close>. \<open>keeps I m\<close> is the case of an invariant that
  holds at every exit.
\<close>

definition triple ::
  "('s \<Rightarrow> bool) \<Rightarrow> ('s, 'e, 'a) prog \<Rightarrow> ('a \<Rightarrow> 's \<Rightarrow> bool) \<Rightarrow> ('s \<Rightarrow> bool) \<Rightarrow> bool" where
  "triple P m Q R \<longleftrightarrow> (\<forall>s. P s \<longrightarrow> (case m s of
      (Ok a, s') \<Rightarrow> Q a s' | (Err e, s') \<Rightarrow> R s' | (More, s') \<Rightarrow> R s'))"

definition keeps :: "('s \<Rightarrow> bool) \<Rightarrow> ('s, 'e, 'a) prog \<Rightarrow> bool" where
  "keeps I m \<longleftrightarrow> triple I m (\<lambda>_. I) I"

lemma keeps_iff: "keeps I m \<longleftrightarrow> (\<forall>s. I s \<longrightarrow> I (snd (m s)))"
proof -
  have "(case m s of (Ok a, s') \<Rightarrow> I s' | (Err e, s') \<Rightarrow> I s' | (More, s') \<Rightarrow> I s') = I (snd (m s))" for s
    by (cases "m s"; cases "fst (m s)") auto
  then show ?thesis by (simp add: keeps_def triple_def)
qed

lemma keepsD: "keeps I m \<Longrightarrow> I s \<Longrightarrow> I (snd (m s))"
  by (simp add: keeps_iff)

lemma keepsI: "(\<And>s. I s \<Longrightarrow> I (snd (m s))) \<Longrightarrow> keeps I m"
  by (simp add: keeps_iff)

lemma tripleI:
  assumes "\<And>s a s'. P s \<Longrightarrow> m s = (Ok a, s') \<Longrightarrow> Q a s'"
    and "\<And>s e s'. P s \<Longrightarrow> m s = (Err e, s') \<Longrightarrow> R s'"
    and "\<And>s s'. P s \<Longrightarrow> m s = (More, s') \<Longrightarrow> R s'"
  shows "triple P m Q R"
  using assms unfolding triple_def by (auto split: prod.splits outcome.splits)

lemma triple_Ok: "triple P m Q R \<Longrightarrow> P s \<Longrightarrow> m s = (Ok a, s') \<Longrightarrow> Q a s'"
  by (auto simp: triple_def)

lemma triple_Err: "triple P m Q R \<Longrightarrow> P s \<Longrightarrow> m s = (Err e, s') \<Longrightarrow> R s'"
  by (auto simp: triple_def)

lemma triple_More: "triple P m Q R \<Longrightarrow> P s \<Longrightarrow> m s = (More, s') \<Longrightarrow> R s'"
  by (auto simp: triple_def)

lemma triple_weaken:
  assumes "triple P' m Q' R'" and "\<And>s. P s \<Longrightarrow> P' s"
    and "\<And>a s. Q' a s \<Longrightarrow> Q a s" and "\<And>s. R' s \<Longrightarrow> R s"
  shows "triple P m Q R"
  using assms unfolding triple_def by (fastforce split: prod.splits outcome.splits)

named_theorems triple_intros \<open>structural rules for triples\<close>

lemma triple_bind [triple_intros]:
  assumes "triple P m Q' R" and "\<And>a. triple (Q' a) (f a) Q R"
  shows "triple P (bind m f) Q R"
  using assms unfolding triple_def bind_def by (fastforce split: prod.splits outcome.splits)

lemma triple_andthen [triple_intros]:
  assumes "triple P m (\<lambda>_. Q') R" and "triple Q' n Q R"
  shows "triple P (andthen m n) Q R"
  unfolding andthen_def by (rule triple_bind [OF assms(1)]) (rule assms(2))

lemma triple_ret: "(\<And>s. P s \<Longrightarrow> Q a s) \<Longrightarrow> triple P (ret a) Q R"
  by (simp add: triple_def ret_def)

lemma triple_fail: "(\<And>s. P s \<Longrightarrow> R s) \<Longrightarrow> triple P (fail e) Q R"
  by (simp add: triple_def fail_def)

lemma triple_out_of_fuel: "(\<And>s. P s \<Longrightarrow> R s) \<Longrightarrow> triple P out_of_fuel Q R"
  by (simp add: triple_def out_of_fuel_def)

lemma triple_gets: "(\<And>s. P s \<Longrightarrow> Q (f s) s) \<Longrightarrow> triple P (gets f) Q R"
  by (simp add: triple_def gets_def)

lemma triple_modify: "(\<And>s. P s \<Longrightarrow> Q () (f s)) \<Longrightarrow> triple P (modify f) Q R"
  by (simp add: triple_def modify_def)

lemma triple_if [triple_intros]:
  assumes "b \<Longrightarrow> triple P m Q R" and "\<not> b \<Longrightarrow> triple P n Q R"
  shows "triple P (if b then m else n) Q R"
  using assms by simp

lemma triple_option [triple_intros]:
  assumes "x = None \<Longrightarrow> triple P m Q R" and "\<And>a. x = Some a \<Longrightarrow> triple P (f a) Q R"
  shows "triple P (case x of None \<Rightarrow> m | Some a \<Rightarrow> f a) Q R"
  using assms by (cases x) auto

lemma triple_attempt [triple_intros]:
  assumes "triple P m (\<lambda>a. Q (Some a)) (Q None)" and "\<And>s. Q None s \<Longrightarrow> R s"
  shows "triple P (attempt m) Q R"
  using assms unfolding triple_def attempt_def by (fastforce split: prod.splits outcome.splits)

text \<open>The rules for an invariant.\<close>

named_theorems keeps_intros \<open>structural rules for invariants\<close>

lemma keeps_ret [keeps_intros]: "keeps I (ret a)"
  by (simp add: keeps_def triple_ret)

lemma keeps_fail [keeps_intros]: "keeps I (fail e)"
  by (simp add: keeps_def triple_fail)

lemma keeps_out_of_fuel [keeps_intros]: "keeps I out_of_fuel"
  by (simp add: keeps_def triple_out_of_fuel)

lemma keeps_gets [keeps_intros]: "keeps I (gets f)"
  by (simp add: keeps_def triple_gets)

lemma keeps_modify: "(\<And>s. I s \<Longrightarrow> I (f s)) \<Longrightarrow> keeps I (modify f)"
  by (simp add: keeps_def triple_modify)

lemma keeps_bind [keeps_intros]: "keeps I m \<Longrightarrow> (\<And>a. keeps I (f a)) \<Longrightarrow> keeps I (bind m f)"
  unfolding keeps_def by (rule triple_bind)

lemma keeps_andthen [keeps_intros]: "keeps I m \<Longrightarrow> keeps I n \<Longrightarrow> keeps I (andthen m n)"
  unfolding keeps_def by (rule triple_andthen)

lemma keeps_attempt [keeps_intros]: "keeps I m \<Longrightarrow> keeps I (attempt m)"
  unfolding keeps_def by (rule triple_attempt)

lemma keeps_if [keeps_intros]:
  "(b \<Longrightarrow> keeps I m) \<Longrightarrow> (\<not> b \<Longrightarrow> keeps I n) \<Longrightarrow> keeps I (if b then m else n)"
  by simp

lemma keeps_option [keeps_intros]:
  "(x = None \<Longrightarrow> keeps I m) \<Longrightarrow> (\<And>a. x = Some a \<Longrightarrow> keeps I (f a)) \<Longrightarrow>
    keeps I (case x of None \<Rightarrow> m | Some a \<Rightarrow> f a)"
  by (cases x) auto

section \<open>Programs that always return\<close>

text \<open>\<open>returns m\<close>: \<open>m\<close> is never cut off by its fuel.\<close>

definition returns :: "('s, 'e, 'a) prog \<Rightarrow> bool" where
  "returns m \<longleftrightarrow> (\<forall>s. fst (m s) \<noteq> More)"

named_theorems returns_intros \<open>programs that always return\<close>

lemma returnsD: "returns m \<Longrightarrow> m s \<noteq> (More, s')"
  by (auto simp: returns_def dest: spec [of _ s])

lemma returns_ret [returns_intros]: "returns (ret a)"
  by (simp add: returns_def ret_def)

lemma returns_fail [returns_intros]: "returns (fail e)"
  by (simp add: returns_def fail_def)

lemma returns_gets [returns_intros]: "returns (gets f)"
  by (simp add: returns_def gets_def)

lemma returns_modify [returns_intros]: "returns (modify f)"
  by (simp add: returns_def modify_def)

lemma returns_bind [returns_intros]:
  "returns m \<Longrightarrow> (\<And>a. returns (f a)) \<Longrightarrow> returns (bind m f)"
  by (auto simp: returns_def bind_def split: prod.splits outcome.splits)
    (metis fst_conv outcome.distinct)+

lemma returns_andthen [returns_intros]: "returns m \<Longrightarrow> returns n \<Longrightarrow> returns (andthen m n)"
  unfolding andthen_def by (rule returns_bind)

lemma returns_attempt [returns_intros]: "returns m \<Longrightarrow> returns (attempt m)"
  by (auto simp: returns_def attempt_def split: prod.splits outcome.splits)
    (metis fst_conv)

lemma returns_if [returns_intros]:
  "(b \<Longrightarrow> returns m) \<Longrightarrow> (\<not> b \<Longrightarrow> returns n) \<Longrightarrow> returns (if b then m else n)"
  by simp

lemma returns_option [returns_intros]:
  "(x = None \<Longrightarrow> returns m) \<Longrightarrow> (\<And>a. x = Some a \<Longrightarrow> returns (f a)) \<Longrightarrow>
    returns (case x of None \<Rightarrow> m | Some a \<Rightarrow> f a)"
  by (cases x) auto

text \<open>Returning from every state of an invariant.\<close>

definition returns_from :: "('s \<Rightarrow> bool) \<Rightarrow> ('s, 'e, 'a) prog \<Rightarrow> bool" where
  "returns_from I m \<longleftrightarrow> (\<forall>s. I s \<longrightarrow> fst (m s) \<noteq> More)"

lemma returns_fromD: "returns_from I m \<Longrightarrow> I s \<Longrightarrow> m s \<noteq> (More, s')"
  by (auto simp: returns_from_def)

lemma returns_returns_from: "returns m \<Longrightarrow> returns_from I m"
  by (simp add: returns_def returns_from_def)

lemma returns_from_bind:
  assumes m: "returns_from I m" "keeps I m" and f: "\<And>a. returns_from I (f a)"
  shows "returns_from I (bind m f)"
  unfolding returns_from_def
proof (intro allI impI)
  fix s assume I: "I s"
  obtain r t where ms: "m s = (r, t)" by (cases "m s")
  then have "I t" using keepsD [OF m(2) I] by simp
  then show "fst (bind m f s) \<noteq> More"
    using ms m(1) I f by (cases r) (auto simp: bind_def returns_from_def)
qed

lemma returns_from_andthen:
  "returns_from I m \<Longrightarrow> keeps I m \<Longrightarrow> returns_from I n \<Longrightarrow> returns_from I (andthen m n)"
  unfolding andthen_def by (rule returns_from_bind)

lemma returns_from_if:
  "(b \<Longrightarrow> returns_from I m) \<Longrightarrow> (\<not> b \<Longrightarrow> returns_from I n) \<Longrightarrow>
    returns_from I (if b then m else n)"
  by simp

lemma returns_from_option:
  "(x = None \<Longrightarrow> returns_from I m) \<Longrightarrow> (\<And>a. x = Some a \<Longrightarrow> returns_from I (f a)) \<Longrightarrow>
    returns_from I (case x of None \<Rightarrow> m | Some a \<Rightarrow> f a)"
  by (cases x) auto

lemmas returns_from_intros =
  returns_from_if returns_from_option returns_from_bind returns_from_andthen
  returns_intros [THEN returns_returns_from]

lemma bind_assoc: "bind (bind m f) g = bind m (\<lambda>a. bind (f a) g)"
  by (simp add: bind_def fun_eq_iff split: prod.split outcome.split)

lemma bind_ret: "bind (ret a) f = f a"
  by (simp add: bind_def ret_def)

lemma andthen_assoc: "andthen m (andthen n q) = andthen (andthen m n) q"
  by (auto simp: andthen_def bind_def fun_eq_iff split: prod.splits outcome.splits)

section \<open>Two-state properties\<close>

text \<open>
  \<open>moves T E m\<close>: wherever \<open>m\<close> returns normally (or is cut off) it has moved the state along \<open>T\<close>, and
  wherever it fails along \<open>E\<close>. The locale \<open>evolution\<close> is the interface of all such facts ("the trace
  only grows, and is explained by the seed"; "nothing but the kernel state changes"): \<open>T\<close> is a
  preorder and \<open>E\<close> absorbs it from the left, and then programs built from conforming parts conform.
\<close>

definition moves ::
  "('s \<Rightarrow> 's \<Rightarrow> bool) \<Rightarrow> ('s \<Rightarrow> 's \<Rightarrow> bool) \<Rightarrow> ('s, 'e, 'a) prog \<Rightarrow> bool" where
  "moves T E m \<longleftrightarrow> (\<forall>s. case m s of
      (Ok a, s') \<Rightarrow> T s s' | (Err e, s') \<Rightarrow> E s s' | (More, s') \<Rightarrow> T s s')"

lemma movesI:
  assumes "\<And>s a s'. m s = (Ok a, s') \<Longrightarrow> T s s'"
    and "\<And>s e s'. m s = (Err e, s') \<Longrightarrow> E s s'"
    and "\<And>s s'. m s = (More, s') \<Longrightarrow> T s s'"
  shows "moves T E m"
  using assms unfolding moves_def by (auto split: prod.splits outcome.splits)

lemma moves_Ok: "moves T E m \<Longrightarrow> m s = (Ok a, s') \<Longrightarrow> T s s'"
  by (auto simp: moves_def dest: spec [of _ s])

lemma moves_Err: "moves T E m \<Longrightarrow> m s = (Err e, s') \<Longrightarrow> E s s'"
  by (auto simp: moves_def dest: spec [of _ s])

lemma moves_More: "moves T E m \<Longrightarrow> m s = (More, s') \<Longrightarrow> T s s'"
  by (auto simp: moves_def dest: spec [of _ s])

lemma moves_weaken:
  assumes "moves T' E' m" and "\<And>s t. T' s t \<Longrightarrow> T s t" and "\<And>s t. E' s t \<Longrightarrow> E s t"
  shows "moves T E m"
  using assms(1) by (intro movesI) (blast intro: assms(2,3) dest: moves_Ok moves_Err moves_More)+

lemma moves_all: "moves T T m \<longleftrightarrow> (\<forall>s. T s (snd (m s)))"
proof -
  have "(case m s of (Ok a, s') \<Rightarrow> T s s' | (Err e, s') \<Rightarrow> T s s' | (More, s') \<Rightarrow> T s s')
      = T s (snd (m s))" for s
    by (cases "m s"; cases "fst (m s)") auto
  then show ?thesis by (simp add: moves_def)
qed

locale evolution =
  fixes T :: "'s \<Rightarrow> 's \<Rightarrow> bool" and E :: "'s \<Rightarrow> 's \<Rightarrow> bool"
  assumes T_refl: "T s s"
    and T_trans: "T s t \<Longrightarrow> T t u \<Longrightarrow> T s u"
    and E_trans: "T s t \<Longrightarrow> E t u \<Longrightarrow> E s u"
    and T_E: "T s t \<Longrightarrow> E s t"
begin

lemma moves_ret: "moves T E (ret a)"
  by (simp add: moves_def ret_def T_refl)

lemma moves_fail: "moves T E (fail e)"
  by (simp add: moves_def fail_def T_refl T_E)

lemma moves_out_of_fuel: "moves T E out_of_fuel"
  by (simp add: moves_def out_of_fuel_def T_refl)

lemma moves_gets: "moves T E (gets f)"
  by (simp add: moves_def gets_def T_refl)

lemma moves_modify: "(\<And>s. T s (f s)) \<Longrightarrow> moves T E (modify f)"
  by (simp add: moves_def modify_def)

lemma moves_bind:
  assumes m: "moves T E m" and f: "\<And>a. moves T E (f a)"
  shows "moves T E (bind m f)"
proof (rule movesI)
  fix s b s' assume "bind m f s = (Ok b, s')"
  then obtain a t where "m s = (Ok a, t)" "f a t = (Ok b, s')"
    by (auto simp: bind_eq_Ok)
  then show "T s s'" using T_trans moves_Ok [OF m] moves_Ok [OF f] by blast
next
  fix s e s' assume b: "bind m f s = (Err e, s')"
  obtain r t where m': "m s = (r, t)" by (cases "m s")
  show "E s s'"
  proof (cases r)
    case (Ok a)
    with b m' have "f a t = (Err e, s')" by (simp add: bind_def)
    then show ?thesis using E_trans [OF moves_Ok [OF m] moves_Err [OF f]] m' Ok by blast
  next
    case (Err e')
    with b m' show ?thesis using moves_Err [OF m] by (auto simp: bind_def)
  next
    case More
    with b m' show ?thesis by (simp add: bind_def)
  qed
next
  fix s s' assume b: "bind m f s = (More, s')"
  obtain r t where m': "m s = (r, t)" by (cases "m s")
  show "T s s'"
  proof (cases r)
    case (Ok a)
    with b m' have "f a t = (More, s')" by (simp add: bind_def)
    then show ?thesis using T_trans [OF moves_Ok [OF m] moves_More [OF f]] m' Ok by blast
  next
    case (Err e')
    with b m' show ?thesis by (simp add: bind_def)
  next
    case More
    with b m' show ?thesis using moves_More [OF m] by (auto simp: bind_def)
  qed
qed

lemma moves_andthen: "moves T E m \<Longrightarrow> moves T E n \<Longrightarrow> moves T E (andthen m n)"
  unfolding andthen_def by (rule moves_bind)

lemma moves_attempt: "moves T T m \<Longrightarrow> moves T E (attempt m)"
  unfolding moves_def attempt_def by (fastforce split: prod.splits outcome.splits)

lemma moves_if:
  "(b \<Longrightarrow> moves T E m) \<Longrightarrow> (\<not> b \<Longrightarrow> moves T E n) \<Longrightarrow> moves T E (if b then m else n)"
  by simp

lemma moves_option:
  "(x = None \<Longrightarrow> moves T E m) \<Longrightarrow> (\<And>a. x = Some a \<Longrightarrow> moves T E (f a)) \<Longrightarrow>
    moves T E (case x of None \<Rightarrow> m | Some a \<Rightarrow> f a)"
  by (cases x) auto

lemma moves_strict: "moves T T m \<Longrightarrow> moves T E m"
  by (rule moves_weaken [where T' = T and E' = T]) (auto intro: T_E)

lemmas moves_intros =
  moves_ret moves_fail moves_out_of_fuel moves_gets moves_bind moves_andthen moves_if moves_option

end

section \<open>Lists and association lists\<close>

text \<open>A \<open>HashMap\<close> the code also iterates over is an association list with distinct keys.\<close>

abbreviation hm_keys :: "('k \<times> 'v) list \<Rightarrow> 'k set" where
  "hm_keys m \<equiv> fst ` set m"

lemma map_of_None_keys: "map_of m k = None \<longleftrightarrow> k \<notin> hm_keys m"
  by (simp add: map_of_eq_None_iff)

lemma map_of_Some_keys: "map_of m k = Some v \<Longrightarrow> k \<in> hm_keys m"
  by (force dest: map_of_SomeD)

lemma update_fresh: "k \<notin> hm_keys m \<Longrightarrow> AList.update k v m = m @ [(k, v)]"
  by (induction m) auto

lemma keys_update [simp]: "hm_keys (AList.update k v m) = insert k (hm_keys m)"
  by (simp add: dom_update)

lemma keys_delete [simp]: "hm_keys (AList.delete k m) = hm_keys m - {k}"
  by (auto simp: AList.delete_eq image_iff)

lemma map_of_update [simp]: "map_of (AList.update k v m) = (map_of m)(k \<mapsto> v)"
  by (rule update_conv')

lemma map_of_delete [simp]: "map_of (AList.delete k m) = (map_of m)(k := None)"
  by (rule delete_conv')

lemma distinct_keys_delete: "distinct (map fst m) \<Longrightarrow> distinct (map fst (AList.delete k m))"
  by (rule distinct_delete)

lemma hm_values_iff:
  "distinct (map fst m) \<Longrightarrow> v \<in> snd ` set m \<longleftrightarrow> (\<exists>k. map_of m k = Some v)"
  by (force simp: map_of_eq_Some_iff image_iff)

end
