(* ===== verification/Bytes.thy ===== *)
theory Bytes
  imports Prelude
begin

text \<open>
  Byte-level helpers of the supervisor (\<open>src/runtime/supervisor.rs\<close>): little-endian encoding and
  decoding (\<open>to_le_bytes\<close>, \<open>le_u64\<close>, \<open>le_u32\<close>) and \<open>hex_bytes\<close>. The contract of a fixed-width
  codec is the locale \<open>le_codec\<close>, interpreted on both widths.
\<close>

section \<open>Little-endian words\<close>

text \<open>Rust's \<open>to_le_bytes\<close> and \<open>from_le_bytes\<close>, for any word width.\<close>

primrec le_encode :: "nat \<Rightarrow> 'a::len word \<Rightarrow> bytes" where
  "le_encode 0 x = []"
| "le_encode (Suc n) x = ucast x # le_encode n (drop_bit 8 x)"

primrec le_decode :: "bytes \<Rightarrow> 'a::len word" where
  "le_decode [] = 0"
| "le_decode (b # bs) = (ucast b OR push_bit 8 (le_decode bs))"

definition to_le_bytes :: "u64 \<Rightarrow> bytes" where
  "to_le_bytes x = le_encode 8 x"

text \<open>\<open>le_u64\<close> and \<open>le_u32\<close> copy at most 8 (4) bytes into a zeroed buffer and decode it.\<close>

definition le_u64 :: "bytes \<Rightarrow> u64" where
  "le_u64 bs = (let n = min (length bs) 8 in le_decode (take n bs @ replicate (8 - n) 0))"

definition le_u32 :: "bytes \<Rightarrow> u32" where
  "le_u32 bs = (let n = min (length bs) 4 in le_decode (take n bs @ replicate (4 - n) 0))"

lemma length_le_encode [simp]: "length (le_encode n x) = n"
  by (induction n arbitrary: x) auto

lemma nth_le_encode: "j < n \<Longrightarrow> le_encode n x ! j = ucast (drop_bit (8 * j) x)"
  by (induction n arbitrary: x j) (auto simp: nth_Cons drop_bit_drop_bit ac_simps split: nat.splits)

lemma bit_le_decode:
  "bit (le_decode bs :: 'a::len word) i \<longleftrightarrow>
    i < LENGTH('a) \<and> i div 8 < length bs \<and> bit (bs ! (i div 8)) (i mod 8)"
proof (induction bs arbitrary: i)
  case Nil
  show ?case by simp
next
  case (Cons b bs)
  show ?case
  proof (cases "i < 8")
    case True
    then show ?thesis by (auto simp: bit_or_iff bit_ucast_iff bit_push_bit_iff)
  next
    case False
    then obtain k where k: "i = 8 + k" by (metis le_Suc_ex not_less)
    have "\<not> bit b i"
      using False by (auto dest: bit_imp_le_length)
    moreover have "(8 + k) div 8 = Suc (k div 8)" by simp
    ultimately show ?thesis
      using False by (auto simp: k bit_or_iff bit_ucast_iff bit_push_bit_iff Cons)
  qed
qed

lemma le_decode_encode: "le_decode (le_encode n x) = take_bit (8 * n) (x :: 'a::len word)"
proof (rule bit_eqI)
  fix i assume i: "possible_bit TYPE('a word) i"
  have "i div 8 < n \<longleftrightarrow> i < 8 * n" by auto
  then show "bit (le_decode (le_encode n x) :: 'a word) i = bit (take_bit (8 * n) x) i"
    using i by (auto simp: bit_le_decode nth_le_encode bit_take_bit_iff bit_ucast_iff
        bit_drop_bit_eq)
qed

lemma le_encode_decode:
  assumes "8 * length bs \<le> LENGTH('a::len)"
  shows "le_encode (length bs) (le_decode bs :: 'a word) = bs"
proof (rule nth_equalityI)
  fix j assume "j < length (le_encode (length bs) (le_decode bs :: 'a word))"
  then have j: "j < length bs" by simp
  show "le_encode (length bs) (le_decode bs :: 'a word) ! j = bs ! j"
  proof (rule bit_eqI)
    fix i assume "possible_bit TYPE(8 word) i"
    then have i: "i < 8" by simp
    have "8 * j + i < LENGTH('a)" using assms i j by linarith
    then show "bit (le_encode (length bs) (le_decode bs :: 'a word) ! j) i = bit (bs ! j) i"
      using i j by (simp add: nth_le_encode bit_ucast_iff bit_drop_bit_eq bit_le_decode)
  qed
qed simp

lemma le_u64_full: "length bs = 8 \<Longrightarrow> le_u64 bs = le_decode bs"
  by (simp add: le_u64_def)

lemma le_u32_full: "length bs = 4 \<Longrightarrow> le_u32 bs = le_decode bs"
  by (simp add: le_u32_def)

lemma length_to_le_bytes [simp]: "length (to_le_bytes x) = 8"
  by (simp add: to_le_bytes_def)

text \<open>
  The contract between the code that writes a field into tracee memory and the code that reads it:
  a fixed width, and decoding inverts encoding both ways.
\<close>

locale le_codec =
  fixes enc :: "'w \<Rightarrow> bytes" and dec :: "bytes \<Rightarrow> 'w" and width :: nat
  assumes enc_length: "length (enc x) = width"
    and dec_enc: "dec (enc x) = x"
    and enc_dec: "length bs = width \<Longrightarrow> enc (dec bs) = bs"
begin

lemma enc_inject: "enc x = enc y \<longleftrightarrow> x = y"
  by (metis dec_enc)

lemma dec_first_field: "dec (take width (enc x @ rest)) = x"
  by (simp add: enc_length dec_enc)

lemma dec_second_field: "dec (take width (drop width (enc x @ enc y @ rest))) = y"
  by (simp add: enc_length dec_enc)

lemma dec_inject: "length as = width \<Longrightarrow> length bs = width \<Longrightarrow> dec as = dec bs \<longleftrightarrow> as = bs"
  by (metis enc_dec)

end

interpretation le64: le_codec to_le_bytes le_u64 8
proof unfold_locales
  show "length (to_le_bytes x) = 8" for x by simp
  show "le_u64 (to_le_bytes x) = x" for x
    by (simp add: le_u64_full to_le_bytes_def le_decode_encode take_bit_word_eq_self)
  show "length bs = 8 \<Longrightarrow> to_le_bytes (le_u64 bs) = bs" for bs
    using le_encode_decode [of bs, where 'a = 64] by (simp add: to_le_bytes_def le_u64_full)
qed

interpretation le32: le_codec "le_encode 4" le_u32 4
proof unfold_locales
  show "length (le_encode 4 x) = 4" for x :: "32 word" by simp
  show "le_u32 (le_encode 4 x) = x" for x
    by (simp add: le_u32_full le_decode_encode take_bit_word_eq_self)
  show "length bs = 4 \<Longrightarrow> le_encode 4 (le_u32 bs) = bs" for bs
    using le_encode_decode [of bs, where 'a = 32] by (simp add: le_u32_full)
qed

section \<open>Hexadecimal\<close>

definition HEX :: "char list" where
  "HEX = ''0123456789abcdef''"

definition hex_bytes :: "bytes \<Rightarrow> string" where
  "hex_bytes bs = concat (map (\<lambda>b. [HEX ! unat (drop_bit 4 b), HEX ! unat (b AND 0xf)]) bs)"

lemma length_hex_bytes: "length (hex_bytes bs) = 2 * length bs"
  by (induction bs) (auto simp: hex_bytes_def)

lemma distinct_HEX: "distinct HEX"
  by (simp add: HEX_def)

lemma length_HEX: "length HEX = 16"
  by (simp add: HEX_def)

lemma and_15_take_bit: "b AND 0xf = take_bit 4 b" for b :: u8
  by (simp add: take_bit_eq_mask mask_eq_exp_minus_1)

lemma nibbles_bound: "unat (drop_bit 4 b) < 16" "unat (b AND 0xf) < 16" for b :: u8
proof -
  have "unat b < 256" using unsigned_less [of b] by simp
  then show "unat (drop_bit 4 b) < 16"
    by (simp add: unat_drop_bit_eq drop_bit_eq_div unat_div less_mult_imp_div_less)
  have "b AND 0xf = take_bit 4 b"
    by (rule and_15_take_bit)
  then show "unat (b AND 0xf) < 16"
    using take_bit_nat_less_exp [of 4 "unat b"] by (simp add: unsigned_take_bit_eq)
qed

lemma nibbles_determine:
  assumes "drop_bit 4 a = drop_bit 4 b" and "a AND 0xf = b AND 0xf"
  shows "a = (b :: u8)"
proof -
  have "a = push_bit 4 (drop_bit 4 a) + take_bit 4 a" by (simp add: bits_ident)
  also have "\<dots> = push_bit 4 (drop_bit 4 b) + take_bit 4 b" using assms by (simp add: and_15_take_bit)
  also have "\<dots> = b" by (simp add: bits_ident)
  finally show ?thesis .
qed

lemma hex_digits_inject:
  assumes "HEX ! unat (drop_bit 4 a) = HEX ! unat (drop_bit 4 b)"
    and "HEX ! unat (a AND 0xf) = HEX ! unat (b AND 0xf)"
  shows "a = (b :: u8)"
proof (rule nibbles_determine)
  show "drop_bit 4 a = drop_bit 4 b"
    using assms(1) nibbles_bound nth_eq_iff_index_eq [OF distinct_HEX]
    by (simp add: length_HEX unsigned_word_eqI)
  show "a AND 0xf = b AND 0xf"
    using assms(2) nibbles_bound nth_eq_iff_index_eq [OF distinct_HEX]
    by (simp add: length_HEX unsigned_word_eqI)
qed

lemma hex_bytes_inject: "hex_bytes as = hex_bytes bs \<longleftrightarrow> as = bs"
proof (induction as arbitrary: bs)
  case Nil
  then show ?case by (cases bs) (auto simp: hex_bytes_def)
next
  case (Cons a as)
  then show ?case
    by (cases bs) (auto simp: hex_bytes_def dest: hex_digits_inject)
qed

end
