(* ===== verification/Text.thy ===== *)
theory Text
  imports Prelude
begin

text \<open>
  The string functions of Rust's standard library that the code uses, on strings of ASCII characters
  (\<open>string\<close> is a list of bytes): \<open>trim\<close>, \<open>to_uppercase\<close>, \<open>strip_prefix\<close>, \<open>starts_with\<close>, \<open>split\<close>,
  \<open>join\<close>, integer parsing (\<open>str::parse\<close>) and decimal printing. Multi-byte characters only matter to
  \<open>trim\<close> and \<open>to_uppercase\<close>, which here change ASCII characters only.
\<close>

section \<open>Characters\<close>

definition is_ascii_digit :: "char \<Rightarrow> bool" where
  "is_ascii_digit c \<longleftrightarrow> 48 \<le> (of_char c :: nat) \<and> (of_char c :: nat) \<le> 57"

definition is_ascii_upper :: "char \<Rightarrow> bool" where
  "is_ascii_upper c \<longleftrightarrow> 65 \<le> (of_char c :: nat) \<and> (of_char c :: nat) \<le> 90"

definition is_ascii_lower :: "char \<Rightarrow> bool" where
  "is_ascii_lower c \<longleftrightarrow> 97 \<le> (of_char c :: nat) \<and> (of_char c :: nat) \<le> 122"

definition is_ascii_alphanumeric :: "char \<Rightarrow> bool" where
  "is_ascii_alphanumeric c \<longleftrightarrow> is_ascii_digit c \<or> is_ascii_upper c \<or> is_ascii_lower c"

text \<open>Tab, line feed, vertical tab, form feed, carriage return, space.\<close>

definition is_whitespace :: "char \<Rightarrow> bool" where
  "is_whitespace c \<longleftrightarrow>
    (let n = of_char c :: nat in (9 \<le> n \<and> n \<le> 13) \<or> n = 32)"

definition ascii_uppercase :: "char \<Rightarrow> char" where
  "ascii_uppercase c = (if is_ascii_lower c then char_of (of_char c - 32 :: nat) else c)"

definition digit_char :: "nat \<Rightarrow> char" where
  "digit_char d = char_of (48 + d)"

definition digit_val :: "char \<Rightarrow> nat" where
  "digit_val c = of_char c - 48"

lemma of_char_digit_char: "d < 10 \<Longrightarrow> of_char (digit_char d) = 48 + d"
  by (simp add: digit_char_def of_char_of take_bit_eq_mod)

lemma is_ascii_digit_digit_char [simp]: "d < 10 \<Longrightarrow> is_ascii_digit (digit_char d)"
  by (simp add: is_ascii_digit_def of_char_digit_char)

lemma digit_val_digit_char [simp]: "d < 10 \<Longrightarrow> digit_val (digit_char d) = d"
  by (simp add: digit_val_def of_char_digit_char)

section \<open>Trimming, case, prefixes, splitting\<close>

definition trim_start :: "string \<Rightarrow> string" where
  "trim_start s = dropWhile is_whitespace s"

definition trim_end :: "string \<Rightarrow> string" where
  "trim_end s = rev (dropWhile is_whitespace (rev s))"

definition trim :: "string \<Rightarrow> string" where
  "trim s = trim_end (trim_start s)"

definition to_uppercase :: "string \<Rightarrow> string" where
  "to_uppercase s = map ascii_uppercase s"

fun strip_prefix :: "string \<Rightarrow> string \<Rightarrow> string option" where
  "strip_prefix [] s = Some s"
| "strip_prefix (p # ps) [] = None"
| "strip_prefix (p # ps) (c # cs) = (if p = c then strip_prefix ps cs else None)"

definition starts_with :: "string \<Rightarrow> string \<Rightarrow> bool" where
  "starts_with s p \<longleftrightarrow> strip_prefix p s \<noteq> None"

text \<open>\<open>split\<close> on a set of separator characters: always at least one piece.\<close>

fun split_on :: "(char \<Rightarrow> bool) \<Rightarrow> string \<Rightarrow> string list" where
  "split_on p [] = [[]]"
| "split_on p (c # cs) =
    (if p c then [] # split_on p cs
     else case split_on p cs of [] \<Rightarrow> [[c]] | w # ws \<Rightarrow> (c # w) # ws)"

fun join :: "string \<Rightarrow> string list \<Rightarrow> string" where
  "join sep [] = []"
| "join sep [w] = w"
| "join sep (w # ws) = w @ sep @ join sep ws"

lemma strip_prefix_Some: "strip_prefix p s = Some t \<longleftrightarrow> s = p @ t"
  by (induction p s rule: strip_prefix.induct) auto

lemma starts_with_iff: "starts_with s p \<longleftrightarrow> (\<exists>t. s = p @ t)"
  by (simp add: starts_with_def strip_prefix_Some)

lemma split_on_nonempty [simp]: "split_on p s \<noteq> []"
  by (induction s) (auto split: list.splits)

lemma split_on_no_sep: "\<forall>w\<in>set (split_on p s). \<forall>c\<in>set w. \<not> p c"
  by (induction s) (auto split: if_splits list.splits)

lemma split_on_none: "(\<And>c. c \<in> set s \<Longrightarrow> \<not> p c) \<Longrightarrow> split_on p s = [s]"
  by (induction s) auto

lemma split_on_append:
  assumes "\<And>c. c \<in> set a \<Longrightarrow> \<not> p c" and "p x"
  shows "split_on p (a @ x # b) = a # split_on p b"
  using assms(1) by (induction a) (auto simp: assms(2))

lemma hd_split_on: "hd (split_on p s) = takeWhile (Not \<circ> p) s"
  by (induction s) (auto split: list.splits)

lemma join_split_on: "join [x] (split_on (\<lambda>c. c = x) s) = s"
proof (induction s)
  case (Cons c s)
  obtain w ws where "split_on (\<lambda>c. c = x) s = w # ws"
    by (cases "split_on (\<lambda>c. c = x) s") auto
  with Cons show ?case by (cases ws) auto
qed simp

section \<open>Integers\<close>

definition parse_digits :: "string \<Rightarrow> nat option" where
  "parse_digits s =
    (if s \<noteq> [] \<and> list_all is_ascii_digit s
     then Some (foldl (\<lambda>n c. 10 * n + digit_val c) 0 s) else None)"

text \<open>\<open>str::parse::<u64>\<close>: an optional \<open>+\<close>, at least one digit, no overflow.\<close>

definition parse_u64 :: "string \<Rightarrow> u64 option" where
  "parse_u64 s =
    (case parse_digits (case s of c # cs \<Rightarrow> if c = CHR ''+'' then cs else s | [] \<Rightarrow> s) of
      None \<Rightarrow> None
    | Some n \<Rightarrow> if n < 2 ^ 64 then Some (of_nat n) else None)"

text \<open>\<open>str::parse::<i32>\<close>: an optional sign, at least one digit, in range.\<close>

definition parse_i32 :: "string \<Rightarrow> int option" where
  "parse_i32 s =
    (case s of
      [] \<Rightarrow> None
    | c # cs \<Rightarrow>
        if c = CHR ''-'' then
          (case parse_digits cs of
            None \<Rightarrow> None | Some n \<Rightarrow> if n \<le> 2 ^ 31 then Some (- int n) else None)
        else
          (case parse_digits (if c = CHR ''+'' then cs else s) of
            None \<Rightarrow> None | Some n \<Rightarrow> if n < 2 ^ 31 then Some (int n) else None))"

fun show_nat :: "nat \<Rightarrow> string" where
  "show_nat n = (if n < 10 then [digit_char n] else show_nat (n div 10) @ [digit_char (n mod 10)])"

declare show_nat.simps [simp del]

definition show_int :: "int \<Rightarrow> string" where
  "show_int i = (if i < 0 then CHR ''-'' # show_nat (nat (- i)) else show_nat (nat i))"

lemma show_nat_digits: "list_all is_ascii_digit (show_nat n)"
  by (induction n rule: show_nat.induct) (subst show_nat.simps, simp)

lemma show_nat_nonempty [simp]: "show_nat n \<noteq> []"
  by (subst show_nat.simps) simp

lemma show_nat_value: "foldl (\<lambda>n c. 10 * n + digit_val c) 0 (show_nat n) = n"
  by (induction n rule: show_nat.induct) (subst show_nat.simps, simp)

lemma parse_digits_show_nat [simp]: "parse_digits (show_nat n) = Some n"
  by (simp add: parse_digits_def show_nat_digits show_nat_value)

lemma hd_show_nat: "is_ascii_digit (hd (show_nat n))"
  using show_nat_digits [of n] by (cases "show_nat n") auto

lemma show_nat_head: "\<exists>c cs. show_nat n = c # cs \<and> is_ascii_digit c"
  using hd_show_nat [of n] by (cases "show_nat n") auto

lemma digit_not_sign: "is_ascii_digit c \<Longrightarrow> c \<noteq> CHR ''+'' \<and> c \<noteq> CHR ''-''"
  by (auto simp: is_ascii_digit_def)

lemma parse_u64_show_nat:
  assumes "n < 2 ^ 64"
  shows "parse_u64 (show_nat n) = Some (of_nat n)"
proof -
  obtain c cs where s: "show_nat n = c # cs" and "is_ascii_digit c"
    using show_nat_head by blast
  then have "c \<noteq> CHR ''+''" using digit_not_sign by blast
  moreover have "parse_digits (c # cs) = Some n" using parse_digits_show_nat [of n] s by simp
  ultimately show ?thesis using assms s by (simp add: parse_u64_def)
qed

lemma parse_i32_show_int:
  assumes "- (2 ^ 31) \<le> i" and "i < 2 ^ 31"
  shows "parse_i32 (show_int i) = Some i"
proof (cases "i < 0")
  case True
  then show ?thesis using assms by (simp add: parse_i32_def show_int_def)
next
  case False
  obtain c cs where s: "show_nat (nat i) = c # cs" and "is_ascii_digit c"
    using show_nat_head by blast
  then have "c \<noteq> CHR ''+'' \<and> c \<noteq> CHR ''-''" using digit_not_sign by blast
  moreover have "parse_digits (c # cs) = Some (nat i)"
    using parse_digits_show_nat [of "nat i"] s by simp
  ultimately show ?thesis using False assms s by (simp add: parse_i32_def show_int_def)
qed

end
