(* ===== verification/Signals.thy ===== *)
theory Signals
  imports Text
begin

text \<open>
  Signals (\<open>src/runtime/signal.rs\<close>): the \<open>Signal\<close> enumeration with the names and numbers of
  Linux/x86-64, and \<open>parse_signal\<close>, which accepts \<open>SIGTERM\<close>, \<open>TERM\<close>, \<open>term\<close> and \<open>15\<close>.
\<close>

datatype signal =
    SIGHUP | SIGINT | SIGQUIT | SIGILL | SIGTRAP | SIGABRT | SIGBUS | SIGFPE | SIGKILL | SIGUSR1
  | SIGSEGV | SIGUSR2 | SIGPIPE | SIGALRM | SIGTERM | SIGSTKFLT | SIGCHLD | SIGCONT | SIGSTOP
  | SIGTSTP | SIGTTIN | SIGTTOU | SIGURG | SIGXCPU | SIGXFSZ | SIGVTALRM | SIGPROF | SIGWINCH
  | SIGIO | SIGPWR | SIGSYS

text \<open>\<open>sig as i32\<close>.\<close>

primrec signal_number :: "signal \<Rightarrow> int" where
  "signal_number SIGHUP = 1"
| "signal_number SIGINT = 2"
| "signal_number SIGQUIT = 3"
| "signal_number SIGILL = 4"
| "signal_number SIGTRAP = 5"
| "signal_number SIGABRT = 6"
| "signal_number SIGBUS = 7"
| "signal_number SIGFPE = 8"
| "signal_number SIGKILL = 9"
| "signal_number SIGUSR1 = 10"
| "signal_number SIGSEGV = 11"
| "signal_number SIGUSR2 = 12"
| "signal_number SIGPIPE = 13"
| "signal_number SIGALRM = 14"
| "signal_number SIGTERM = 15"
| "signal_number SIGSTKFLT = 16"
| "signal_number SIGCHLD = 17"
| "signal_number SIGCONT = 18"
| "signal_number SIGSTOP = 19"
| "signal_number SIGTSTP = 20"
| "signal_number SIGTTIN = 21"
| "signal_number SIGTTOU = 22"
| "signal_number SIGURG = 23"
| "signal_number SIGXCPU = 24"
| "signal_number SIGXFSZ = 25"
| "signal_number SIGVTALRM = 26"
| "signal_number SIGPROF = 27"
| "signal_number SIGWINCH = 28"
| "signal_number SIGIO = 29"
| "signal_number SIGPWR = 30"
| "signal_number SIGSYS = 31"

text \<open>\<open>Signal::as_str\<close>: the constant's own name.\<close>

primrec signal_as_str :: "signal \<Rightarrow> string" where
  "signal_as_str SIGHUP = ''SIGHUP''"
| "signal_as_str SIGINT = ''SIGINT''"
| "signal_as_str SIGQUIT = ''SIGQUIT''"
| "signal_as_str SIGILL = ''SIGILL''"
| "signal_as_str SIGTRAP = ''SIGTRAP''"
| "signal_as_str SIGABRT = ''SIGABRT''"
| "signal_as_str SIGBUS = ''SIGBUS''"
| "signal_as_str SIGFPE = ''SIGFPE''"
| "signal_as_str SIGKILL = ''SIGKILL''"
| "signal_as_str SIGUSR1 = ''SIGUSR1''"
| "signal_as_str SIGSEGV = ''SIGSEGV''"
| "signal_as_str SIGUSR2 = ''SIGUSR2''"
| "signal_as_str SIGPIPE = ''SIGPIPE''"
| "signal_as_str SIGALRM = ''SIGALRM''"
| "signal_as_str SIGTERM = ''SIGTERM''"
| "signal_as_str SIGSTKFLT = ''SIGSTKFLT''"
| "signal_as_str SIGCHLD = ''SIGCHLD''"
| "signal_as_str SIGCONT = ''SIGCONT''"
| "signal_as_str SIGSTOP = ''SIGSTOP''"
| "signal_as_str SIGTSTP = ''SIGTSTP''"
| "signal_as_str SIGTTIN = ''SIGTTIN''"
| "signal_as_str SIGTTOU = ''SIGTTOU''"
| "signal_as_str SIGURG = ''SIGURG''"
| "signal_as_str SIGXCPU = ''SIGXCPU''"
| "signal_as_str SIGXFSZ = ''SIGXFSZ''"
| "signal_as_str SIGVTALRM = ''SIGVTALRM''"
| "signal_as_str SIGPROF = ''SIGPROF''"
| "signal_as_str SIGWINCH = ''SIGWINCH''"
| "signal_as_str SIGIO = ''SIGIO''"
| "signal_as_str SIGPWR = ''SIGPWR''"
| "signal_as_str SIGSYS = ''SIGSYS''"

text \<open>The array \<open>candidates\<close>, in its order.\<close>

definition candidates :: "signal list" where
  "candidates =
    [SIGHUP, SIGINT, SIGQUIT, SIGILL, SIGTRAP, SIGABRT, SIGBUS, SIGFPE, SIGKILL, SIGUSR1,
     SIGSEGV, SIGUSR2, SIGPIPE, SIGALRM, SIGTERM, SIGSTKFLT, SIGCHLD, SIGCONT, SIGSTOP,
     SIGTSTP, SIGTTIN, SIGTTOU, SIGURG, SIGXCPU, SIGXFSZ, SIGVTALRM, SIGPROF, SIGWINCH,
     SIGIO, SIGPWR, SIGSYS]"

text \<open>\<open>Signal::try_from(i32)\<close>: the signal of that number, if there is one.\<close>

definition signal_try_from :: "int \<Rightarrow> signal option" where
  "signal_try_from n = find (\<lambda>s. signal_number s = n) candidates"

datatype signal_error = BadSignal string

text \<open>\<open>sig.trim().to_uppercase()\<close>, then \<open>strip_prefix("SIG").unwrap_or(&s)\<close>.\<close>

definition normalise_signal :: "string \<Rightarrow> string" where
  "normalise_signal sig =
    (let s = to_uppercase (trim sig)
     in case strip_prefix ''SIG'' s of Some t \<Rightarrow> t | None \<Rightarrow> s)"

definition parse_signal :: "string \<Rightarrow> signal_error + signal" where
  "parse_signal sig =
    (let s = normalise_signal sig
     in case parse_i32 s of
          Some n \<Rightarrow> (case signal_try_from n of Some g \<Rightarrow> Inr g | None \<Rightarrow> Inl (BadSignal sig))
        | None \<Rightarrow>
            (case find (\<lambda>g. signal_as_str g = ''SIG'' @ s) candidates of
               Some g \<Rightarrow> Inr g | None \<Rightarrow> Inl (BadSignal sig)))"

lemma in_candidates [simp]: "g \<in> set candidates"
  by (cases g) (simp_all only: candidates_def list.set insert_iff simp_thms)

lemma find_eq_SomeD: "find P xs = Some x \<Longrightarrow> P x"
  by (induction xs) (auto split: if_splits)

lemma find_unique:
  assumes "x \<in> set xs" and "P x" and "\<And>y. P y \<Longrightarrow> y = x"
  shows "find P xs = Some x"
proof (cases "find P xs")
  case None
  with assms(1,2) show ?thesis by (simp add: find_None_iff)
next
  case (Some y)
  then have "P y" by (rule find_eq_SomeD)
  then have "y = x" by (rule assms(3))
  with Some show ?thesis by simp
qed

lemma candidates_UNIV: "set candidates = UNIV"
  by auto

lemma inject_from_distinct:
  assumes "distinct (map f candidates)"
  shows "f g = f h \<longleftrightarrow> g = h"
  using assms by (auto simp: distinct_map candidates_UNIV inj_on_def)

lemma signal_number_inject: "signal_number g = signal_number h \<longleftrightarrow> g = h"
  by (rule inject_from_distinct) (simp add: candidates_def)

lemma signal_as_str_inject: "signal_as_str g = signal_as_str h \<longleftrightarrow> g = h"
  by (rule inject_from_distinct) (simp add: candidates_def)

lemma signal_number_range: "1 \<le> signal_number g \<and> signal_number g \<le> 31"
  by (cases g) simp_all

lemma signal_try_from_number: "signal_try_from (signal_number g) = Some g"
  unfolding signal_try_from_def by (rule find_unique) (simp_all add: signal_number_inject)

lemma signal_try_from_Some: "signal_try_from n = Some g \<longleftrightarrow> n = signal_number g"
proof
  assume "signal_try_from n = Some g"
  then show "n = signal_number g"
    unfolding signal_try_from_def by (auto dest: find_eq_SomeD)
qed (simp add: signal_try_from_number)

lemma find_name: "find (\<lambda>h. signal_as_str h = signal_as_str g) candidates = Some g"
  by (rule find_unique) (simp_all add: signal_as_str_inject)

lemma signal_as_str_SIG: "\<exists>t. signal_as_str g = ''SIG'' @ t"
  by (cases g) simp_all

section \<open>Which strings are signals\<close>

lemma parse_signal_Inr:
  "parse_signal s = Inr g \<longleftrightarrow>
    (case parse_i32 (normalise_signal s) of Some n \<Rightarrow> n = signal_number g
     | None \<Rightarrow> ''SIG'' @ normalise_signal s = signal_as_str g)"
proof (cases "parse_i32 (normalise_signal s)")
  case (Some n)
  then show ?thesis
    using signal_try_from_Some [of n g]
    by (cases "signal_try_from n") (auto simp: parse_signal_def Let_def)
next
  case None
  let ?f = "find (\<lambda>g. signal_as_str g = ''SIG'' @ normalise_signal s) candidates"
  have f: "?f = Some g \<longleftrightarrow> signal_as_str g = ''SIG'' @ normalise_signal s"
  proof
    assume g: "signal_as_str g = ''SIG'' @ normalise_signal s"
    show "?f = Some g" unfolding g [symmetric] by (rule find_name)
  qed (rule find_eq_SomeD)
  have "parse_signal s = Inr g \<longleftrightarrow> ?f = Some g"
    using None by (cases ?f) (simp_all add: parse_signal_def Let_def)
  also note f
  finally show ?thesis using None by auto
qed

lemma parse_signal_error: "parse_signal s = Inl e \<Longrightarrow> e = BadSignal s"
  by (auto simp: parse_signal_def Let_def split: option.splits)

definition lowercase :: "string \<Rightarrow> string" where
  "lowercase = map (\<lambda>c. if is_ascii_upper c then char_of (of_char c + 32 :: nat) else c)"

text \<open>The spellings of a signal's name.\<close>

definition spellings :: "signal \<Rightarrow> string list" where
  "spellings g = (let s = signal_as_str g in [s, drop 3 s, lowercase s, '' '' @ s @ ''  ''])"

abbreviation plain :: "char \<Rightarrow> bool" where
  "plain c \<equiv> is_ascii_upper c \<or> is_ascii_digit c"

abbreviation lower_char :: "char \<Rightarrow> char" where
  "lower_char c \<equiv> (if is_ascii_upper c then char_of (of_char c + 32 :: nat) else c)"

lemma plain_char:
  assumes "plain c"
  shows "\<not> is_whitespace c" "ascii_uppercase c = c" "\<not> is_whitespace (lower_char c)"
    "ascii_uppercase (lower_char c) = c"
  using assms
  by (auto simp: is_ascii_upper_def is_ascii_digit_def is_whitespace_def ascii_uppercase_def
      is_ascii_lower_def Let_def of_char_of take_bit_eq_mod)

lemma plain_name: "list_all plain (signal_as_str g)"
  by (cases g) (simp_all add: is_ascii_upper_def is_ascii_digit_def Let_def)

lemma trim_pad:
  assumes "list_all is_whitespace a" "list_all is_whitespace b" "w \<noteq> []"
    and "list_all (\<lambda>c. \<not> is_whitespace c) w"
  shows "trim (a @ w @ b) = w"
proof -
  have front: "dropWhile is_whitespace (u @ v) = dropWhile is_whitespace v" if "list_all is_whitespace u" for u v
    using that by (induction u) auto
  have stop: "dropWhile is_whitespace (u @ v) = u @ v"
    if "u \<noteq> []" "list_all (\<lambda>c. \<not> is_whitespace c) u" for u v
    using that by (cases u) auto
  have "rev w \<noteq> []" "list_all (\<lambda>c. \<not> is_whitespace c) (rev w)" "list_all is_whitespace (rev b)"
    using assms by (simp_all add: list_all_iff)
  then show ?thesis
    using assms front [of "rev b" "rev w"] stop [of "rev w" "[]"]
    by (simp add: trim_def trim_start_def trim_end_def front stop)
qed

lemma to_uppercase_plain: "list_all plain w \<Longrightarrow> to_uppercase w = w"
  by (induction w) (simp_all add: to_uppercase_def plain_char)

lemma to_uppercase_lowercase: "list_all plain w \<Longrightarrow> to_uppercase (lowercase w) = w"
  by (induction w) (simp_all add: to_uppercase_def lowercase_def plain_char(4))

lemma trim_plain:
  assumes "list_all plain w" and "w \<noteq> []"
  shows "trim w = w" "trim (lowercase w) = lowercase w" "trim ('' '' @ w @ ''  '') = w"
proof -
  have w: "list_all (\<lambda>c. \<not> is_whitespace c) w" and l: "list_all (\<lambda>c. \<not> is_whitespace c) (lowercase w)"
    using assms(1) by (induction w) (simp_all add: lowercase_def plain_char(1,3))
  have ne: "lowercase w \<noteq> []" using assms(2) by (simp add: lowercase_def)
  show "trim w = w" using trim_pad [OF _ _ assms(2) w, of "[]" "[]"] by simp
  show "trim (lowercase w) = lowercase w" using trim_pad [OF _ _ ne l, of "[]" "[]"] by simp
  show "trim ('' '' @ w @ ''  '') = w"
    by (rule trim_pad [OF _ _ assms(2) w]) (simp_all add: is_whitespace_def Let_def)
qed

lemma normalise_spellings: "map normalise_signal (spellings g) = replicate 4 (drop 3 (signal_as_str g))"
proof -
  obtain t where t: "signal_as_str g = ''SIG'' @ t" "t \<noteq> []"
    using that [of "drop 3 (signal_as_str g)"] by (cases g) simp_all
  have p: "list_all plain (signal_as_str g)" by (rule plain_name)
  then have pt: "list_all plain t" by (simp add: t)
  have no: "strip_prefix ''SIG'' t = None" by (cases g) (use t in auto)
  have yes: "strip_prefix ''SIG'' (''SIG'' @ t) = Some t" by (simp only: strip_prefix_Some)
  have ne: "signal_as_str g \<noteq> []" by (simp add: t)
  show ?thesis
    using trim_plain [OF p ne] trim_plain(1) [OF pt t(2)] to_uppercase_plain [OF p]
      to_uppercase_plain [OF pt] to_uppercase_lowercase [OF p] no yes
    unfolding spellings_def normalise_signal_def Let_def list.map t(1)
    by (simp only:) (simp add: numeral_eq_Suc)
qed

lemma name_no_number: "parse_i32 (drop 3 (signal_as_str g)) = None"
  by (cases g) (simp_all add: parse_i32_def parse_digits_def is_ascii_digit_def Let_def)

lemma SIG_name: "''SIG'' @ drop 3 (signal_as_str g) = signal_as_str g"
  by (cases g) simp_all

lemma parse_spelling:
  assumes "x \<in> set (spellings g)"
  shows "parse_signal x = Inr g"
proof -
  have "normalise_signal x \<in> set (map normalise_signal (spellings g))" using assms by simp
  then have "normalise_signal x = drop 3 (signal_as_str g)" unfolding normalise_spellings by simp
  then show ?thesis
    unfolding parse_signal_Inr by (simp only: name_no_number SIG_name option.case)
qed

lemma digit_plain:
  assumes "is_ascii_digit c"
  shows "\<not> is_whitespace c" "ascii_uppercase c = c" "c \<noteq> CHR ''S''"
  using assms by (auto simp: is_ascii_digit_def is_whitespace_def ascii_uppercase_def is_ascii_lower_def Let_def)

lemma normalise_show_nat: "normalise_signal (show_nat n) = show_nat n"
proof -
  have d: "list_all is_ascii_digit (show_nat n)" by (rule show_nat_digits)
  then have "dropWhile is_whitespace (show_nat n) = show_nat n"
    and "dropWhile is_whitespace (rev (show_nat n)) = rev (show_nat n)"
    and "map ascii_uppercase (show_nat n) = show_nat n"
    by (auto simp: dropWhile_eq_self_iff list_all_iff digit_plain hd_rev intro!: map_idI)
  moreover have "strip_prefix ''SIG'' (show_nat n) = None"
  proof -
    obtain c cs where "show_nat n = c # cs" "c \<noteq> CHR ''S''"
      using show_nat_head [of n] digit_plain(3) by blast
    then show ?thesis by simp
  qed
  ultimately show ?thesis
    by (simp add: normalise_signal_def trim_def trim_start_def trim_end_def to_uppercase_def)
qed

section \<open>Properties\<close>

text \<open>
  C33. Every signal can be named in all the documented ways: by its full name, without the prefix
  \<open>SIG\<close>, in lower case, with blanks around it, or by its number.
\<close>

theorem parse_signal_accepts:
  "parse_signal (signal_as_str g) = Inr g \<and> parse_signal (drop 3 (signal_as_str g)) = Inr g
    \<and> parse_signal (lowercase (signal_as_str g)) = Inr g
    \<and> parse_signal ('' '' @ signal_as_str g @ ''  '') = Inr g
    \<and> parse_signal (show_int (signal_number g)) = Inr g"
proof -
  have n: "1 \<le> signal_number g" "signal_number g \<le> 31" using signal_number_range [of g] by auto
  then have "parse_i32 (show_int (signal_number g)) = Some (signal_number g)"
    by (intro parse_i32_show_int) simp_all
  moreover have "normalise_signal (show_int (signal_number g)) = show_int (signal_number g)"
    using n by (simp add: show_int_def normalise_show_nat)
  ultimately show ?thesis
    using parse_spelling [of _ g] by (simp add: spellings_def Let_def parse_signal_Inr [of "show_int _"])
qed

text \<open>
  Nothing else is accepted: a string denotes a signal exactly if, trimmed, upper-cased and without
  the prefix, it reads as the signal's number, or does not read as a number at all and is its name;
  any other string is refused with the string itself in the error.
\<close>

theorem parse_signal_iff:
  "(parse_signal s = Inr g \<longleftrightarrow>
      (case parse_i32 (normalise_signal s) of Some n \<Rightarrow> n = signal_number g
       | None \<Rightarrow> ''SIG'' @ normalise_signal s = signal_as_str g))
    \<and> parse_signal s \<in> {Inl (BadSignal s)} \<union> range Inr"
  using parse_signal_Inr [of s g] parse_signal_error [of s] by (cases "parse_signal s") auto

end
