(* ===== verification/Kernel.thy ===== *)
theory Kernel
  imports Bytes Signals
begin

text \<open>
  The boundary between the supervisor and the kernel: \<open>waitpid\<close>, \<open>ptrace\<close> and \<open>/proc/<pid>/mem\<close>.
  None of it is code of the repository, so a kernel is a parameter: a record of the operations the
  supervisor calls, over an abstract kernel state \<open>'k\<close>. Linux/x86-64 constants keep their names.
\<close>

section \<open>What a wait reports\<close>

datatype wait_status =
    Exited pid int
  | Signaled pid signal bool
  | Stopped pid signal
  | PtraceEvent pid signal int
  | PtraceSyscall pid
  | Continued pid
  | StillAlive

definition PTRACE_EVENT_FORK :: int where "PTRACE_EVENT_FORK = 1"
definition PTRACE_EVENT_VFORK :: int where "PTRACE_EVENT_VFORK = 2"
definition PTRACE_EVENT_CLONE :: int where "PTRACE_EVENT_CLONE = 3"
definition PTRACE_EVENT_EXIT :: int where "PTRACE_EVENT_EXIT = 6"

definition PTRACE_SYSCALL_INFO_ENTRY :: u8 where "PTRACE_SYSCALL_INFO_ENTRY = 1"
definition PTRACE_SYSCALL_INFO_EXIT :: u8 where "PTRACE_SYSCALL_INFO_EXIT = 2"

section \<open>Registers\<close>

text \<open>
  The members of \<open>user_regs_struct\<close> the supervisor reads or writes; \<open>other_regs\<close> stands for the
  rest of the structure, which is read and written back as a whole.
\<close>

record regs =
  rdi :: u64
  rsi :: u64
  rdx :: u64
  r10 :: u64
  r9 :: u64
  orig_rax :: u64
  rax :: u64
  other_regs :: "u64 list"

section \<open>The operations\<close>

record 'k kernel =
  k_waitpid :: "'k \<Rightarrow> (errno + wait_status) \<times> 'k"
  k_resume :: "pid \<Rightarrow> signal option \<Rightarrow> 'k \<Rightarrow> (errno + unit) \<times> 'k"
  k_syscall_info :: "pid \<Rightarrow> 'k \<Rightarrow> (errno + u8) \<times> 'k"
  k_getevent :: "pid \<Rightarrow> 'k \<Rightarrow> (errno + u64) \<times> 'k"
  k_getregs :: "pid \<Rightarrow> 'k \<Rightarrow> (errno + regs) \<times> 'k"
  k_setregs :: "pid \<Rightarrow> regs \<Rightarrow> 'k \<Rightarrow> (errno + unit) \<times> 'k"
  k_open_mem :: "pid \<Rightarrow> 'k \<Rightarrow> (errno + unit) \<times> 'k"
  k_write_at :: "pid \<Rightarrow> u64 \<Rightarrow> bytes \<Rightarrow> 'k \<Rightarrow> (errno + nat) \<times> 'k"
  k_read_exact_at :: "pid \<Rightarrow> u64 \<Rightarrow> nat \<Rightarrow> 'k \<Rightarrow> (errno + bytes) \<times> 'k"

section \<open>Numbers of the kernel's ABI\<close>

definition SYS_futex :: int where "SYS_futex = 202"
definition SYS_clone :: int where "SYS_clone = 56"
definition SYS_clone3 :: int where "SYS_clone3 = 435"
definition SYS_exit_group :: int where "SYS_exit_group = 231"
definition SYS_getrandom :: int where "SYS_getrandom = 318"
definition SYS_gettimeofday :: int where "SYS_gettimeofday = 96"
definition SYS_clock_gettime :: int where "SYS_clock_gettime = 228"
definition SYS_CLOCK_GETTIME64 :: int where "SYS_CLOCK_GETTIME64 = 403"

lemmas syscall_numbers = SYS_futex_def SYS_clone_def SYS_clone3_def SYS_exit_group_def
  SYS_getrandom_def SYS_gettimeofday_def SYS_clock_gettime_def SYS_CLOCK_GETTIME64_def

definition FUTEX_CMD_MASK :: u32 where "FUTEX_CMD_MASK = 0x7f"
definition FUTEX_WAIT :: int where "FUTEX_WAIT = 0"
definition FUTEX_WAKE :: int where "FUTEX_WAKE = 1"
definition FUTEX_REQUEUE :: int where "FUTEX_REQUEUE = 3"
definition FUTEX_CMP_REQUEUE :: int where "FUTEX_CMP_REQUEUE = 4"
definition FUTEX_WAIT_BITSET :: int where "FUTEX_WAIT_BITSET = 9"
definition FUTEX_WAKE_BITSET :: int where "FUTEX_WAKE_BITSET = 10"

lemmas futex_numbers = FUTEX_WAIT_def FUTEX_WAKE_def FUTEX_REQUEUE_def FUTEX_CMP_REQUEUE_def
  FUTEX_WAIT_BITSET_def FUTEX_WAKE_BITSET_def

lemmas ptrace_events = PTRACE_EVENT_FORK_def PTRACE_EVENT_VFORK_def PTRACE_EVENT_CLONE_def
  PTRACE_EVENT_EXIT_def

definition CLONE_THREAD :: u64 where "CLONE_THREAD = 0x10000"
definition CLONE_CHILD_CLEARTID :: u64 where "CLONE_CHILD_CLEARTID = 0x200000"

definition futex_cmd_name :: "int \<Rightarrow> string" where
  "futex_cmd_name cmd =
    (if cmd = FUTEX_WAIT then ''wait''
     else if cmd = FUTEX_WAKE then ''wake''
     else if cmd = FUTEX_REQUEUE then ''requeue''
     else if cmd = FUTEX_CMP_REQUEUE then ''cmp_requeue''
     else if cmd = FUTEX_WAIT_BITSET then ''wait_bitset''
     else if cmd = FUTEX_WAKE_BITSET then ''wake_bitset''
     else ''other'')"

text \<open>The name table of \<open>syscall_name\<close>, in its order; a number not in it has the empty name.\<close>

definition syscall_names :: "(int \<times> string) list" where
  "syscall_names =
    [(318, ''getrandom''), (228, ''clock_gettime''), (403, ''clock_gettime64''),
     (96, ''gettimeofday''), (0, ''read''), (1, ''write''), (257, ''openat''), (3, ''close''),
     (9, ''mmap''), (11, ''munmap''), (202, ''futex''), (56, ''clone''), (435, ''clone3''),
     (59, ''execve''), (322, ''execveat''), (60, ''exit''), (231, ''exit_group''),
     (35, ''nanosleep''), (12, ''brk''), (158, ''arch_prctl''), (218, ''set_tid_address''),
     (157, ''prctl''), (262, ''newfstatat''), (8, ''lseek''), (16, ''ioctl''), (7, ''poll''),
     (271, ''ppoll''), (13, ''rt_sigaction''), (14, ''rt_sigprocmask''), (41, ''socket''),
     (42, ''connect''), (43, ''accept''), (49, ''bind''), (51, ''getsockname''), (33, ''dup2''),
     (72, ''fcntl''), (39, ''getpid''), (110, ''getppid''), (102, ''getuid''), (105, ''setuid''),
     (104, ''getgid''), (106, ''setgid''), (267, ''readlinkat''), (258, ''mkdirat''),
     (263, ''unlinkat''), (165, ''mount''), (80, ''chdir''), (273, ''set_robust_list''),
     (334, ''rseq''), (293, ''pipe2''), (291, ''epoll_create1''), (233, ''epoll_ctl''),
     (232, ''epoll_wait''), (217, ''getdents64''), (24, ''sched_yield''), (28, ''madvise''),
     (10, ''mprotect''), (324, ''membarrier'')]"

definition syscall_name :: "int \<Rightarrow> string" where
  "syscall_name nr = (case map_of syscall_names nr of Some n \<Rightarrow> n | None \<Rightarrow> '''')"

end
