(* ===== verification/Prng.thy ===== *)
theory Prng
  imports Bytes
begin

text \<open>
  The seeded generator of the supervisor (\<open>struct Prng\<close> of \<open>src/runtime/supervisor.rs\<close>): xorshift64*
  over a 64-bit state, and \<open>fill\<close>, which hands its outputs out as little-endian bytes.
\<close>

datatype prng = Prng (state: u64)

definition prng_new :: "u64 \<Rightarrow> prng" where
  "prng_new seed = Prng (max seed 1)"

definition xorshift :: "u64 \<Rightarrow> u64" where
  "xorshift x0 =
    (let x1 = x0 XOR drop_bit 12 x0;
         x2 = x1 XOR push_bit 25 x1
     in x2 XOR drop_bit 27 x2)"

fun next_u64 :: "prng \<Rightarrow> u64 \<times> prng" where
  "next_u64 (Prng s) = (let x = xorshift s in (x * 0x2545F4914F6CDD1D, Prng x))"

text \<open>\<open>fill\<close> on a buffer of \<open>n\<close> bytes: one draw per chunk of 8, a short last chunk truncated.\<close>

fun fill :: "prng \<Rightarrow> nat \<Rightarrow> bytes \<times> prng" where
  "fill g n =
    (if n = 0 then ([], g)
     else let (v, g1) = next_u64 g;
              m = min n 8;
              (rest, g2) = fill g1 (n - m)
          in (take m (to_le_bytes v) @ rest, g2))"

declare fill.simps [simp del]

lemma fill_0 [simp]: "fill g 0 = ([], g)"
  by (simp add: fill.simps)

section \<open>The state transition is a bijection that never reaches 0\<close>

lemma xor_eq_0_iff: "x XOR y = 0 \<longleftrightarrow> x = (y :: 'a::len word)"
  by (metis xor.left_neutral xor.right_neutral xor_self_eq word_bw_assocs(3))

lemma drop_bit_fixpoint:
  assumes "0 < n" and "drop_bit n z = (z :: u64)"
  shows "z = 0"
proof -
  have "unat z = drop_bit n (unat z)"
    using unat_drop_bit_eq [of n z] by (simp add: assms(2))
  then have "unat z = unat z div 2 ^ n"
    by (simp add: drop_bit_eq_div)
  moreover have "1 < (2 :: nat) ^ n" using assms(1) one_less_power [of "2 :: nat" n] by simp
  ultimately have "unat z = 0"
    by (metis div_less_dividend gr0I nat_neq_iff)
  then show ?thesis by (simp add: unsigned_eq_0_iff)
qed

lemma push_bit_fixpoint:
  assumes "push_bit 25 z = (z :: u64)"
  shows "z = 0"
proof -
  have "push_bit 25 (push_bit 25 (push_bit 25 z)) = z" using assms by simp
  then have "push_bit 75 z = z" by (simp add: push_bit_push_bit)
  moreover have "push_bit 75 z = 0"
    by (rule bit_eqI) (simp add: bit_push_bit_iff)
  ultimately show ?thesis by simp
qed

lemma shift_xor_inj:
  assumes lin: "\<And>a b. sh (a XOR b) = sh a XOR sh b"
    and fp: "\<And>z. sh z = z \<Longrightarrow> z = (0 :: u64)"
    and eq: "x XOR sh x = y XOR sh y"
  shows "x = y"
proof -
  have "(x XOR y) XOR sh (x XOR y) = (x XOR sh x) XOR (y XOR sh y)"
    by (simp add: lin ac_simps)
  also have "\<dots> = 0" using eq by simp
  finally have "sh (x XOR y) = x XOR y" by (simp add: xor_eq_0_iff)
  then show ?thesis using fp xor_eq_0_iff by blast
qed

lemma xorshift_inject: "xorshift x = xorshift y \<longleftrightarrow> x = y"
proof
  assume e: "xorshift x = xorshift y"
  have r: "a XOR drop_bit n a = b XOR drop_bit n b \<Longrightarrow> a = b" if "0 < n" for n and a b :: u64
    by (rule shift_xor_inj [where sh = "drop_bit n"])
      (auto simp: drop_bit_xor dest: drop_bit_fixpoint [OF that])
  have l: "a XOR push_bit 25 a = b XOR push_bit 25 b \<Longrightarrow> a = b" for a b :: u64
    by (rule shift_xor_inj [where sh = "push_bit 25"])
      (auto simp: push_bit_xor dest: push_bit_fixpoint)
  have "(x XOR drop_bit 12 x) XOR push_bit 25 (x XOR drop_bit 12 x)
      = (y XOR drop_bit 12 y) XOR push_bit 25 (y XOR drop_bit 12 y)"
    using e unfolding xorshift_def Let_def by (rule r [rotated]) simp
  then have "x XOR drop_bit 12 x = y XOR drop_bit 12 y" by (rule l)
  then show "x = y" by (rule r [rotated]) simp
qed simp

lemma xorshift_0 [simp]: "xorshift 0 = 0"
  by (simp add: xorshift_def)

lemma xorshift_eq_0_iff [simp]: "xorshift x = 0 \<longleftrightarrow> x = 0"
  using xorshift_inject [of x 0] by simp

lemma output_mult_inverse: "0x2545F4914F6CDD1D * 6415128727920758069 = (1 :: u64)"
  by (simp add: word_uint_eq_iff)

lemma output_mult_inject:
  "x * 0x2545F4914F6CDD1D = y * 0x2545F4914F6CDD1D \<longleftrightarrow> x = (y :: u64)"
proof
  assume "x * 0x2545F4914F6CDD1D = y * 0x2545F4914F6CDD1D"
  then have "x * (0x2545F4914F6CDD1D * 6415128727920758069)
      = y * (0x2545F4914F6CDD1D * 6415128727920758069)"
    by (simp only: mult.assoc [symmetric])
  then show "x = y" by (simp only: output_mult_inverse mult_1_right)
qed simp

lemma state_prng_new: "state (prng_new seed) \<noteq> 0"
proof -
  have "(1 :: u64) \<le> max seed 1" by simp
  then show ?thesis by (auto simp: prng_new_def simp del: max.cobounded2)
qed

lemma next_u64_state_nonzero: "state g \<noteq> 0 \<Longrightarrow> state (snd (next_u64 g)) \<noteq> 0"
  by (cases g) (simp add: Let_def)

lemma next_u64_inject: "next_u64 g = next_u64 h \<longleftrightarrow> g = h"
  by (cases g; cases h) (auto simp: Let_def output_mult_inject xorshift_inject)

lemma next_u64_value_inject: "fst (next_u64 g) = fst (next_u64 h) \<longleftrightarrow> g = h"
  by (cases g; cases h) (auto simp: Let_def output_mult_inject xorshift_inject)

section \<open>Filling buffers\<close>

lemma fill_unfold:
  assumes "next_u64 g = (v, g1)" and "0 < n"
  shows "fst (fill g n) = take (min n 8) (to_le_bytes v) @ fst (fill g1 (n - min n 8))"
    and "snd (fill g n) = snd (fill g1 (n - min n 8))"
  using assms by (auto simp: fill.simps [of g n] Let_def split: prod.split)

lemma fill_induct [case_names empty chunk]:
  fixes n :: nat
  assumes "\<And>g. P g 0"
    and "\<And>g n v g1. 0 < n \<Longrightarrow> next_u64 g = (v, g1) \<Longrightarrow> P g1 (n - min n 8) \<Longrightarrow> P g n"
  shows "P g n"
proof (induction n arbitrary: g rule: less_induct)
  case (less n)
  show ?case
  proof (cases "n = 0")
    case False
    obtain v g1 where "next_u64 g = (v, g1)" by (cases "next_u64 g")
    moreover have "n - min n 8 < n" using False by simp
    ultimately show ?thesis using False less assms(2) by blast
  qed (simp add: assms(1))
qed

lemma length_fill [simp]: "length (fst (fill g n)) = n"
  by (induction g n rule: fill_induct) (simp_all add: fill_unfold)

lemma fill_state_nonzero: "state g \<noteq> 0 \<Longrightarrow> state (snd (fill g n)) \<noteq> 0"
proof (induction g n rule: fill_induct)
  case (chunk g n v g1)
  then show ?case using next_u64_state_nonzero [of g] by (simp add: fill_unfold)
qed simp

lemma fill_step: "fill g (8 + n) =
    (let (v, g1) = next_u64 g; (rest, g2) = fill g1 n in (to_le_bytes v @ rest, g2))"
  by (simp add: fill.simps [of g "8 + n"] split: prod.split)

lemma fill_append:
  "fill g (8 * k + n) =
    (let (a, g1) = fill g (8 * k); (b, g2) = fill g1 n in (a @ b, g2))"
proof (induction k arbitrary: g)
  case 0
  show ?case by (simp split: prod.split)
next
  case (Suc k)
  have "8 * Suc k + n = 8 + (8 * k + n)" and "8 * Suc k = 8 + 8 * k" by simp_all
  then show ?case
    by (simp only: fill_step Suc.IH) (simp split: prod.splits)
qed

lemma fill_8: "fst (fill g 8) = to_le_bytes (fst (next_u64 g))"
  using fill_step [of g 0] by (simp split: prod.split)

lemma fill_8_inject: "fst (fill g 8) = fst (fill h 8) \<longleftrightarrow> g = h"
  by (simp add: fill_8 le64.enc_inject next_u64_value_inject)

lemma prng_new_eq_iff: "prng_new s = prng_new t \<longleftrightarrow> s = t \<or> s \<le> 1 \<and> t \<le> 1"
  by (auto simp: prng_new_def max_def not_le)

section \<open>Properties\<close>

text \<open>
  Different seeds give different randomness from the first eight bytes on, except that the seeds
  0 and 1 are the same generator (a zero state would be absorbing, so 0 is replaced by 1).
\<close>

theorem seeds_distinguished:
  "fst (fill (prng_new s) 8) = fst (fill (prng_new t) 8) \<longleftrightarrow> s = t \<or> s \<le> 1 \<and> t \<le> 1"
  by (simp add: fill_8_inject prng_new_eq_iff)

text \<open>
  C32. \<open>fill\<close> hands out one stream: filling \<open>8 k + n\<close> bytes at once gives what filling \<open>8 k\<close> and then
  \<open>n\<close> bytes gives, and leaves the generator in the same state; the buffer is always filled, and the
  generator never reaches the absorbing state 0.
\<close>

theorem fill_is_a_stream:
  "fill (prng_new seed) (8 * k + n) =
      (case fill (prng_new seed) (8 * k) of (a, g) \<Rightarrow> case fill g n of (b, h) \<Rightarrow> (a @ b, h))
    \<and> length (fst (fill (prng_new seed) n)) = n \<and> state (snd (fill (prng_new seed) n)) \<noteq> 0"
  using fill_append [of "prng_new seed" k n] fill_state_nonzero [OF state_prng_new]
  by (simp add: Let_def split: prod.splits)

end
