(* ===== verification/Clock.thy ===== *)
theory Clock
  imports Prelude
begin

text \<open>
  The virtual clock of the supervisor (\<open>Supervisor::virtual_clock\<close>). The only state is the tick
  counter. Arithmetic is on 64-bit words, which wrap as a release build does (a debug build would
  panic at the same points); the bounds below say how far away that is.
\<close>

definition VIRTUAL_EPOCH :: u64 where "VIRTUAL_EPOCH = 1704067200"

definition MONO_STEP_NS :: u64 where "MONO_STEP_NS = 1000000"

definition CLOCK_REALTIME :: int where "CLOCK_REALTIME = 0"
definition CLOCK_MONOTONIC :: int where "CLOCK_MONOTONIC = 1"
definition CLOCK_REALTIME_COARSE :: int where "CLOCK_REALTIME_COARSE = 5"
definition CLOCK_MONOTONIC_COARSE :: int where "CLOCK_MONOTONIC_COARSE = 6"
definition CLOCK_BOOTTIME :: int where "CLOCK_BOOTTIME = 7"

lemmas clock_ids = CLOCK_REALTIME_def CLOCK_MONOTONIC_def CLOCK_REALTIME_COARSE_def
  CLOCK_MONOTONIC_COARSE_def CLOCK_BOOTTIME_def

text \<open>Returns the pair (seconds, nanoseconds) and the new tick.\<close>

definition virtual_clock :: "int \<Rightarrow> u64 \<Rightarrow> (u64 \<times> u64) \<times> u64" where
  "virtual_clock clk tick =
    (if clk = CLOCK_REALTIME \<or> clk = CLOCK_REALTIME_COARSE then ((VIRTUAL_EPOCH, 0), tick)
     else if clk = CLOCK_MONOTONIC \<or> clk = CLOCK_MONOTONIC_COARSE \<or> clk = CLOCK_BOOTTIME then
       ((tick * MONO_STEP_NS div 1000000000, tick * MONO_STEP_NS mod 1000000000), tick + 1)
     else ((VIRTUAL_EPOCH, 0), tick))"

definition is_monotonic :: "int \<Rightarrow> bool" where
  "is_monotonic clk \<longleftrightarrow>
    clk = CLOCK_MONOTONIC \<or> clk = CLOCK_MONOTONIC_COARSE \<or> clk = CLOCK_BOOTTIME"

text \<open>A reading as a number of nanoseconds.\<close>

definition reading_ns :: "u64 \<times> u64 \<Rightarrow> nat" where
  "reading_ns r = unat (fst r) * 1000000000 + unat (snd r)"

lemma virtual_clock_monotonic:
  "is_monotonic clk \<Longrightarrow> virtual_clock clk t =
    ((t * MONO_STEP_NS div 1000000000, t * MONO_STEP_NS mod 1000000000), t + 1)"
  by (auto simp: virtual_clock_def is_monotonic_def clock_ids)

lemma virtual_clock_other:
  "\<not> is_monotonic clk \<Longrightarrow> virtual_clock clk t = ((VIRTUAL_EPOCH, 0), t)"
  by (simp add: virtual_clock_def is_monotonic_def)

lemma virtual_clock_nsec_bound: "unat (snd (fst (virtual_clock clk t))) < 1000000000"
proof (cases "is_monotonic clk")
  case True
  have "unat (t * MONO_STEP_NS mod 1000000000) = unat (t * MONO_STEP_NS) mod 1000000000"
    by (simp add: unat_mod)
  then show ?thesis by (simp add: virtual_clock_monotonic True)
qed (simp add: virtual_clock_other)

lemma reading_ns_divmod: "reading_ns (x div 1000000000, x mod 1000000000) = unat x"
  by (simp add: reading_ns_def unat_div unat_mod)

lemma reading_ns_monotonic:
  assumes "is_monotonic clk" and "unat t * 1000000 < 2 ^ 64"
  shows "reading_ns (fst (virtual_clock clk t)) = unat t * 1000000"
  using assms
  by (simp add: virtual_clock_monotonic reading_ns_divmod MONO_STEP_NS_def unat_word_ariths)

lemma virtual_clock_tick:
  "snd (virtual_clock clk t) = (if is_monotonic clk then t + 1 else t)"
  by (simp add: virtual_clock_monotonic virtual_clock_other)

section \<open>Properties\<close>

text \<open>
  What a clock read returns is always a valid \<open>timespec\<close> (less than 10^9 nanoseconds); only the
  monotonic clocks advance the tick, and consecutive reads of them are one millisecond apart until
  the nanosecond count reaches 2^64; every other clock shows the fixed epoch.
\<close>

theorem clock_reads:
  "unat (snd (fst (virtual_clock clk t))) < 1000000000
    \<and> (if is_monotonic clk then
         snd (virtual_clock clk t) = t + 1
         \<and> reading_ns (fst (virtual_clock clk (of_nat (min j 18446744073708)))) = min j 18446744073708 * 1000000
       else virtual_clock clk t = ((1704067200, 0), t))"
proof -
  let ?j = "min j 18446744073708"
  have j: "?j \<le> 18446744073708" by simp
  then have u: "unat (of_nat ?j :: u64) = ?j" by (simp add: unat_of_nat)
  have "reading_ns (fst (virtual_clock clk (of_nat ?j))) = ?j * 1000000" if "is_monotonic clk"
    using reading_ns_monotonic [OF that, of "of_nat ?j"] j by (simp add: u)
  then show ?thesis
    using virtual_clock_nsec_bound [of clk t]
    by (auto simp: virtual_clock_tick virtual_clock_other VIRTUAL_EPOCH_def)
qed

end
