(* ===== verification/Supervisor.thy ===== *)
theory Supervisor
  imports Kernel Prng Clock
begin

text \<open>
  The state of the deterministic supervisor (\<open>struct Supervisor\<close> of \<open>src/runtime/supervisor.rs\<close>), its
  trace, its futex queues and its scheduler. The kernel state and the records handed to
  \<open>state::trace_event\<close> are two more components of the state.
\<close>

section \<open>State\<close>

datatype supervise_error = Ptrace errno | Wait errno | Io errno | Deadlock

record pending_inject =
  inj_syscall :: int
  inj_retval :: int

record clone_info =
  ci_flags :: u64
  ci_child_tid :: u64

record thread =
  vtid :: u64
  child_tid :: u64
  flags :: u64
  scheduled :: bool

record trace_rec =
  tr_seq :: u64
  tr_event :: string
  tr_detail :: json

record 'k supervisor =
  sv_pid :: pid
  rng :: prng
  tick :: u64
  pending :: "pid \<rightharpoonup> pending_inject"
  seq :: u64
  sv_state_root :: string
  sv_id :: string
  threads :: "(pid \<times> thread) list"
  vtid_next :: u64
  runnable :: "pid list"
  pending_start :: "pid set"
  stopped_pending :: "pid set"
  blocked :: "pid set"
  waiting :: "u64 \<rightharpoonup> pid list"
  current :: "pid option"
  last_vtid :: "u64 option"
  sig_pending :: "pid \<rightharpoonup> signal"
  clone_pending :: "pid \<rightharpoonup> clone_info"
  group_exiting :: bool
  events :: "trace_rec list"
  kern :: 'k

type_synonym ('k, 'a) sv = "('k supervisor, supervise_error, 'a) prog"

definition init_thread :: thread where
  "init_thread = \<lparr>vtid = 0, child_tid = 0, flags = 0, scheduled = True\<rparr>"

definition supervisor_new :: "pid \<Rightarrow> u64 \<Rightarrow> string \<Rightarrow> string \<Rightarrow> 'k \<Rightarrow> 'k supervisor" where
  "supervisor_new p seed root i k =
    \<lparr>sv_pid = p, rng = prng_new seed, tick = 0, pending = (\<lambda>_. None), seq = 0,
     sv_state_root = root, sv_id = i, threads = [(p, init_thread)], vtid_next = 1,
     runnable = [p], pending_start = {}, stopped_pending = {}, blocked = {},
     waiting = (\<lambda>_. None), current = None, last_vtid = None, sig_pending = (\<lambda>_. None),
     clone_pending = (\<lambda>_. None), group_exiting = False, events = [], kern = k\<rparr>"

text \<open>A call into the kernel, its \<open>errno\<close> wrapped by \<open>map_err\<close>.\<close>

definition kcall ::
  "('k \<Rightarrow> (errno + 'a) \<times> 'k) \<Rightarrow> (errno \<Rightarrow> supervise_error) \<Rightarrow> ('k, 'a) sv" where
  "kcall f wrap = (\<lambda>s. case f (kern s) of
      (Inl e, k) \<Rightarrow> (Err (wrap e), s\<lparr>kern := k\<rparr>)
    | (Inr a, k) \<Rightarrow> (Ok a, s\<lparr>kern := k\<rparr>))"

section \<open>Tracing\<close>

definition trace_json_st :: "string \<Rightarrow> json \<Rightarrow> 'k supervisor \<Rightarrow> 'k supervisor" where
  "trace_json_st event detail s =
    (let n = seq s + 1
     in s\<lparr>seq := n,
          events := events s @ [\<lparr>tr_seq = n, tr_event = event, tr_detail = detail\<rparr>]\<rparr>)"

definition trace_json :: "string \<Rightarrow> json \<Rightarrow> ('k, unit) sv" where
  "trace_json event detail = modify (trace_json_st event detail)"

definition json_u64 :: "u64 \<Rightarrow> json" where
  "json_u64 x = JNum (uint x)"

definition json_opt :: "u64 option \<Rightarrow> json" where
  "json_opt x = (case x of None \<Rightarrow> JNull | Some n \<Rightarrow> json_u64 n)"

definition trace_futex :: "pid \<Rightarrow> string \<Rightarrow> string \<Rightarrow> ('k, unit) sv" where
  "trace_futex p op_name kind =
    bind (gets (\<lambda>s. map_option vtid (map_of (threads s) p))) (\<lambda>tid.
      trace_json ''futex''
        (JObj [(''op'', JStr op_name), (''kind'', JStr kind), (''tid'', json_opt tid)]))"

definition trace_syscall :: "int \<Rightarrow> string \<Rightarrow> ('k, unit) sv" where
  "trace_syscall nr kind = trace_json (syscall_name nr) (JObj [(''kind'', JStr kind)])"

definition trace_lifecycle :: "string \<Rightarrow> int \<Rightarrow> ('k, unit) sv" where
  "trace_lifecycle event code = trace_json event (JObj [(''code'', JNum code)])"

section \<open>Threads and futex queues\<close>

definition is_scheduled :: "pid \<Rightarrow> 'k supervisor \<Rightarrow> bool" where
  "is_scheduled p s \<longleftrightarrow> (case map_of (threads s) p of Some t \<Rightarrow> scheduled t | None \<Rightarrow> False)"

text \<open>\<open>self.threads.values().any(|t| !t.scheduled)\<close>\<close>

definition any_concurrent :: "'k supervisor \<Rightarrow> bool" where
  "any_concurrent s \<longleftrightarrow> list_ex (\<lambda>(_, t). \<not> scheduled t) (threads s)"

text \<open>\<open>self.threads.values().filter(|t| t.scheduled).count()\<close>\<close>

definition scheduled_count :: "'k supervisor \<Rightarrow> nat" where
  "scheduled_count s = length (filter (\<lambda>(_, t). scheduled t) (threads s))"

definition block :: "pid \<Rightarrow> u64 \<Rightarrow> 'k supervisor \<Rightarrow> 'k supervisor" where
  "block p addr s =
    s\<lparr>blocked := insert p (blocked s),
      waiting := (waiting s)(addr \<mapsto>
        (case waiting s addr of None \<Rightarrow> [] | Some q \<Rightarrow> q) @ [p])\<rparr>"

text \<open>
  The \<open>while woken < cap\<close> loop of \<open>wake\<close>: returns the number woken, the rest of the queue, the
  blocked set and the runnable queue.
\<close>

fun wake_loop ::
  "nat \<Rightarrow> nat \<Rightarrow> pid list \<Rightarrow> pid set \<Rightarrow> pid list \<Rightarrow> nat \<times> pid list \<times> pid set \<times> pid list" where
  "wake_loop cap woken [] b r = (woken, [], b, r)"
| "wake_loop cap woken (t # parked) b r =
    (if woken < cap then
       if t \<in> b then wake_loop cap (Suc woken) parked (b - {t}) (r @ [t])
       else wake_loop cap woken parked b r
     else (woken, t # parked, b, r))"

text \<open>\<open>(val as i64).max(0) as usize\<close>\<close>

definition wake_cap :: "u64 \<Rightarrow> nat" where
  "wake_cap val = nat (max (sint val) 0)"

definition wake :: "u64 \<Rightarrow> u64 \<Rightarrow> 'k supervisor \<Rightarrow> nat \<times> 'k supervisor" where
  "wake addr val s =
    (let cap = wake_cap val
     in if cap = 0 then (0, s)
        else case waiting s addr of
          None \<Rightarrow> (0, s)
        | Some q \<Rightarrow>
            (case wake_loop cap 0 q (blocked s) (runnable s) of
              (woken, parked, b, r) \<Rightarrow>
                (woken,
                 s\<lparr>runnable := r, blocked := b,
                   waiting := (waiting s)(addr := if parked = [] then None else Some parked)\<rparr>)))"

text \<open>\<open>waiting.values_mut().for_each(retain)\<close>, then dropping the empty queues.\<close>

definition drop_waiter :: "pid \<Rightarrow> (u64 \<rightharpoonup> pid list) \<Rightarrow> (u64 \<rightharpoonup> pid list)" where
  "drop_waiter p w = (\<lambda>a. case w a of
      None \<Rightarrow> None
    | Some q \<Rightarrow> (let q' = filter (\<lambda>x. x \<noteq> p) q in if q' = [] then None else Some q'))"

text \<open>
  \<open>on_thread_exit\<close> in two parts: what happens when the pid is a registered thread, and the clean-up
  that happens for any pid.
\<close>

definition exit_registered :: "pid \<Rightarrow> bool \<Rightarrow> thread \<Rightarrow> 'k supervisor \<Rightarrow> 'k supervisor" where
  "exit_registered p rec t s0 =
    (let s1 = s0\<lparr>threads := AList.delete p (threads s0)\<rparr>;
         s2 = (if child_tid t \<noteq> 0 \<and> flags t AND CLONE_CHILD_CLEARTID \<noteq> 0
               then snd (wake (child_tid t) 1 s1) else s1);
         s3 = (if rec then trace_json_st ''thread_exit'' (JObj [(''tid'', json_u64 (vtid t))]) s2
               else s2)
     in s3\<lparr>pending := (pending s3)(p := None)\<rparr>)"

definition forget_pid :: "pid \<Rightarrow> 'k supervisor \<Rightarrow> 'k supervisor" where
  "forget_pid p s =
    s\<lparr>runnable := filter (\<lambda>x. x \<noteq> p) (runnable s),
      blocked := blocked s - {p},
      waiting := drop_waiter p (waiting s),
      sig_pending := (sig_pending s)(p := None),
      pending_start := pending_start s - {p},
      stopped_pending := stopped_pending s - {p}\<rparr>"

definition on_thread_exit :: "pid \<Rightarrow> bool \<Rightarrow> ('k, unit) sv" where
  "on_thread_exit p rec = modify (\<lambda>s.
    forget_pid p (case map_of (threads s) p of
      None \<Rightarrow> s | Some t \<Rightarrow> exit_registered p rec t s))"

section \<open>Scheduling\<close>

text \<open>The popping loop of \<open>schedule_next\<close>: skip pids that are gone or blocked.\<close>

fun pick_next ::
  "(pid \<times> thread) list \<Rightarrow> pid set \<Rightarrow> pid list \<Rightarrow> (pid \<times> thread \<times> pid list) option" where
  "pick_next ths b [] = None"
| "pick_next ths b (tid # r) =
    (case map_of ths tid of
      None \<Rightarrow> pick_next ths b r
    | Some t \<Rightarrow> if tid \<in> b then pick_next ths b r else Some (tid, t, r))"

definition take_signal :: "pid \<Rightarrow> ('k, signal option) sv" where
  "take_signal p = (\<lambda>s. (Ok (sig_pending s p), s\<lparr>sig_pending := (sig_pending s)(p := None)\<rparr>))"

definition resume_thread :: "'k kernel \<Rightarrow> pid \<Rightarrow> ('k, unit) sv" where
  "resume_thread K p = bind (take_signal p) (\<lambda>sig. kcall (k_resume K p sig) Ptrace)"

definition schedule_event :: "thread \<Rightarrow> 'k supervisor \<Rightarrow> 'k supervisor" where
  "schedule_event t s =
    (if last_vtid s \<noteq> Some (vtid t)
     then trace_json_st ''schedule''
       (JObj [(''from'', json_opt (last_vtid s)), (''to'', json_u64 (vtid t))]) s
     else s)"

definition schedule_next :: "'k kernel \<Rightarrow> ('k, unit) sv" where
  "schedule_next K = (\<lambda>s.
    case pick_next (threads s) (blocked s) (runnable s) of
      None \<Rightarrow>
        (if pending_start s \<noteq> {} \<or> any_concurrent s then (Ok (), s\<lparr>runnable := []\<rparr>)
         else (Err Deadlock, s\<lparr>runnable := []\<rparr>))
    | Some (tid, t, r) \<Rightarrow>
        resume_thread K tid
          ((schedule_event t (s\<lparr>runnable := r\<rparr>))\<lparr>last_vtid := Some (vtid t), current := Some tid\<rparr>))"

definition yield_current :: "'k kernel \<Rightarrow> pid \<Rightarrow> ('k, unit) sv" where
  "yield_current K p =
    andthen (modify (\<lambda>s. if current s = Some p
        then s\<lparr>current := None, runnable := runnable s @ [p]\<rparr> else s))
      (schedule_next K)"

definition resume_current :: "'k kernel \<Rightarrow> pid \<Rightarrow> ('k, unit) sv" where
  "resume_current K p =
    bind (gets current) (\<lambda>c. if c = Some p then resume_thread K p else ret ())"

text \<open>Release a task whose attach stop was seen: queue it, or let it run on its own.\<close>

definition release_task :: "'k kernel \<Rightarrow> pid \<Rightarrow> ('k, unit) sv" where
  "release_task K p =
    bind (gets (is_scheduled p)) (\<lambda>b.
      if b then modify (\<lambda>s. s\<lparr>runnable := runnable s @ [p]\<rparr>) else resume_thread K p)"

definition register_thread :: "'k kernel \<Rightarrow> pid \<Rightarrow> clone_info \<Rightarrow> ('k, unit) sv" where
  "register_thread K p info =
    bind (gets (\<lambda>s. p \<in> hm_keys (threads s))) (\<lambda>known.
      if known then ret ()
      else bind (gets vtid_next) (\<lambda>v.
        let sched = (ci_flags info AND CLONE_THREAD \<noteq> 0) in
        andthen (modify (\<lambda>s. s\<lparr>vtid_next := vtid_next s + 1,
            threads := AList.update p \<lparr>vtid = v, child_tid = ci_child_tid info,
              flags = ci_flags info, scheduled = sched\<rparr> (threads s)\<rparr>))
        (andthen (bind (gets (\<lambda>s. p \<in> stopped_pending s)) (\<lambda>arrived.
            if arrived then
              andthen (modify (\<lambda>s. s\<lparr>stopped_pending := stopped_pending s - {p}\<rparr>))
                (if sched then modify (\<lambda>s. s\<lparr>runnable := runnable s @ [p]\<rparr>)
                 else resume_thread K p)
            else modify (\<lambda>s. s\<lparr>pending_start := insert p (pending_start s)\<rparr>)))
          (trace_json ''thread_create''
            (JObj [(''tid'', json_u64 v), (''scheduled'', JBool sched)])))))"

end
