(* ===== verification/Syscalls.thy ===== *)
theory Syscalls
  imports Supervisor
begin

text \<open>
  What the supervisor does at syscall stops: replacing \<open>getrandom\<close>, \<open>clock_gettime\<close>,
  \<open>gettimeofday\<close> and \<open>futex\<close>, recording \<open>clone\<close> arguments, and injecting the result at the exit stop
  (\<open>on_syscall_entry\<close>, \<open>on_syscall_exit\<close> and the \<open>intercept_*\<close> functions).
\<close>

section \<open>Tracee memory\<close>

definition write_proc_mem :: "'k kernel \<Rightarrow> pid \<Rightarrow> u64 \<Rightarrow> bytes \<Rightarrow> ('k, unit) sv" where
  "write_proc_mem K p addr dat =
    andthen (kcall (k_open_mem K p) Io)
      (andthen (kcall (k_write_at K p addr dat) Io) (ret ()))"

definition read_proc_mem :: "'k kernel \<Rightarrow> pid \<Rightarrow> u64 \<Rightarrow> nat \<Rightarrow> ('k, bytes) sv" where
  "read_proc_mem K p addr len =
    andthen (kcall (k_open_mem K p) Io) (kcall (k_read_exact_at K p addr len) Io)"

definition read_u32 :: "'k kernel \<Rightarrow> pid \<Rightarrow> u64 \<Rightarrow> ('k, u32) sv" where
  "read_u32 K p addr = bind (read_proc_mem K p addr 4) (\<lambda>buf. ret (le_u32 buf))"

section \<open>Skipping a syscall\<close>

definition skip_syscall :: "'k kernel \<Rightarrow> pid \<Rightarrow> int \<Rightarrow> int \<Rightarrow> ('k, unit) sv" where
  "skip_syscall K p nr retval =
    bind (kcall (k_getregs K p) Ptrace) (\<lambda>r.
      andthen (kcall (k_setregs K p (r\<lparr>orig_rax := - 1\<rparr>)) Ptrace)
        (modify (\<lambda>s. s\<lparr>pending := (pending s)(p \<mapsto> \<lparr>inj_syscall = nr, inj_retval = retval\<rparr>)\<rparr>)))"

definition on_syscall_exit :: "'k kernel \<Rightarrow> pid \<Rightarrow> ('k, unit) sv" where
  "on_syscall_exit K p =
    bind (gets (\<lambda>s. pending s p)) (\<lambda>inj.
      case inj of
        None \<Rightarrow> ret ()
      | Some i \<Rightarrow>
          andthen (modify (\<lambda>s. s\<lparr>pending := (pending s)(p := None)\<rparr>))
          (bind (kcall (k_getregs K p) Ptrace) (\<lambda>r.
            andthen (kcall (k_setregs K p (r\<lparr>rax := word_of_int (inj_retval i)\<rparr>)) Ptrace)
              (trace_syscall (inj_syscall i) ''inject''))))"

section \<open>Randomness and time\<close>

definition GETRANDOM_MAX :: u64 where "GETRANDOM_MAX = push_bit 20 1"

text \<open>\<open>self.rng.fill(&mut out)\<close> on a fresh buffer of \<open>n\<close> bytes.\<close>

definition draw_bytes :: "nat \<Rightarrow> ('k, bytes) sv" where
  "draw_bytes n = (\<lambda>s. case fill (rng s) n of (out, g) \<Rightarrow> (Ok out, s\<lparr>rng := g\<rparr>))"

definition intercept_getrandom :: "'k kernel \<Rightarrow> pid \<Rightarrow> regs \<Rightarrow> ('k, unit) sv" where
  "intercept_getrandom K p r =
    (let buf = rdi r; buflen = min (rsi r) GETRANDOM_MAX in
     bind (draw_bytes (unat buflen)) (\<lambda>out.
     andthen (if 0 < buflen then write_proc_mem K p buf out else ret ())
     (andthen (skip_syscall K p SYS_getrandom (sint buflen))
       (trace_json ''getrandom''
         (JObj [(''nbytes'', json_u64 buflen), (''bytes'', JStr (hex_bytes out))])))))"

definition read_clock :: "int \<Rightarrow> ('k, u64 \<times> u64) sv" where
  "read_clock clk = (\<lambda>s. case virtual_clock clk (tick s) of (r, t) \<Rightarrow> (Ok r, s\<lparr>tick := t\<rparr>))"

definition intercept_clock_gettime :: "'k kernel \<Rightarrow> pid \<Rightarrow> regs \<Rightarrow> ('k, unit) sv" where
  "intercept_clock_gettime K p r =
    (let clk = as_i32 (rdi r); ts_ptr = rsi r in
     bind (read_clock clk) (\<lambda>(sec, nsec).
     andthen (write_proc_mem K p ts_ptr (to_le_bytes sec @ to_le_bytes nsec))
     (andthen (skip_syscall K p SYS_clock_gettime 0)
       (trace_json ''clock_gettime''
         (JObj [(''clock'', JNum clk), (''sec'', json_u64 sec), (''nsec'', json_u64 nsec)])))))"

definition intercept_gettimeofday :: "'k kernel \<Rightarrow> pid \<Rightarrow> regs \<Rightarrow> ('k, unit) sv" where
  "intercept_gettimeofday K p r =
    (let tv_ptr = rdi r in
     bind (read_clock CLOCK_REALTIME) (\<lambda>(sec, nsec).
     andthen (write_proc_mem K p tv_ptr (to_le_bytes sec @ to_le_bytes (nsec div 1000)))
     (andthen (skip_syscall K p SYS_gettimeofday 0)
       (trace_json ''gettimeofday''
         (JObj [(''sec'', json_u64 sec), (''usec'', json_u64 (nsec div 1000))])))))"

section \<open>Futexes\<close>

text \<open>\<open>(regs.rsi as i32) & FUTEX_CMD_MASK\<close>: never negative.\<close>

definition futex_cmd :: "regs \<Rightarrow> int" where
  "futex_cmd r = sint ((ucast (rsi r) :: u32) AND FUTEX_CMD_MASK)"

definition sv_wake :: "u64 \<Rightarrow> u64 \<Rightarrow> ('k, nat) sv" where
  "sv_wake addr val = (\<lambda>s. case wake addr val s of (n, s') \<Rightarrow> (Ok n, s'))"

definition intercept_futex :: "'k kernel \<Rightarrow> pid \<Rightarrow> regs \<Rightarrow> ('k, bool) sv" where
  "intercept_futex K p r =
    (let uaddr = rdi r; val = rdx r; cmd = futex_cmd r;
         pass = andthen (trace_futex p (futex_cmd_name cmd) ''pass'') (ret False) in
     bind (gets (\<lambda>s. \<not> is_scheduled p s \<or> scheduled_count s \<le> 1)) (\<lambda>alone.
     if alone then pass
     else if cmd = FUTEX_WAIT \<or> cmd = FUTEX_WAIT_BITSET then
       bind (attempt (read_u32 K p uaddr)) (\<lambda>w.
         if w = Some (ucast val) then
           andthen (skip_syscall K p SYS_futex 0)
           (andthen (modify (block p uaddr))
           (andthen (trace_futex p (futex_cmd_name cmd) ''wait'') (ret True)))
         else pass)
     else if cmd = FUTEX_WAKE \<or> cmd = FUTEX_WAKE_BITSET then
       bind (sv_wake uaddr val) (\<lambda>n.
         andthen (skip_syscall K p SYS_futex (int n))
         (andthen (trace_futex p (futex_cmd_name cmd) ''wake'') (ret False)))
     else if cmd = FUTEX_REQUEUE \<or> cmd = FUTEX_CMP_REQUEUE then
       bind (if cmd = FUTEX_CMP_REQUEUE
             then bind (attempt (read_u32 K p uaddr)) (\<lambda>w. ret (w \<noteq> Some (ucast (r9 r))))
             else ret False) (\<lambda>mismatch.
         if mismatch then pass
         else bind (sv_wake uaddr val) (\<lambda>n1. bind (sv_wake uaddr (r10 r)) (\<lambda>n2.
           andthen (skip_syscall K p SYS_futex (int (n1 + n2)))
           (andthen (trace_futex p (futex_cmd_name cmd) ''wake'') (ret False)))))
     else pass))"

section \<open>Clone arguments\<close>

definition stash_clone :: "'k kernel \<Rightarrow> pid \<Rightarrow> int \<Rightarrow> regs \<Rightarrow> ('k, unit) sv" where
  "stash_clone K p nr r =
    bind (if nr = SYS_clone3 then
            bind (attempt (read_proc_mem K p (rdi r) 24)) (\<lambda>m. ret (case m of
                Some buf \<Rightarrow> if length buf = 24
                  then (le_u64 (take 8 buf), le_u64 (take 8 (drop 16 buf))) else (0, 0)
              | None \<Rightarrow> (0, 0)))
          else ret (rdi r, r10 r)) (\<lambda>(fl, ct).
      modify (\<lambda>s. s\<lparr>clone_pending :=
        (clone_pending s)(p \<mapsto> \<lparr>ci_flags = fl, ci_child_tid = ct\<rparr>)\<rparr>))"

section \<open>The entry stop\<close>

text \<open>Returns whether the thread is parked.\<close>

definition on_syscall_entry :: "'k kernel \<Rightarrow> pid \<Rightarrow> ('k, bool) sv" where
  "on_syscall_entry K p =
    bind (kcall (k_getregs K p) Ptrace) (\<lambda>r.
      let nr = sint (orig_rax r) in
      if nr = SYS_getrandom then andthen (intercept_getrandom K p r) (ret False)
      else if nr = SYS_clock_gettime \<or> nr = SYS_CLOCK_GETTIME64 then
        andthen (intercept_clock_gettime K p r) (ret False)
      else if nr = SYS_gettimeofday then andthen (intercept_gettimeofday K p r) (ret False)
      else if nr = SYS_futex then intercept_futex K p r
      else if nr = SYS_exit_group then
        andthen (modify (\<lambda>s. s\<lparr>group_exiting := True\<rparr>))
        (andthen (trace_syscall nr ''pass'') (ret False))
      else if nr = SYS_clone \<or> nr = SYS_clone3 then
        andthen (stash_clone K p nr r) (andthen (trace_syscall nr ''pass'') (ret False))
      else andthen (trace_syscall nr ''pass'') (ret False))"

end
