(* ===== verification/Dispatch.thy ===== *)
theory Dispatch
  imports Syscalls
begin

text \<open>
  The event loop of the supervisor: \<open>dispatch\<close> handles one \<open>waitpid\<close> status, \<open>await_attach\<close> waits for
  the attach stop of a new task (and may itself dispatch other statuses), \<open>run\<close> and \<open>supervise\<close> drive
  it all. The loops carry fuel, spent one unit per \<open>waitpid\<close>; \<open>More\<close> is a loop that has not finished.
\<close>

definition sv_wait :: "'k kernel \<Rightarrow> ('k, wait_status) sv" where
  "sv_wait K = kcall (k_waitpid K) Wait"

section \<open>One status\<close>

definition dispatch_syscall :: "'k kernel \<Rightarrow> pid \<Rightarrow> ('k, int option) sv" where
  "dispatch_syscall K p =
    bind (kcall (k_syscall_info K p) Ptrace) (\<lambda>op.
    bind (gets (is_scheduled p)) (\<lambda>sched.
    if \<not> sched then
      andthen
        (if op = PTRACE_SYSCALL_INFO_ENTRY then bind (on_syscall_entry K p) (\<lambda>_. ret ())
         else if op = PTRACE_SYSCALL_INFO_EXIT then on_syscall_exit K p
         else ret ())
        (andthen (resume_thread K p) (ret None))
    else if op = PTRACE_SYSCALL_INFO_ENTRY then
      bind (on_syscall_entry K p) (\<lambda>parked.
        andthen (if parked then modify (\<lambda>s. s\<lparr>current := None\<rparr>) else resume_current K p)
          (ret None))
    else if op = PTRACE_SYSCALL_INFO_EXIT then
      andthen (on_syscall_exit K p) (andthen (yield_current K p) (ret None))
    else andthen (resume_current K p) (ret None)))"

definition resume_either :: "'k kernel \<Rightarrow> pid \<Rightarrow> ('k, unit) sv" where
  "resume_either K p =
    bind (gets (is_scheduled p)) (\<lambda>b. if b then resume_current K p else resume_thread K p)"

definition take_clone_info :: "pid \<Rightarrow> ('k, clone_info) sv" where
  "take_clone_info p = (\<lambda>s.
    (Ok (case clone_pending s p of Some i \<Rightarrow> i | None \<Rightarrow> \<lparr>ci_flags = 0, ci_child_tid = 0\<rparr>),
     s\<lparr>clone_pending := (clone_pending s)(p := None)\<rparr>))"

definition dispatch_event ::
  "'k kernel \<Rightarrow> (pid \<Rightarrow> ('k, int option) sv) \<Rightarrow> pid \<Rightarrow> int \<Rightarrow> ('k, int option) sv" where
  "dispatch_event K aw p event =
    (if event = PTRACE_EVENT_CLONE \<or> event = PTRACE_EVENT_FORK \<or> event = PTRACE_EVENT_VFORK then
       bind (kcall (k_getevent K p) Ptrace) (\<lambda>msg.
       let child = as_i32 msg in
       bind (take_clone_info p) (\<lambda>info.
       andthen (register_thread K child info)
       (bind (aw child) (\<lambda>r. case r of
           Some code \<Rightarrow> ret (Some code)
         | None \<Rightarrow> andthen (resume_either K p) (ret None)))))
     else if event = PTRACE_EVENT_EXIT then andthen (resume_thread K p) (ret None)
     else andthen (resume_either K p) (ret None))"

definition dispatch_stopped :: "'k kernel \<Rightarrow> pid \<Rightarrow> signal \<Rightarrow> ('k, unit) sv" where
  "dispatch_stopped K p sig =
    bind (gets id) (\<lambda>s.
    if sig = SIGSTOP then
      if current s = Some p then resume_thread K p
      else if p \<in> pending_start s then
        andthen (modify (\<lambda>s. s\<lparr>pending_start := pending_start s - {p}\<rparr>)) (release_task K p)
      else if p \<notin> hm_keys (threads s) then
        modify (\<lambda>s. s\<lparr>stopped_pending := insert p (stopped_pending s)\<rparr>)
      else ret ()
    else if current s = Some p then kcall (k_resume K p (Some sig)) Ptrace
    else if is_scheduled p s then
      modify (\<lambda>s. s\<lparr>sig_pending := (sig_pending s)(p \<mapsto> sig)\<rparr>)
    else if p \<in> hm_keys (threads s) then kcall (k_resume K p (Some sig)) Ptrace
    else ret ())"

definition dispatch_gone :: "'k kernel \<Rightarrow> pid \<Rightarrow> ('k, unit) sv" where
  "dispatch_gone K p =
    bind (gets (\<lambda>s. current s = Some p)) (\<lambda>was_current.
    andthen (on_thread_exit p was_current)
    (bind (gets group_exiting) (\<lambda>ge.
      if was_current \<and> \<not> ge then
        andthen (modify (\<lambda>s. s\<lparr>current := None\<rparr>)) (schedule_next K)
      else ret ())))"

definition dispatch ::
  "'k kernel \<Rightarrow> (pid \<Rightarrow> ('k, int option) sv) \<Rightarrow> wait_status \<Rightarrow> ('k, int option) sv" where
  "dispatch K aw st = (case st of
      PtraceSyscall p \<Rightarrow> dispatch_syscall K p
    | PtraceEvent p _ event \<Rightarrow> dispatch_event K aw p event
    | Stopped p sig \<Rightarrow> andthen (dispatch_stopped K p sig) (ret None)
    | Exited p code \<Rightarrow>
        bind (gets sv_pid) (\<lambda>i.
          if p = i then andthen (trace_lifecycle ''exit'' code) (ret (Some code))
          else andthen (dispatch_gone K p) (ret None))
    | Signaled p sig _ \<Rightarrow>
        bind (gets sv_pid) (\<lambda>i.
          if p = i then
            andthen (trace_lifecycle ''signal'' (signal_number sig))
              (ret (Some (128 + signal_number sig)))
          else andthen (dispatch_gone K p) (ret None))
    | Continued _ \<Rightarrow> ret None
    | StillAlive \<Rightarrow> ret None)"

section \<open>The loops\<close>

definition await_attach ::
  "(pid \<Rightarrow> ('k, int option) sv) \<Rightarrow> pid \<Rightarrow> ('k, int option) sv" where
  "await_attach lp child =
    bind (gets (\<lambda>s. child \<in> pending_start s)) (\<lambda>b. if b then lp child else ret None)"

primrec await_loop :: "'k kernel \<Rightarrow> nat \<Rightarrow> pid \<Rightarrow> ('k, int option) sv" where
  "await_loop K 0 = (\<lambda>child. out_of_fuel)"
| "await_loop K (Suc n) = (\<lambda>child.
    bind (sv_wait K) (\<lambda>st.
      if st = Stopped child SIGSTOP then
        andthen (modify (\<lambda>s. s\<lparr>pending_start := pending_start s - {child}\<rparr>))
        (andthen (release_task K child) (ret None))
      else bind (dispatch K (await_attach (await_loop K n)) st) (\<lambda>r. case r of
          Some code \<Rightarrow> ret (Some code)
        | None \<Rightarrow> await_loop K n child)))"

primrec run_loop :: "'k kernel \<Rightarrow> nat \<Rightarrow> ('k, int) sv" where
  "run_loop K 0 = out_of_fuel"
| "run_loop K (Suc n) =
    bind (sv_wait K) (\<lambda>st.
    bind (dispatch K (await_attach (await_loop K n)) st) (\<lambda>r. case r of
        Some code \<Rightarrow> ret code
      | None \<Rightarrow> bind (gets current) (\<lambda>c.
          if c = None then andthen (schedule_next K) (run_loop K n) else run_loop K n)))"

definition run :: "'k kernel \<Rightarrow> nat \<Rightarrow> ('k, int) sv" where
  "run K n = andthen (schedule_next K) (run_loop K n)"

definition supervise ::
  "'k kernel \<Rightarrow> nat \<Rightarrow> pid \<Rightarrow> u64 \<Rightarrow> string \<Rightarrow> string \<Rightarrow> 'k \<Rightarrow>
    (supervise_error, int) outcome \<times> 'k supervisor" where
  "supervise K n p seed root i k = run K n (supervisor_new p seed root i k)"

end
