(* ===== verification/Invariant.thy ===== *)
theory Invariant
  imports Dispatch
begin

text \<open>
  The representation invariant of the supervisor, kept by every operation whatever the kernel
  answers: the thread table is a map that always holds init, the run queue, the blocked set and the
  futex queues only mention scheduled threads of the table, every blocked thread sits in a futex
  queue (it can be woken), and the attach bookkeeping is consistent with the table.
\<close>

abbreviation sched_set :: "'k supervisor \<Rightarrow> pid set" where
  "sched_set s \<equiv> {p. is_scheduled p s}"

text \<open>The queues mention only pids of \<open>D\<close>; \<open>table_ok i\<close> is about the thread table.\<close>

definition queues_ok :: "pid set \<Rightarrow> 'k supervisor \<Rightarrow> bool" where
  "queues_ok D s \<longleftrightarrow> set (runnable s) \<subseteq> D \<and> blocked s \<subseteq> D
    \<and> (\<forall>p\<in>blocked s. \<exists>a q. waiting s a = Some q \<and> p \<in> set q)
    \<and> (\<forall>a q. waiting s a = Some q \<longrightarrow> q \<noteq> [] \<and> set q \<subseteq> D)"

definition table_ok :: "pid \<Rightarrow> 'k supervisor \<Rightarrow> bool" where
  "table_ok i s \<longleftrightarrow> sv_pid s = i \<and> is_scheduled i s \<and> distinct (map fst (threads s))
    \<and> pending_start s \<subseteq> hm_keys (threads s) \<and> stopped_pending s \<inter> hm_keys (threads s) = {}"

definition sv_ok :: "pid \<Rightarrow> 'k supervisor \<Rightarrow> bool" where
  "sv_ok i s \<longleftrightarrow> table_ok i s \<and> queues_ok (sched_set s) s"

section \<open>The futex queues\<close>

lemma queues_okD: "queues_ok D s \<Longrightarrow> waiting s a = Some q \<Longrightarrow> set q \<subseteq> D"
  by (simp add: queues_ok_def)

text \<open>What one \<open>wake\<close> takes off a queue.\<close>

lemma wake_loop_spec:
  assumes "wake_loop cap w q b r = (w', q', b', r')"
  obtains pre ws where "q = pre @ q'" "b' = b - set pre" "r' = r @ ws" "set ws = set pre \<inter> b"
    "distinct ws" "w' = w + length ws" "q' = [] \<or> cap \<le> w'" "w' \<le> max cap w"
proof -
  have "\<exists>pre ws. q = pre @ q' \<and> b' = b - set pre \<and> r' = r @ ws \<and> set ws = set pre \<inter> b
    \<and> distinct ws \<and> w' = w + length ws \<and> (q' = [] \<or> cap \<le> w') \<and> w' \<le> max cap w"
    using assms
  proof (induction cap w q b r rule: wake_loop.induct)
    case (1 cap w b r)
    then show ?case by simp
  next
    case (2 cap w t parked b r)
    show ?case
    proof (cases "w < cap")
      case False
      with 2(3) show ?thesis by auto
    next
      case True
      show ?thesis
      proof (cases "t \<in> b")
        case t: True
        have "wake_loop cap (Suc w) parked (b - {t}) (r @ [t]) = (w', q', b', r')"
          using True t 2(3) by simp
        from 2(1) [OF True t this] obtain pre ws where
          p: "parked = pre @ q'" "b' = b - {t} - set pre" "r' = (r @ [t]) @ ws" and
          ws: "set ws = set pre \<inter> (b - {t})" "distinct ws" and
          w: "w' = Suc w + length ws" "q' = [] \<or> cap \<le> w'" "w' \<le> max cap (Suc w)"
          by blast
        have "b' = b - set (t # pre)" using p(2) by auto
        moreover have "set (t # ws) = set (t # pre) \<inter> b" using ws(1) t by auto
        moreover have "distinct (t # ws)" using ws by simp
        moreover have "w' \<le> max cap w" using w(3) True by simp
        ultimately show ?thesis
          using p w by (intro exI [of _ "t # pre"] exI [of _ "t # ws"]) simp
      next
        case t: False
        have "wake_loop cap w parked b r = (w', q', b', r')"
          using True t 2(3) by simp
        from 2(2) [OF True t this] obtain pre ws where
          p: "parked = pre @ q'" "b' = b - set pre" "r' = r @ ws" "set ws = set pre \<inter> b"
          "distinct ws" "w' = w + length ws" "q' = [] \<or> cap \<le> w'" "w' \<le> max cap w"
          by blast
        have "b' = b - set (t # pre)" "set ws = set (t # pre) \<inter> b" using p(2,4) t by auto
        with p show ?thesis by (intro exI [of _ "t # pre"] exI [of _ ws]) simp
      qed
    qed
  qed
  with that show thesis by blast
qed

lemma wake_cases:
  assumes "wake a v s = (n, s')"
  obtains (nothing) "n = 0" "s' = s"
  | (wake) q q' pre ws where "waiting s a = Some q" "q = pre @ q'" "set ws = set pre \<inter> blocked s"
    "distinct ws" "n = length ws" "n \<le> wake_cap v" "q' = [] \<or> n = wake_cap v"
    "s' = s\<lparr>runnable := runnable s @ ws, blocked := blocked s - set pre,
      waiting := (waiting s)(a := if q' = [] then None else Some q')\<rparr>"
proof (cases "wake_cap v = 0 \<or> waiting s a = None")
  case True
  with assms have "n = 0" "s' = s" by (auto simp: wake_def Let_def split: option.splits)
  then show ?thesis by (rule nothing)
next
  case False
  then obtain q where q: "waiting s a = Some q" by auto
  obtain w' q' b' r' where l: "wake_loop (wake_cap v) 0 q (blocked s) (runnable s) = (w', q', b', r')"
    by (metis prod_cases4)
  from l obtain pre ws where "q = pre @ q'" "b' = blocked s - set pre" "r' = runnable s @ ws"
    "set ws = set pre \<inter> blocked s" "distinct ws" "w' = length ws" "q' = [] \<or> wake_cap v \<le> w'"
    "w' \<le> wake_cap v"
    by (rule wake_loop_spec) auto
  moreover have "n = w'" "s' = s\<lparr>runnable := r', blocked := b',
      waiting := (waiting s)(a := if q' = [] then None else Some q')\<rparr>"
    using assms False q l by (auto simp: wake_def Let_def)
  ultimately show ?thesis using wake [of q pre q' ws] q by auto
qed

lemma wake_queues_ok: "queues_ok D s \<Longrightarrow> queues_ok D (snd (wake a v s))"
proof -
  assume ok: "queues_ok D s"
  obtain n s' where w: "wake a v s = (n, s')" by (cases "wake a v s")
  then show ?thesis
  proof (cases rule: wake_cases)
    case nothing
    with ok w show ?thesis by simp
  next
    case (wake q q' pre ws)
    have wait: "\<exists>a' q. ((waiting s)(a := if q' = [] then None else Some q')) a' = Some q \<and> p \<in> set q"
      if "p \<in> blocked s - set pre" for p
    proof -
      from that ok obtain a' q2 where q2: "waiting s a' = Some q2" "p \<in> set q2"
        by (auto simp: queues_ok_def)
      show ?thesis
      proof (cases "a' = a")
        case True
        with q2 wake(1,2) that have "p \<in> set q'" by auto
        then show ?thesis by (intro exI [of _ a] exI [of _ q']) auto
      next
        case False
        with q2 show ?thesis by (intro exI [of _ a'] exI [of _ q2]) auto
      qed
    qed
    have "set q \<subseteq> D" using queues_okD [OF ok] wake(1) .
    then show ?thesis
      using ok wake wait unfolding w by (auto simp: queues_ok_def split: if_splits)
  qed
qed

lemma wake_table:
  "threads (snd (wake a v s)) = threads s" "sv_pid (snd (wake a v s)) = sv_pid s"
  "pending_start (snd (wake a v s)) = pending_start s"
  "stopped_pending (snd (wake a v s)) = stopped_pending s"
  by (auto simp: wake_def Let_def split: option.splits prod.splits)

lemma is_scheduled_cong: "threads s' = threads s \<Longrightarrow> is_scheduled p s' = is_scheduled p s"
  by (simp add: is_scheduled_def)

lemma drop_waiter_Some:
  "drop_waiter p w a = Some q \<longleftrightarrow> (\<exists>q0. w a = Some q0 \<and> q = filter (\<lambda>x. x \<noteq> p) q0 \<and> q \<noteq> [])"
  by (auto simp: drop_waiter_def Let_def split: option.splits)

lemma forget_pid_queues_ok:
  assumes "queues_ok D s"
  shows "queues_ok (D - {p}) (forget_pid p s)"
proof -
  have "\<exists>a q. drop_waiter p (waiting s) a = Some q \<and> t \<in> set q" if "t \<in> blocked s" "t \<noteq> p" for t
  proof -
    from that(1) assms obtain a q where "waiting s a = Some q" "t \<in> set q"
      by (auto simp: queues_ok_def)
    with that(2) have "drop_waiter p (waiting s) a = Some (filter (\<lambda>x. x \<noteq> p) q)"
        "t \<in> set (filter (\<lambda>x. x \<noteq> p) q)"
      by (auto simp: drop_waiter_Some filter_empty_conv)
    then show ?thesis by blast
  qed
  moreover have "set q0 \<subseteq> D" if "waiting s a = Some q0" for a q0
    using queues_okD [OF assms that] .
  ultimately show ?thesis
    using assms unfolding queues_ok_def forget_pid_def by (auto simp: drop_waiter_Some) blast
qed

section \<open>Operations that leave the table and the queues alone\<close>

text \<open>The invariant together with a fact \<open>Q\<close> about the thread table.\<close>

abbreviation okt :: "pid \<Rightarrow> ((pid \<times> thread) list \<Rightarrow> bool) \<Rightarrow> 'k supervisor \<Rightarrow> bool" where
  "okt i Q s \<equiv> sv_ok i s \<and> Q (threads s)"

definition same_core :: "'k supervisor \<Rightarrow> 'k supervisor \<Rightarrow> bool" where
  "same_core s s' \<longleftrightarrow> threads s' = threads s \<and> sv_pid s' = sv_pid s \<and> runnable s' = runnable s
    \<and> pending_start s' = pending_start s \<and> stopped_pending s' = stopped_pending s
    \<and> blocked s' = blocked s \<and> waiting s' = waiting s"

lemma sv_ok_cong: "same_core s s' \<Longrightarrow> sv_ok i s' = sv_ok i s"
  by (simp add: same_core_def sv_ok_def table_ok_def queues_ok_def is_scheduled_def)

lemma okt_cong: "same_core s s' \<Longrightarrow> okt i Q s' = okt i Q s"
  using sv_ok_cong by (auto simp: same_core_def)

named_theorems ok_intros \<open>operations that keep the invariant\<close>

lemma keeps_same_core: "(\<And>s. same_core s (snd (m s))) \<Longrightarrow> keeps (okt i Q) m"
  using okt_cong by (blast intro: keepsI)

lemma kcall_ok [ok_intros]: "keeps (okt i Q) (kcall f w)"
  by (rule keeps_same_core) (auto simp: kcall_def same_core_def split: prod.split sum.split)

lemma modify_same_core: "(\<And>s. same_core s (f s)) \<Longrightarrow> keeps (okt i Q) (modify f)"
  by (rule keeps_same_core) (simp add: modify_def)

lemma small_ok [ok_intros]:
  "keeps (okt i Q) (take_signal p)" "keeps (okt i Q) (draw_bytes n)"
  "keeps (okt i Q) (read_clock c)" "keeps (okt i Q) (take_clone_info p)"
  by (rule keeps_same_core; simp add: take_signal_def draw_bytes_def read_clock_def
      take_clone_info_def same_core_def split: prod.split)+

lemma trace_json_ok [ok_intros]: "keeps (okt i Q) (trace_json e d)"
  unfolding trace_json_def
  by (rule modify_same_core) (simp add: trace_json_st_def same_core_def Let_def)

lemma traces_ok [ok_intros]:
  "keeps (okt i Q) (trace_syscall nr k)" "keeps (okt i Q) (trace_futex p o' k)"
  "keeps (okt i Q) (trace_lifecycle e c)"
  unfolding trace_syscall_def trace_futex_def trace_lifecycle_def
  by (intro keeps_intros ok_intros)+

lemma resume_thread_ok [ok_intros]: "keeps (okt i Q) (resume_thread K p)"
  unfolding resume_thread_def by (intro keeps_intros ok_intros)

lemma resume_ok [ok_intros]:
  "keeps (okt i Q) (resume_current K p)" "keeps (okt i Q) (resume_either K p)"
  unfolding resume_current_def resume_either_def by (intro keeps_intros ok_intros)+

lemma mem_ok [ok_intros]:
  "keeps (okt i Q) (write_proc_mem K p a d)" "keeps (okt i Q) (read_proc_mem K p a n)"
  "keeps (okt i Q) (read_u32 K p a)"
  unfolding write_proc_mem_def read_proc_mem_def read_u32_def
  by (intro keeps_intros ok_intros)+

lemma regs_ok [ok_intros]:
  "keeps (okt i Q) (skip_syscall K p nr v)" "keeps (okt i Q) (on_syscall_exit K p)"
  "keeps (okt i Q) (stash_clone K p nr r)"
  unfolding skip_syscall_def on_syscall_exit_def stash_clone_def case_prod_beta'
  by (intro keeps_intros ok_intros modify_same_core; simp add: same_core_def)+

lemma intercepts_ok [ok_intros]:
  "keeps (okt i Q) (intercept_getrandom K p r)" "keeps (okt i Q) (intercept_clock_gettime K p r)"
  "keeps (okt i Q) (intercept_gettimeofday K p r)"
  unfolding intercept_getrandom_def intercept_clock_gettime_def intercept_gettimeofday_def
    Let_def case_prod_beta'
  by (intro keeps_intros ok_intros)+

section \<open>Operations on the queues\<close>

text \<open>A program that reads the state first: what it read is known while the rest runs.\<close>

lemma keeps_gets_bind:
  "(\<And>v. triple (\<lambda>s. I s \<and> f s = v) (g v) (\<lambda>_. I) I) \<Longrightarrow> keeps I (bind (gets f) g)"
  unfolding keeps_def by (rule triple_bind [where Q' = "\<lambda>v s. I s \<and> f s = v"])
    (auto intro: triple_gets)

lemma keeps_triple:
  "keeps J m \<Longrightarrow> (\<And>s. P s \<Longrightarrow> J s) \<Longrightarrow> (\<And>s. J s \<Longrightarrow> I s) \<Longrightarrow> triple P m (\<lambda>_. I) I"
  unfolding keeps_def by (rule triple_weaken)

lemma sv_wake_ok [ok_intros]: "keeps (okt i Q) (sv_wake a v)"
proof (rule keepsI)
  fix s :: "'a supervisor"
  assume ok: "okt i Q s"
  have s': "snd (sv_wake a v s) = snd (wake a v s)" by (simp add: sv_wake_def split: prod.split)
  show "okt i Q (snd (sv_wake a v s))"
    using ok unfolding s' sv_ok_def table_ok_def
    by (simp add: wake_table is_scheduled_cong [OF wake_table(1)] wake_queues_ok)
qed

text \<open>Only a scheduled thread is queued or blocked.\<close>

abbreviation in_sched :: "pid \<Rightarrow> (pid \<times> thread) list \<Rightarrow> bool" where
  "in_sched p ths \<equiv> (case map_of ths p of Some t \<Rightarrow> scheduled t | None \<Rightarrow> False)"

lemma block_ok: "keeps (okt i (\<lambda>ths. Q ths \<and> in_sched p ths)) (modify (block p a))"
proof (rule keeps_modify, elim conjE)
  fix s :: "'k supervisor"
  assume ok: "sv_ok i s" and Q: "Q (threads s)" and p: "in_sched p (threads s)"
  have D: "p \<in> sched_set s" using p by (simp add: is_scheduled_def)
  have [simp]: "threads (block p a s) = threads s" by (simp add: block_def)
  have "table_ok i (block p a s)"
    using ok by (simp add: sv_ok_def table_ok_def block_def is_scheduled_def)
  moreover have "queues_ok (sched_set s) (block p a s)"
  proof -
    have q: "queues_ok (sched_set s) s" using ok by (simp add: sv_ok_def)
    have w: "waiting (block p a s) = (waiting s)(a \<mapsto>
        (case waiting s a of None \<Rightarrow> [] | Some q \<Rightarrow> q) @ [p])"
      by (simp add: block_def)
    have "\<exists>a' q. waiting (block p a s) a' = Some q \<and> t \<in> set q"
      if "t \<in> insert p (blocked s)" for t
    proof (cases "t = p")
      case True
      then show ?thesis by (intro exI [of _ a]) (simp add: w)
    next
      case False
      with that q obtain a' q' where "waiting s a' = Some q'" "t \<in> set q'"
        by (auto simp: queues_ok_def)
      then show ?thesis by (intro exI [of _ a']) (auto simp: w)
    qed
    moreover have "set q' \<subseteq> sched_set s" if "waiting s a' = Some q'" for a' q'
      using queues_okD [OF q that] .
    moreover have "blocked (block p a s) = insert p (blocked s)"
        "runnable (block p a s) = runnable s"
      by (simp_all add: block_def)
    moreover have "set ((case waiting s a of None \<Rightarrow> [] | Some q \<Rightarrow> q) @ [p]) \<subseteq> sched_set s"
    proof (cases "waiting s a")
      case (Some q')
      with queues_okD [OF q Some] D show ?thesis by simp
    qed (use D in simp)
    ultimately show ?thesis
      using q D unfolding queues_ok_def w by (simp add: fun_upd_def)
  qed
  ultimately show "okt i (\<lambda>ths. Q ths \<and> in_sched p ths) (block p a s)"
    using Q p by (simp add: sv_ok_def is_scheduled_def)
qed

lemma intercept_futex_ok [ok_intros]: "keeps (okt i Q) (intercept_futex K p r)"
proof -
  have pass: "keeps (okt i Q') (andthen (trace_futex p n k) (ret False))" for Q' n k
    by (intro keeps_intros ok_intros)
  show ?thesis
    unfolding intercept_futex_def Let_def
  proof (rule keeps_gets_bind, rule triple_if)
    show "triple (\<lambda>s. okt i Q s \<and> (\<not> is_scheduled p s \<or> scheduled_count s \<le> 1) = alone)
        (andthen (trace_futex p (futex_cmd_name (futex_cmd r)) ''pass'') (ret False))
        (\<lambda>_. okt i Q) (okt i Q)" for alone
      by (rule keeps_triple [OF pass]) auto
  next
    fix alone assume alone: "\<not> alone"
    show "triple (\<lambda>s. okt i Q s \<and> (\<not> is_scheduled p s \<or> scheduled_count s \<le> 1) = alone)
      (if futex_cmd r = FUTEX_WAIT \<or> futex_cmd r = FUTEX_WAIT_BITSET then
       bind (attempt (read_u32 K p (rdi r))) (\<lambda>w.
         if w = Some (ucast (rdx r)) then
           andthen (skip_syscall K p SYS_futex 0)
           (andthen (modify (block p (rdi r)))
           (andthen (trace_futex p (futex_cmd_name (futex_cmd r)) ''wait'') (ret True)))
         else andthen (trace_futex p (futex_cmd_name (futex_cmd r)) ''pass'') (ret False))
     else if futex_cmd r = FUTEX_WAKE \<or> futex_cmd r = FUTEX_WAKE_BITSET then
       bind (sv_wake (rdi r) (rdx r)) (\<lambda>n.
         andthen (skip_syscall K p SYS_futex (int n))
         (andthen (trace_futex p (futex_cmd_name (futex_cmd r)) ''wake'') (ret False)))
     else if futex_cmd r = FUTEX_REQUEUE \<or> futex_cmd r = FUTEX_CMP_REQUEUE then
       bind (if futex_cmd r = FUTEX_CMP_REQUEUE
             then bind (attempt (read_u32 K p (rdi r))) (\<lambda>w. ret (w \<noteq> Some (ucast (r9 r))))
             else ret False) (\<lambda>mismatch.
         if mismatch
         then andthen (trace_futex p (futex_cmd_name (futex_cmd r)) ''pass'') (ret False)
         else bind (sv_wake (rdi r) (rdx r)) (\<lambda>n1. bind (sv_wake (rdi r) (r10 r)) (\<lambda>n2.
           andthen (skip_syscall K p SYS_futex (int (n1 + n2)))
           (andthen (trace_futex p (futex_cmd_name (futex_cmd r)) ''wake'') (ret False)))))
     else andthen (trace_futex p (futex_cmd_name (futex_cmd r)) ''pass'') (ret False))
     (\<lambda>_. okt i Q) (okt i Q)"
      by (rule keeps_triple [where J = "okt i (\<lambda>ths. Q ths \<and> in_sched p ths)"],
          intro keeps_intros ok_intros block_ok)
        (use alone in \<open>auto simp: is_scheduled_def\<close>)
  qed
qed

lemma on_syscall_entry_ok [ok_intros]: "keeps (okt i Q) (on_syscall_entry K p)"
  unfolding on_syscall_entry_def Let_def
  by (intro keeps_intros ok_intros modify_same_core) (simp add: same_core_def)

section \<open>Scheduling\<close>

text \<open>A thread of the table that is scheduled may join the run queue.\<close>

lemma enqueue_ok:
  assumes "\<And>s. runnable (f s) = runnable s @ [p]"
    and "\<And>s. f s = s\<lparr>runnable := runnable (f s), current := current (f s)\<rparr>"
  shows "keeps (okt i (\<lambda>ths. Q ths \<and> in_sched p ths)) (modify f)"
proof (rule keeps_modify)
  fix s :: "'a supervisor"
  assume s: "okt i (\<lambda>ths. Q ths \<and> in_sched p ths) s"
  obtain c where f: "f s = s\<lparr>runnable := runnable s @ [p], current := c\<rparr>"
    using assms by metis
  show "okt i (\<lambda>ths. Q ths \<and> in_sched p ths) (f s)"
    using s unfolding f by (simp add: sv_ok_def table_ok_def queues_ok_def is_scheduled_def)
qed

lemma pick_next_Some:
  "pick_next ths b r = Some (tid, t, r') \<Longrightarrow>
    map_of ths tid = Some t \<and> tid \<notin> b \<and> (\<exists>skip. r = skip @ tid # r' \<and>
      (\<forall>x\<in>set skip. x \<in> b \<or> x \<notin> hm_keys ths))"
proof (induction r)
  case (Cons x r)
  show ?case
  proof (cases "map_of ths x = None \<or> x \<in> b")
    case True
    with Cons.prems have "pick_next ths b r = Some (tid, t, r')" by (auto split: option.splits)
    from Cons.IH [OF this] obtain skip where "map_of ths tid = Some t" "tid \<notin> b"
      "r = skip @ tid # r'" "\<forall>x\<in>set skip. x \<in> b \<or> x \<notin> hm_keys ths" by blast
    with True show ?thesis
      by (intro conjI exI [of _ "x # skip"]) (auto simp: map_of_None_keys)
  next
    case False
    with Cons.prems show ?thesis by (auto split: option.splits)
  qed
qed simp

lemma schedule_next_ok [ok_intros]: "keeps (okt i Q) (schedule_next K)"
proof (rule keepsI)
  fix s :: "'a supervisor"
  assume ok: "okt i Q s"
  have shrink: "okt i Q (s\<lparr>runnable := r\<rparr>)" if "set r \<subseteq> set (runnable s)" for r
    using ok that by (auto simp: sv_ok_def table_ok_def queues_ok_def is_scheduled_def)
  show "okt i Q (snd (schedule_next K s))"
  proof (cases "pick_next (threads s) (blocked s) (runnable s)")
    case None
    then show ?thesis using shrink [of "[]"] by (simp add: schedule_next_def)
  next
    case (Some x)
    obtain tid t r where x: "x = (tid, t, r)" by (cases x)
    have "set r \<subseteq> set (runnable s)" using pick_next_Some Some x by fastforce
    from shrink [OF this] have "okt i Q ((schedule_event t (s\<lparr>runnable := r\<rparr>))
        \<lparr>last_vtid := Some (vtid t), current := Some tid\<rparr>)"
      by (rule iffD2 [OF okt_cong, rotated])
        (simp add: same_core_def schedule_event_def trace_json_st_def Let_def)
    from keepsD [where I = "okt i Q", OF resume_thread_ok this] show ?thesis
      by (simp add: schedule_next_def Some x)
  qed
qed

lemma yield_current_ok: "keeps (okt i (\<lambda>ths. Q ths \<and> in_sched p ths)) (yield_current K p)"
  unfolding yield_current_def
proof (intro keeps_andthen schedule_next_ok keeps_modify)
  fix s :: "'b supervisor"
  let ?I = "okt i (\<lambda>ths. Q ths \<and> in_sched p ths)"
  assume "?I s"
  then show "?I (if current s = Some p
      then s\<lparr>current := None, runnable := runnable s @ [p]\<rparr> else s)"
    by (simp add: sv_ok_def table_ok_def queues_ok_def is_scheduled_def)
qed

text \<open>Splitting on whether the thread is scheduled.\<close>

lemma keeps_if_scheduled:
  assumes "keeps (okt i (\<lambda>ths. Q ths \<and> in_sched p ths)) m" and "keeps (okt i Q) n"
  shows "keeps (okt i Q) (bind (gets (is_scheduled p)) (\<lambda>b. if b then m else n))"
proof (rule keeps_gets_bind, rule triple_if)
  show "b \<Longrightarrow> triple (\<lambda>s. okt i Q s \<and> is_scheduled p s = b) m (\<lambda>_. okt i Q) (okt i Q)" for b
    by (rule keeps_triple [OF assms(1)]) (auto simp: is_scheduled_def)
  show "triple (\<lambda>s. okt i Q s \<and> is_scheduled p s = b) n (\<lambda>_. okt i Q) (okt i Q)" for b
    by (rule keeps_triple [OF assms(2)]) auto
qed

lemma release_task_ok [ok_intros]: "keeps (okt i Q) (release_task K p)"
  unfolding release_task_def
  by (intro keeps_if_scheduled enqueue_ok resume_thread_ok) simp_all

section \<open>Threads that come and go\<close>

abbreviation oks :: "pid \<Rightarrow> 'k supervisor \<Rightarrow> bool" where
  "oks i \<equiv> okt i (\<lambda>_. True)"

text \<open>A new thread in the table, which may still be marked as an arrived stranger.\<close>

definition half_registered :: "pid \<Rightarrow> pid \<Rightarrow> bool \<Rightarrow> 'k supervisor \<Rightarrow> bool" where
  "half_registered i p sched s \<longleftrightarrow> p \<in> hm_keys (threads s)
    \<and> (sched \<longrightarrow> in_sched p (threads s))
    \<and> sv_ok i (s\<lparr>stopped_pending := stopped_pending s - {p}\<rparr>)"

lemma register_modify:
  assumes "oks i s" and "p \<notin> hm_keys (threads s)"
  shows "half_registered i p sched (s\<lparr>vtid_next := v', threads := AList.update p
      \<lparr>vtid = v, child_tid = ct, flags = fl, scheduled = sched\<rparr> (threads s)\<rparr>)"
proof -
  let ?t = "\<lparr>vtid = v, child_tid = ct, flags = fl, scheduled = sched\<rparr>"
  let ?s = "s\<lparr>vtid_next := v', threads := AList.update p ?t (threads s)\<rparr>"
  have mono: "is_scheduled q s \<Longrightarrow> is_scheduled q ?s" for q
    using assms(2) by (auto simp: is_scheduled_def map_of_Some_keys split: option.splits)
  have "distinct (map fst (AList.update p ?t (threads s)))"
    using assms by (simp add: sv_ok_def table_ok_def distinct_update)
  moreover have "is_scheduled i ?s" using assms(1) mono by (simp add: sv_ok_def table_ok_def)
  moreover have "queues_ok (sched_set ?s) ?s"
    using assms(1) mono unfolding sv_ok_def queues_ok_def by simp blast
  ultimately show ?thesis
    using assms by (auto simp: half_registered_def sv_ok_def table_ok_def queues_ok_def is_scheduled_def)
qed

lemma half_registered_arrived:
  "half_registered i p sched s \<Longrightarrow>
    okt i (\<lambda>ths. sched \<longrightarrow> in_sched p ths) (s\<lparr>stopped_pending := stopped_pending s - {p}\<rparr>)"
  by (simp add: half_registered_def)

lemma half_registered_pending:
  assumes "half_registered i p sched s" and "p \<notin> stopped_pending s"
  shows "oks i (s\<lparr>pending_start := insert p (pending_start s)\<rparr>)"
proof -
  have "s\<lparr>stopped_pending := stopped_pending s - {p}\<rparr> = s" using assms(2) by simp
  with assms(1) show ?thesis
    by (auto simp: half_registered_def sv_ok_def table_ok_def queues_ok_def is_scheduled_def)
qed

lemma register_thread_ok: "keeps (oks i) (register_thread K p info)"
  unfolding register_thread_def
proof (rule keeps_gets_bind, rule triple_if)
  show "triple (\<lambda>s. oks i s \<and> (p \<in> hm_keys (threads s)) = known) (ret ()) (\<lambda>_. oks i) (oks i)"
    for known by (rule triple_ret) simp
next
  fix known assume known: "\<not> known"
  let ?sched = "ci_flags info AND CLONE_THREAD \<noteq> 0"
  have arrived: "keeps (okt i (\<lambda>ths. ?sched \<longrightarrow> in_sched p ths))
      (if ?sched then modify (\<lambda>s. s\<lparr>runnable := runnable s @ [p]\<rparr>) else resume_thread K p)"
  proof (rule keeps_if)
    assume s: ?sched
    have "keeps (okt i (\<lambda>ths. True \<and> in_sched p ths)) (modify (\<lambda>s. s\<lparr>runnable := runnable s @ [p]\<rparr>))"
      by (rule enqueue_ok) simp_all
    with s show "keeps (okt i (\<lambda>ths. ?sched \<longrightarrow> in_sched p ths))
        (modify (\<lambda>s. s\<lparr>runnable := runnable s @ [p]\<rparr>))" by simp
  qed (rule resume_thread_ok)
  show "triple (\<lambda>s. oks i s \<and> (p \<in> hm_keys (threads s)) = known)
      (bind (gets vtid_next) (\<lambda>v. let sched = ?sched in
        andthen (modify (\<lambda>s. s\<lparr>vtid_next := vtid_next s + 1,
            threads := AList.update p \<lparr>vtid = v, child_tid = ci_child_tid info,
              flags = ci_flags info, scheduled = sched\<rparr> (threads s)\<rparr>))
        (andthen (bind (gets (\<lambda>s. p \<in> stopped_pending s)) (\<lambda>arrived.
            if arrived then
              andthen (modify (\<lambda>s. s\<lparr>stopped_pending := stopped_pending s - {p}\<rparr>))
                (if sched then modify (\<lambda>s. s\<lparr>runnable := runnable s @ [p]\<rparr>)
                 else resume_thread K p)
            else modify (\<lambda>s. s\<lparr>pending_start := insert p (pending_start s)\<rparr>)))
          (trace_json ''thread_create''
            (JObj [(''tid'', json_u64 v), (''scheduled'', JBool sched)])))))
      (\<lambda>_. oks i) (oks i)"
    unfolding Let_def
  proof (intro triple_bind triple_andthen)
    show "triple (\<lambda>s. oks i s \<and> (p \<in> hm_keys (threads s)) = known) (gets vtid_next)
        (\<lambda>_ s. oks i s \<and> p \<notin> hm_keys (threads s)) (oks i)"
      using known by (intro triple_gets) simp
    show "triple (\<lambda>s. oks i s \<and> p \<notin> hm_keys (threads s))
        (modify (\<lambda>s. s\<lparr>vtid_next := vtid_next s + 1,
            threads := AList.update p \<lparr>vtid = v, child_tid = ci_child_tid info,
              flags = ci_flags info, scheduled = ?sched\<rparr> (threads s)\<rparr>))
        (\<lambda>_. half_registered i p ?sched) (oks i)" for v
      by (intro triple_modify register_modify) auto
    show "triple (half_registered i p ?sched) (gets (\<lambda>s. p \<in> stopped_pending s))
        (\<lambda>a s. half_registered i p ?sched s \<and> (p \<in> stopped_pending s) = a) (oks i)"
      by (intro triple_gets) simp
    show "triple (\<lambda>s. half_registered i p ?sched s \<and> (p \<in> stopped_pending s) = a)
        (if a then andthen (modify (\<lambda>s. s\<lparr>stopped_pending := stopped_pending s - {p}\<rparr>))
                (if ?sched then modify (\<lambda>s. s\<lparr>runnable := runnable s @ [p]\<rparr>)
                 else resume_thread K p)
         else modify (\<lambda>s. s\<lparr>pending_start := insert p (pending_start s)\<rparr>))
        (\<lambda>_. oks i) (oks i)" for a
    proof (rule triple_if, rule triple_andthen)
      show "a \<Longrightarrow> triple (\<lambda>s. half_registered i p ?sched s \<and> (p \<in> stopped_pending s) = a)
          (modify (\<lambda>s. s\<lparr>stopped_pending := stopped_pending s - {p}\<rparr>))
          (\<lambda>_. okt i (\<lambda>ths. ?sched \<longrightarrow> in_sched p ths)) (oks i)"
        by (intro triple_modify half_registered_arrived) simp
      show "triple (okt i (\<lambda>ths. ?sched \<longrightarrow> in_sched p ths))
          (if ?sched then modify (\<lambda>s. s\<lparr>runnable := runnable s @ [p]\<rparr>) else resume_thread K p)
          (\<lambda>_. oks i) (oks i)"
        by (rule keeps_triple [OF arrived]) auto
      show "\<not> a \<Longrightarrow> triple (\<lambda>s. half_registered i p ?sched s \<and> (p \<in> stopped_pending s) = a)
          (modify (\<lambda>s. s\<lparr>pending_start := insert p (pending_start s)\<rparr>)) (\<lambda>_. oks i) (oks i)"
        by (intro triple_modify half_registered_pending) auto
    qed
  qed (rule trace_json_ok [unfolded keeps_def])
qed

lemma on_thread_exit_ok:
  assumes "p \<noteq> i"
  shows "keeps (oks i) (on_thread_exit p rec)"
  unfolding on_thread_exit_def
proof (rule keeps_modify)
  fix s :: "'k supervisor"
  assume s: "oks i s"
  have sch: "is_scheduled i s" "distinct (map fst (threads s))"
    using s by (simp_all add: sv_ok_def table_ok_def)
  show "oks i (forget_pid p (case map_of (threads s) p of
      None \<Rightarrow> s | Some t \<Rightarrow> exit_registered p rec t s))"
  proof (cases "map_of (threads s) p")
    case None
    then have "sched_set s - {p} = sched_set s" by (auto simp: is_scheduled_def)
    with s have "queues_ok (sched_set s) (forget_pid p s)"
      using forget_pid_queues_ok [of "sched_set s" s p] by (simp add: sv_ok_def)
    with s show ?thesis
      by (auto simp: None sv_ok_def table_ok_def is_scheduled_def forget_pid_def)
  next
    case (Some t)
    let ?s1 = "s\<lparr>threads := AList.delete p (threads s)\<rparr>"
    let ?e = "exit_registered p rec t s"
    have th: "threads ?e = AList.delete p (threads s)" "sv_pid ?e = sv_pid s"
      "pending_start ?e = pending_start s" "stopped_pending ?e = stopped_pending s"
      by (simp_all add: exit_registered_def Let_def wake_table trace_json_st_def)
    have "queues_ok (sched_set s) ?s1"
      using s by (simp add: sv_ok_def queues_ok_def)
    then have "queues_ok (sched_set s) ?e"
      using wake_queues_ok [of "sched_set s" ?s1 "child_tid t" 1]
      by (simp add: exit_registered_def Let_def trace_json_st_def queues_ok_def)
    from forget_pid_queues_ok [OF this]
    have "queues_ok (sched_set s - {p}) (forget_pid p ?e)" .
    moreover have "sched_set s - {p} = sched_set (forget_pid p ?e)"
      by (auto simp: is_scheduled_def forget_pid_def th split: if_splits)
    moreover have "is_scheduled i (forget_pid p ?e)"
      using sch(1) assms by (simp add: is_scheduled_def forget_pid_def th)
    moreover have "distinct (map fst (AList.delete p (threads s)))"
      using sch(2) by (rule distinct_keys_delete)
    ultimately show ?thesis
      using s by (auto simp: Some sv_ok_def table_ok_def forget_pid_def th)
  qed
qed

section \<open>The event loop\<close>

lemma dispatch_syscall_ok: "keeps (oks i) (dispatch_syscall K p)"
proof -
  have unsched: "keeps (okt i Q) (andthen
      (if op = PTRACE_SYSCALL_INFO_ENTRY then bind (on_syscall_entry K p) (\<lambda>_. ret ())
       else if op = PTRACE_SYSCALL_INFO_EXIT then on_syscall_exit K p
       else ret ())
      (andthen (resume_thread K p) (ret None)))" for op Q
    by (intro keeps_intros ok_intros)
  have sched: "keeps (okt i (\<lambda>ths. Q ths \<and> in_sched p ths))
     (if op = PTRACE_SYSCALL_INFO_ENTRY then
      bind (on_syscall_entry K p) (\<lambda>parked.
        andthen (if parked then modify (\<lambda>s. s\<lparr>current := None\<rparr>) else resume_current K p)
          (ret None))
    else if op = PTRACE_SYSCALL_INFO_EXIT then
      andthen (on_syscall_exit K p) (andthen (yield_current K p) (ret None))
    else andthen (resume_current K p) (ret None))" for op Q
    by (intro keeps_intros ok_intros yield_current_ok modify_same_core) (simp add: same_core_def)
  have swap: "(if \<not> b then m else n) = (if b then n else m)" for b and m n :: "('a, int option) sv"
    by simp
  show ?thesis
    unfolding dispatch_syscall_def swap
    by (intro keeps_bind kcall_ok keeps_if_scheduled sched unsched)
qed

lemma drop_pending_ok:
  "keeps (okt i Q) (modify (\<lambda>s. s\<lparr>pending_start := pending_start s - {p}\<rparr>))"
  by (rule keeps_modify) (auto simp: sv_ok_def table_ok_def queues_ok_def is_scheduled_def)

lemma dispatch_stopped_ok: "keeps (oks i) (dispatch_stopped K p sig)"
  unfolding dispatch_stopped_def
proof (rule keeps_gets_bind, unfold id_apply)
  fix v :: "'a supervisor"
  have stranger: "keeps (okt i (\<lambda>ths. p \<notin> hm_keys ths))
      (modify (\<lambda>s. s\<lparr>stopped_pending := insert p (stopped_pending s)\<rparr>))"
    by (rule keeps_modify) (auto simp: sv_ok_def table_ok_def queues_ok_def is_scheduled_def)
  have inert: "triple (\<lambda>s. oks i s \<and> s = v) m (\<lambda>_. oks i) (oks i)"
    if "keeps (oks i) m" for m :: "('a, unit) sv"
    by (rule keeps_triple [OF that]) auto
  show "triple (\<lambda>s. oks i s \<and> s = v)
      (if sig = SIGSTOP then
      if current v = Some p then resume_thread K p
      else if p \<in> pending_start v then
        andthen (modify (\<lambda>s. s\<lparr>pending_start := pending_start s - {p}\<rparr>)) (release_task K p)
      else if p \<notin> hm_keys (threads v) then
        modify (\<lambda>s. s\<lparr>stopped_pending := insert p (stopped_pending s)\<rparr>)
      else ret ()
    else if current v = Some p then kcall (k_resume K p (Some sig)) Ptrace
    else if is_scheduled p v then
      modify (\<lambda>s. s\<lparr>sig_pending := (sig_pending s)(p \<mapsto> sig)\<rparr>)
    else if p \<in> hm_keys (threads v) then kcall (k_resume K p (Some sig)) Ptrace
    else ret ()) (\<lambda>_. oks i) (oks i)"
  proof (intro triple_if)
    show "p \<notin> hm_keys (threads v) \<Longrightarrow> triple (\<lambda>s. oks i s \<and> s = v)
        (modify (\<lambda>s. s\<lparr>stopped_pending := insert p (stopped_pending s)\<rparr>)) (\<lambda>_. oks i) (oks i)"
      by (rule keeps_triple [OF stranger]) auto
  qed (rule inert, (intro keeps_intros ok_intros drop_pending_ok
    | rule modify_same_core, simp add: same_core_def)+)+
qed

lemma dispatch_gone_ok: "p \<noteq> i \<Longrightarrow> keeps (oks i) (dispatch_gone K p)"
  unfolding dispatch_gone_def
  by (intro keeps_intros on_thread_exit_ok schedule_next_ok modify_same_core)
    (simp_all add: same_core_def)

lemma dispatch_event_ok:
  "(\<And>c. keeps (oks i) (aw c)) \<Longrightarrow> keeps (oks i) (dispatch_event K aw p e)"
  unfolding dispatch_event_def Let_def by (intro keeps_intros ok_intros register_thread_ok)

lemma gone_or_init:
  fixes m :: "('k, int option) sv"
  assumes "keeps (oks i) m"
  shows "keeps (oks i) (bind (gets sv_pid) (\<lambda>j.
    if p = j then m else andthen (dispatch_gone K p) (ret None)))"
proof (rule keeps_gets_bind, rule triple_if)
  show "triple (\<lambda>s. oks i s \<and> sv_pid s = j) m (\<lambda>_. oks i) (oks i)" for j
    by (rule keeps_triple [OF assms]) auto
next
  fix j assume "p \<noteq> j"
  show "triple (\<lambda>s. oks i s \<and> sv_pid s = j) (andthen (dispatch_gone K p) (ret None) :: ('k, int option) sv)
      (\<lambda>_. oks i) (oks i)"
  proof (cases "j = i")
    case True
    with \<open>p \<noteq> j\<close> have gone: "keeps (oks i) (andthen (dispatch_gone K p) (ret None :: ('k, int option) sv))"
      by (intro keeps_intros dispatch_gone_ok) simp
    show ?thesis by (rule keeps_triple [where J = "oks i", OF gone]) auto
  qed (auto simp: triple_def sv_ok_def table_ok_def)
qed

lemma dispatch_ok:
  assumes "\<And>c. keeps (oks i) (aw c)"
  shows "keeps (oks i) (dispatch K aw st)"
  unfolding dispatch_def
  by (cases st; simp only: wait_status.case)
    (intro keeps_intros ok_intros dispatch_syscall_ok dispatch_event_ok assms dispatch_stopped_ok
      gone_or_init)+

lemma await_loop_ok: "keeps (oks i) (await_loop K n c)"
proof (induction n arbitrary: c)
  case (Suc n)
  show ?case
    unfolding await_loop.simps sv_wait_def await_attach_def
    by (intro keeps_intros ok_intros drop_pending_ok dispatch_ok Suc)
qed (simp add: keeps_intros)

lemma run_loop_ok: "keeps (oks i) (run_loop K n)"
proof (induction n)
  case (Suc n)
  show ?case
    unfolding run_loop.simps sv_wait_def await_attach_def
    by (intro keeps_intros ok_intros dispatch_ok await_loop_ok Suc)
qed (simp add: keeps_intros)

lemma supervisor_new_ok: "sv_ok p (supervisor_new p seed root i k)"
  by (auto simp: sv_ok_def table_ok_def queues_ok_def supervisor_new_def is_scheduled_def
      init_thread_def)

lemma run_ok: "keeps (oks i) (run K n)"
  unfolding run_def by (intro keeps_intros ok_intros run_loop_ok)

section \<open>Properties\<close>

text \<open>
  C4. The representation invariant holds at every point of every run, for any kernel: after any
  number of \<open>waitpid\<close>s (fuel \<open>n\<close>), and also when the run ends in an error. In particular init is
  always in the thread table, no dead thread is ever queued, blocked or waited for, and a blocked
  thread is always in some futex queue.
\<close>

theorem supervise_invariant: "sv_ok p (snd (supervise K n p seed root i k))"
proof -
  have "oks p (supervisor_new p seed root i k)" by (simp add: supervisor_new_ok)
  from keepsD [where I = "oks p", OF run_ok this] show ?thesis by (simp add: supervise_def)
qed

end
