(* ===== verification/SingleRunner.thy ===== *)
theory SingleRunner
  imports Invariant
begin

text \<open>
  The point of the supervisor: at most one scheduled thread runs at a time. Which tracees run is the
  kernel's business, so the statement is relative to a contract of ptrace: \<open>rn k\<close> are the tracees
  that were resumed and have not reported a stop since, \<open>dead k\<close> those that reported their death.
\<close>

section \<open>The contract of ptrace\<close>

text \<open>
  What a reported status says: an ordinary stop comes from a tracee that was running (only the attach
  stop \<open>SIGSTOP\<close> may come from a new one), a death may come from any tracee at any time, and the
  tracee no longer runs.
\<close>

definition status_ok ::
  "wait_status \<Rightarrow> pid set \<Rightarrow> pid set \<Rightarrow> pid set \<Rightarrow> bool" where
  "status_ok st rn rn' dead' \<longleftrightarrow> (case st of
      Exited p _ \<Rightarrow> p \<in> dead' \<and> p \<notin> rn'
    | Signaled p _ _ \<Rightarrow> p \<in> dead' \<and> p \<notin> rn'
    | Stopped p sig \<Rightarrow> p \<notin> rn' \<and> (sig \<noteq> SIGSTOP \<longrightarrow> p \<in> rn)
    | PtraceEvent p _ ev \<Rightarrow> p \<notin> rn' \<and> (if ev = PTRACE_EVENT_EXIT then p \<in> dead' else p \<in> rn)
    | PtraceSyscall p \<Rightarrow> p \<notin> rn' \<and> p \<in> rn
    | Continued _ \<Rightarrow> True
    | StillAlive \<Rightarrow> True)"

definition kernel_same :: "'k kernel \<Rightarrow> ('k \<Rightarrow> 'x) \<Rightarrow> 'k \<Rightarrow> bool" where
  "kernel_same K f k \<longleftrightarrow>
    (\<forall>p. f (snd (k_syscall_info K p k)) = f k) \<and> (\<forall>p. f (snd (k_getevent K p k)) = f k)
    \<and> (\<forall>p. f (snd (k_getregs K p k)) = f k) \<and> (\<forall>p r. f (snd (k_setregs K p r k)) = f k)
    \<and> (\<forall>p. f (snd (k_open_mem K p k)) = f k) \<and> (\<forall>p a d. f (snd (k_write_at K p a d k)) = f k)
    \<and> (\<forall>p a n. f (snd (k_read_exact_at K p a n k)) = f k)"

text \<open>
  The contract: only a resume makes a tracee run, and never a dead one (pids are not reused while the
  container runs); every other operation leaves the two sets alone.
\<close>

definition ptrace_contract ::
  "'k kernel \<Rightarrow> ('k \<Rightarrow> pid set) \<Rightarrow> ('k \<Rightarrow> pid set) \<Rightarrow> bool" where
  "ptrace_contract K rn dead \<longleftrightarrow> (\<forall>k.
    (\<forall>p sig. let k' = snd (k_resume K p sig k) in dead k' = dead k
        \<and> (rn k' = rn k \<or> p \<notin> dead k \<and> rn k' = insert p (rn k)))
    \<and> (let k' = snd (k_waitpid K k) in rn k' \<subseteq> rn k \<and> dead k \<subseteq> dead k'
        \<and> (case fst (k_waitpid K k) of Inl _ \<Rightarrow> True
           | Inr st \<Rightarrow> status_ok st (rn k) (rn k') (dead k')))
    \<and> kernel_same K rn k \<and> kernel_same K dead k)"

section \<open>Operations that resume nothing\<close>

definition same_view ::
  "('k \<Rightarrow> pid set) \<Rightarrow> ('k \<Rightarrow> pid set) \<Rightarrow> 'k supervisor \<Rightarrow> 'k supervisor \<Rightarrow> bool" where
  "same_view rn dead s s' \<longleftrightarrow> threads s' = threads s \<and> current s' = current s
    \<and> rn (kern s') = rn (kern s) \<and> dead (kern s') = dead (kern s)"

interpretation vw: evolution "same_view rn dead" "same_view rn dead" for rn dead
  by unfold_locales (auto simp: same_view_def)

abbreviation stays ::
  "('k \<Rightarrow> pid set) \<Rightarrow> ('k \<Rightarrow> pid set) \<Rightarrow> ('k, 'a) sv \<Rightarrow> bool" where
  "stays rn dead m \<equiv> moves (same_view rn dead) (same_view rn dead) m"

named_theorems stay_intros \<open>operations that resume nothing\<close>

lemma stays_iff: "stays rn dead m \<longleftrightarrow> (\<forall>s. same_view rn dead s (snd (m s)))"
  by (rule moves_all)

lemma kcall_stays:
  "(\<And>k. rn (snd (f k)) = rn k) \<Longrightarrow> (\<And>k. dead (snd (f k)) = dead k) \<Longrightarrow> stays rn dead (kcall f w)"
  unfolding stays_iff kcall_def same_view_def
  by (auto split: prod.split sum.split) (metis snd_conv)+

lemma contract_same:
  "ptrace_contract K rn dead \<Longrightarrow> kernel_same K rn k" "ptrace_contract K rn dead \<Longrightarrow> kernel_same K dead k"
  by (auto simp: ptrace_contract_def)

lemma kcalls_stay [stay_intros]:
  assumes "ptrace_contract K rn dead"
  shows "stays rn dead (kcall (k_syscall_info K p) w)" "stays rn dead (kcall (k_getevent K p) w)"
    "stays rn dead (kcall (k_getregs K p) w)" "stays rn dead (kcall (k_setregs K p r) w)"
    "stays rn dead (kcall (k_open_mem K p) w)" "stays rn dead (kcall (k_write_at K p a d) w)"
    "stays rn dead (kcall (k_read_exact_at K p a n) w)"
  using contract_same [OF assms] by (intro kcall_stays; simp add: kernel_same_def)+

lemma modify_stays: "(\<And>s. same_view rn dead s (f s)) \<Longrightarrow> stays rn dead (modify f)"
  by (rule vw.moves_modify)

lemma small_stay [stay_intros]:
  "stays rn dead (draw_bytes n)" "stays rn dead (read_clock c)" "stays rn dead (take_clone_info p)"
  "stays rn dead (take_signal p)" "stays rn dead (sv_wake a v)" "stays rn dead (trace_json e d)"
  by (simp_all add: stays_iff same_view_def draw_bytes_def read_clock_def take_clone_info_def
      take_signal_def sv_wake_def wake_def trace_json_def trace_json_st_def modify_def Let_def
      split: prod.split option.split)

lemma traces_stay [stay_intros]:
  "stays rn dead (trace_syscall nr k)" "stays rn dead (trace_futex p o' k)"
  "stays rn dead (trace_lifecycle e c)"
  unfolding trace_syscall_def trace_futex_def trace_lifecycle_def
  by (intro vw.moves_intros stay_intros)+

lemma handlers_stay [stay_intros]:
  assumes "ptrace_contract K rn dead"
  shows "stays rn dead (skip_syscall K p nr v)" "stays rn dead (on_syscall_exit K p)"
    "stays rn dead (write_proc_mem K p a d)" "stays rn dead (read_proc_mem K p a n)"
    "stays rn dead (read_u32 K p a)"
  unfolding skip_syscall_def on_syscall_exit_def write_proc_mem_def read_proc_mem_def read_u32_def
  by (intro vw.moves_intros stay_intros assms modify_stays; simp add: same_view_def)+

lemma intercepts_stay [stay_intros]:
  assumes "ptrace_contract K rn dead"
  shows "stays rn dead (intercept_getrandom K p r)" "stays rn dead (intercept_clock_gettime K p r)"
    "stays rn dead (intercept_gettimeofday K p r)" "stays rn dead (intercept_futex K p r)"
    "stays rn dead (stash_clone K p nr r)"
  unfolding intercept_getrandom_def intercept_clock_gettime_def intercept_gettimeofday_def
    intercept_futex_def stash_clone_def Let_def case_prod_beta'
  by (intro vw.moves_intros stay_intros vw.moves_attempt assms modify_stays;
      simp add: same_view_def block_def)+

lemma on_syscall_entry_stays [stay_intros]:
  assumes "ptrace_contract K rn dead"
  shows "stays rn dead (on_syscall_entry K p)"
  unfolding on_syscall_entry_def Let_def
  by (intro vw.moves_intros stay_intros assms modify_stays) (simp add: same_view_def)

section \<open>The invariant\<close>

text \<open>
  A condition on what a handler sees: the thread table, the current thread, and the kernel's two
  sets, on top of the representation invariant.
\<close>

type_synonym view_pred = "(pid \<times> thread) list \<Rightarrow> pid option \<Rightarrow> pid set \<Rightarrow> pid set \<Rightarrow> bool"

definition vis ::
  "('k \<Rightarrow> pid set) \<Rightarrow> ('k \<Rightarrow> pid set) \<Rightarrow> view_pred \<Rightarrow> 'k supervisor \<Rightarrow> bool" where
  "vis rn dead Q s \<longleftrightarrow> Q (threads s) (current s) (rn (kern s)) (dead (kern s))"

lemma vis_mono: "vis rn dead Q s \<Longrightarrow> Q \<le> Q' \<Longrightarrow> vis rn dead Q' s"
  by (auto simp: vis_def le_fun_def)

lemma vis_triple:
  assumes "triple (vis rn dead Q0) m (\<lambda>_. vis rn dead Q1) (vis rn dead Q1)"
    and "Q \<le> Q0" and "Q1 \<le> Q'" and "Q1 \<le> R"
  shows "triple (vis rn dead Q) m (\<lambda>_. vis rn dead Q') (vis rn dead R)"
  by (rule triple_weaken [OF assms(1)]) (use assms(2-4) in \<open>auto intro: vis_mono\<close>)

lemma stays_vis:
  assumes "stays rn dead m" and "Q \<le> Q'" and "Q \<le> R"
  shows "triple (vis rn dead Q) m (\<lambda>_. vis rn dead Q') (vis rn dead R)"
proof (rule tripleI)
  fix s a s' assume "vis rn dead Q s" "m s = (Ok a, s')"
  then show "vis rn dead Q' s'"
    using assms(2) moves_Ok [OF assms(1)] by (force simp: vis_def same_view_def le_fun_def)
next
  fix s e s' assume "vis rn dead Q s" "m s = (Err e, s')"
  then show "vis rn dead R s'"
    using assms(3) moves_Err [OF assms(1)] by (force simp: vis_def same_view_def le_fun_def)
next
  fix s s' assume "vis rn dead Q s" "m s = (More, s')"
  then show "vis rn dead R s'"
    using assms(3) moves_More [OF assms(1)] by (force simp: vis_def same_view_def le_fun_def)
qed

text \<open>
  \<open>exclusive\<close>: only threads of the table run, and of the scheduled ones only the current one.
  \<open>known\<close>: the pids \<open>P\<close> are in the table or dead.
\<close>

definition exclusive :: view_pred where
  "exclusive ths cur rn dead \<longleftrightarrow>
    rn \<subseteq> hm_keys ths \<and> (\<forall>p\<in>rn. in_sched p ths \<longrightarrow> cur = Some p)"

definition known :: "pid set \<Rightarrow> view_pred" where
  "known P ths cur rn dead \<longleftrightarrow> P \<union> set_option cur \<subseteq> hm_keys ths \<union> dead"

definition idle :: view_pred where
  "idle ths cur rn dead \<longleftrightarrow> rn \<subseteq> hm_keys ths \<and> (\<forall>p\<in>rn. \<not> in_sched p ths)"

text \<open>A thread that may be resumed: dead, or in the table and not a scheduled thread out of turn.\<close>

definition resumable :: "pid \<Rightarrow> view_pred" where
  "resumable p ths cur rn dead \<longleftrightarrow>
    p \<in> dead \<or> p \<in> hm_keys ths \<and> (in_sched p ths \<longrightarrow> cur = Some p)"

text \<open>The conditions a handler passes through, for the pids \<open>P\<close> that must stay known.\<close>

definition calm :: "pid set \<Rightarrow> view_pred" where
  "calm P ths cur rn dead \<longleftrightarrow> exclusive ths cur rn dead \<and> known P ths cur rn dead"

definition quiet :: "pid set \<Rightarrow> view_pred" where
  "quiet P ths cur rn dead \<longleftrightarrow> idle ths cur rn dead \<and> known P ths cur rn dead"

definition ready :: "pid set \<Rightarrow> pid \<Rightarrow> view_pred" where
  "ready P p ths cur rn dead \<longleftrightarrow> calm P ths cur rn dead \<and> resumable p ths cur rn dead"

text \<open>The thread \<open>p\<close> has just reported a stop.\<close>

definition stopped :: "pid set \<Rightarrow> pid \<Rightarrow> view_pred" where
  "stopped P p ths cur rn dead \<longleftrightarrow> calm P ths cur rn dead \<and> p \<notin> rn \<and> p \<in> hm_keys ths
    \<and> (in_sched p ths \<longrightarrow> cur = Some p)"

definition stopped_sched :: "pid set \<Rightarrow> pid \<Rightarrow> view_pred" where
  "stopped_sched P p ths cur rn dead \<longleftrightarrow> stopped P p ths cur rn dead \<and> in_sched p ths"

named_theorems view_le \<open>which condition implies which\<close>

lemma quiet_calm [view_le]: "quiet P \<le> calm P"
  by (auto simp: le_fun_def quiet_def calm_def idle_def exclusive_def)

lemma ready_calm [view_le]: "ready P p \<le> calm P"
  by (auto simp: le_fun_def ready_def)

lemma stopped_ready [view_le]: "stopped P p \<le> ready P p"
  by (auto simp: le_fun_def stopped_def ready_def resumable_def)

lemma stopped_calm [view_le]: "stopped P p \<le> calm P"
  by (auto simp: le_fun_def stopped_def)

lemma stopped_sched_stopped [view_le]: "stopped_sched P p \<le> stopped P p"
  by (auto simp: le_fun_def stopped_sched_def)

lemma stopped_sched_quiet [view_le]: "stopped_sched P p \<le> quiet P"
  by (auto simp: le_fun_def stopped_sched_def stopped_def calm_def quiet_def idle_def exclusive_def)

lemma stopped_sched_calm [view_le]: "stopped_sched P p \<le> calm P"
  using stopped_sched_stopped stopped_calm by (rule order_trans)

lemma stopped_sched_ready [view_le]: "stopped_sched P p \<le> ready P p"
  using stopped_sched_stopped stopped_ready by (rule order_trans)

section \<open>Resuming and scheduling\<close>

lemma snd_kcall: "snd (kcall f w s) = s\<lparr>kern := snd (f (kern s))\<rparr>"
  by (simp add: kcall_def split: prod.split sum.split)

lemma sv_ok_kern [simp]: "sv_ok i (s\<lparr>kern := k\<rparr>) = sv_ok i s"
  by (rule sv_ok_cong) (simp add: same_core_def)

lemma triple_snd: "triple P m (\<lambda>_. I) I \<longleftrightarrow> (\<forall>s. P s \<longrightarrow> I (snd (m s)))"
proof -
  have "(case m s of (Ok a, s') \<Rightarrow> I s' | (Err e, s') \<Rightarrow> I s' | (More, s') \<Rightarrow> I s') = I (snd (m s))" for s
    by (cases "m s"; cases "fst (m s)") auto
  then show ?thesis by (simp add: triple_def)
qed

lemma contract_resume:
  assumes "ptrace_contract K rn dead" and "snd (k_resume K p sig k) = k'"
  shows "dead k' = dead k" and "rn k' = rn k \<or> p \<notin> dead k \<and> rn k' = insert p (rn k)"
proof -
  have "let k' = snd (k_resume K p sig k) in dead k' = dead k
      \<and> (rn k' = rn k \<or> p \<notin> dead k \<and> rn k' = insert p (rn k))"
    using assms(1) unfolding ptrace_contract_def by blast
  then show "dead k' = dead k" and "rn k' = rn k \<or> p \<notin> dead k \<and> rn k' = insert p (rn k)"
    using assms(2) by (simp_all add: Let_def)
qed

lemma contract_wait:
  assumes "ptrace_contract K rn dead" and "k_waitpid K k = (r, k')"
  shows "rn k' \<subseteq> rn k" "dead k \<subseteq> dead k'"
    "case r of Inl _ \<Rightarrow> True | Inr st \<Rightarrow> status_ok st (rn k) (rn k') (dead k')"
proof -
  have "let k' = snd (k_waitpid K k) in rn k' \<subseteq> rn k \<and> dead k \<subseteq> dead k'
      \<and> (case fst (k_waitpid K k) of Inl _ \<Rightarrow> True
         | Inr st \<Rightarrow> status_ok st (rn k) (rn k') (dead k'))"
    using assms(1) unfolding ptrace_contract_def by blast
  then show "rn k' \<subseteq> rn k" "dead k \<subseteq> dead k'"
    "case r of Inl _ \<Rightarrow> True | Inr st \<Rightarrow> status_ok st (rn k) (rn k') (dead k')"
    unfolding assms(2) by (simp_all add: Let_def)
qed

lemma kresume_vis:
  assumes C: "ptrace_contract K rn dead"
    and Q: "\<And>ths cur r d. Q ths cur r d \<Longrightarrow> Q' ths cur r d \<and> (p \<notin> d \<longrightarrow> Q' ths cur (insert p r) d)"
  shows "triple (vis rn dead Q) (kcall (k_resume K p sig) w) (\<lambda>_. vis rn dead Q') (vis rn dead Q')"
  unfolding triple_snd
proof (intro allI impI)
  fix s assume s: "vis rn dead Q s"
  obtain k' where k': "snd (k_resume K p sig (kern s)) = k'" by simp
  show "vis rn dead Q' (snd (kcall (k_resume K p sig) w s))"
    using contract_resume [OF C k'] s Q by (auto simp: snd_kcall k' vis_def)
qed

lemma resume_thread_vis:
  assumes "ptrace_contract K rn dead"
    and "\<And>ths cur r d. Q ths cur r d \<Longrightarrow> Q' ths cur r d \<and> (p \<notin> d \<longrightarrow> Q' ths cur (insert p r) d)"
  shows "triple (vis rn dead Q) (resume_thread K p) (\<lambda>_. vis rn dead Q') (vis rn dead Q')"
  unfolding resume_thread_def
proof (rule triple_bind)
  show "triple (vis rn dead Q) (take_signal p) (\<lambda>_. vis rn dead Q) (vis rn dead Q')"
    using assms(2) by (intro stays_vis small_stay) (auto simp: le_fun_def)
next
  show "triple (vis rn dead Q) (kcall (k_resume K p sig) Ptrace) (\<lambda>_. vis rn dead Q') (vis rn dead Q')" for sig
    by (rule kresume_vis [OF assms(1)]) (rule assms(2))
qed

lemma ready_resume: "ready P p ths cur r d \<Longrightarrow> calm P ths cur r d \<and> (p \<notin> d \<longrightarrow> calm P ths cur (insert p r) d)"
  by (auto simp: ready_def calm_def exclusive_def known_def resumable_def)

lemma resume_ready:
  assumes "ptrace_contract K rn dead"
  shows "triple (vis rn dead (ready P p)) (resume_thread K p)
    (\<lambda>_. vis rn dead (calm P)) (vis rn dead (calm P))"
  by (rule resume_thread_vis [OF assms]) (rule ready_resume)

lemma kresume_ready:
  assumes "ptrace_contract K rn dead"
  shows "triple (vis rn dead (ready P p)) (kcall (k_resume K p sig) w)
    (\<lambda>_. vis rn dead (calm P)) (vis rn dead (calm P))"
  by (rule kresume_vis [OF assms]) (rule ready_resume)

lemma triple_gets_know:
  assumes "\<And>v. triple (\<lambda>s. P s \<and> f s = v) (g v) Q R"
  shows "triple P (bind (gets f) g) Q R"
  by (rule triple_bind [where Q' = "\<lambda>v s. P s \<and> f s = v"]) (auto intro: triple_gets assms)

lemma resume_current_vis:
  assumes C: "ptrace_contract K rn dead" and Q: "Q \<le> calm P"
    and r: "\<And>ths r d. Q ths (Some p) r d \<Longrightarrow> ready P p ths (Some p) r d"
  shows "triple (vis rn dead Q) (resume_current K p) (\<lambda>_. vis rn dead (calm P)) (vis rn dead (calm P))"
  unfolding resume_current_def
proof (rule triple_gets_know, rule triple_if)
  fix c assume "c = Some p"
  with r show "triple (\<lambda>s. vis rn dead Q s \<and> current s = c) (resume_thread K p)
      (\<lambda>_. vis rn dead (calm P)) (vis rn dead (calm P))"
    by (intro triple_weaken [OF resume_ready [OF C, of P p]]) (auto simp: vis_def)
next
  show "triple (\<lambda>s. vis rn dead Q s \<and> current s = c) (ret ())
      (\<lambda>_. vis rn dead (calm P)) (vis rn dead (calm P))" for c
    using Q by (intro triple_ret) (auto intro: vis_mono)
qed

lemma schedule_next_vis:
  assumes C: "ptrace_contract K rn dead"
  shows "triple (vis rn dead (quiet P)) (schedule_next K)
    (\<lambda>_. vis rn dead (calm P)) (vis rn dead (calm P))"
  unfolding triple_snd
proof (intro allI impI)
  fix s assume s: "vis rn dead (quiet P) s"
  show "vis rn dead (calm P) (snd (schedule_next K s))"
  proof (cases "pick_next (threads s) (blocked s) (runnable s)")
    case None
    then show ?thesis
      using vis_mono [OF s quiet_calm] by (simp add: schedule_next_def vis_def)
  next
    case (Some x)
    obtain tid t r where x: "x = (tid, t, r)" by (cases x)
    have tid: "map_of (threads s) tid = Some t"
      using pick_next_Some Some x by fastforce
    let ?s = "(schedule_event t (s\<lparr>runnable := r\<rparr>))\<lparr>last_vtid := Some (vtid t), current := Some tid\<rparr>"
    have ev: "threads ?s = threads s" "current ?s = Some tid" "kern ?s = kern s"
      by (simp_all add: schedule_event_def trace_json_st_def Let_def)
    have "vis rn dead (ready P tid) ?s"
      using s map_of_Some_keys [OF tid]
      by (auto simp: vis_def ev quiet_def idle_def ready_def calm_def exclusive_def known_def
          resumable_def)
    with resume_ready [OF C, unfolded triple_snd] show ?thesis
      by (simp add: schedule_next_def Some x)
  qed
qed

section \<open>Handlers\<close>

text \<open>A program whose every exit is calm, from a condition \<open>Q\<close>.\<close>

abbreviation calms ::
  "('k \<Rightarrow> pid set) \<Rightarrow> ('k \<Rightarrow> pid set) \<Rightarrow> view_pred \<Rightarrow> ('k, 'a) sv \<Rightarrow> pid set \<Rightarrow> bool" where
  "calms rn dead Q m P \<equiv> triple (vis rn dead Q) m (\<lambda>_. vis rn dead (calm P)) (vis rn dead (calm P))"

lemma calms_pre: "calms rn dead Q m P \<Longrightarrow> Q' \<le> Q \<Longrightarrow> calms rn dead Q' m P"
  by (erule triple_weaken) (auto intro: vis_mono)

lemma calms_ret: "Q \<le> calm P \<Longrightarrow> calms rn dead Q (ret a) P"
  by (rule triple_ret) (rule vis_mono)

lemma calms_then:
  assumes "stays rn dead m" and "Q \<le> calm P" and "\<And>a. calms rn dead Q (f a) P"
  shows "calms rn dead Q (bind m f) P"
  by (rule triple_bind [OF stays_vis [OF assms(1) order_refl assms(2)] assms(3)])

lemma calms_andthen:
  "stays rn dead m \<Longrightarrow> Q \<le> calm P \<Longrightarrow> calms rn dead Q n P \<Longrightarrow> calms rn dead Q (andthen m n) P"
  unfolding andthen_def by (rule calms_then)

lemma calms_finish:
  "calms rn dead Q m P \<Longrightarrow> calms rn dead Q (andthen m (ret a)) P"
  by (rule triple_andthen, assumption) (rule calms_ret [OF order_refl])

lemma calms_if_scheduled:
  assumes "calms rn dead (\<lambda>ths cur r d. Q ths cur r d \<and> in_sched p ths) m P"
    and "calms rn dead (\<lambda>ths cur r d. Q ths cur r d \<and> \<not> in_sched p ths) n P"
  shows "calms rn dead Q (bind (gets (is_scheduled p)) (\<lambda>b. if b then m else n)) P"
proof (rule triple_gets_know, rule triple_if)
  show "b \<Longrightarrow> triple (\<lambda>s. vis rn dead Q s \<and> is_scheduled p s = b) m
      (\<lambda>_. vis rn dead (calm P)) (vis rn dead (calm P))" for b
    by (rule triple_weaken [OF assms(1)]) (auto simp: vis_def is_scheduled_def)
  show "\<not> b \<Longrightarrow> triple (\<lambda>s. vis rn dead Q s \<and> is_scheduled p s = b) n
      (\<lambda>_. vis rn dead (calm P)) (vis rn dead (calm P))" for b
    by (rule triple_weaken [OF assms(2)]) (auto simp: vis_def is_scheduled_def)
qed

lemma stopped_and_sched: "(\<lambda>ths cur r d. stopped P p ths cur r d \<and> in_sched p ths) = stopped_sched P p"
  by (simp add: fun_eq_iff stopped_sched_def)

lemma resume_stopped_sched:
  "ptrace_contract K rn dead \<Longrightarrow> calms rn dead (stopped_sched P p) (resume_current K p) P"
  by (rule resume_current_vis)
    (use stopped_sched_calm stopped_sched_ready in \<open>auto simp: le_fun_def\<close>)

lemma resume_either_calms:
  assumes "ptrace_contract K rn dead"
  shows "calms rn dead (\<lambda>ths cur r d. calm P ths cur r d \<and> (p \<in> hm_keys ths \<or> p \<in> d))
    (resume_either K p) P"
  unfolding resume_either_def
proof (rule calms_if_scheduled)
  show "calms rn dead (\<lambda>ths cur r d. (calm P ths cur r d \<and> (p \<in> hm_keys ths \<or> p \<in> d)) \<and>
      in_sched p ths) (resume_current K p) P"
    by (rule resume_current_vis [OF assms]) (auto simp: le_fun_def ready_def resumable_def)
next
  show "calms rn dead (\<lambda>ths cur r d. (calm P ths cur r d \<and> (p \<in> hm_keys ths \<or> p \<in> d)) \<and>
      \<not> in_sched p ths) (resume_thread K p) P"
    by (rule calms_pre [OF resume_ready [OF assms]]) (auto simp: le_fun_def ready_def resumable_def)
qed

lemma yield_current_calms:
  assumes "ptrace_contract K rn dead"
  shows "calms rn dead (stopped_sched P p) (yield_current K p) P"
  unfolding yield_current_def
proof (rule triple_andthen [OF triple_modify schedule_next_vis [OF assms]])
  fix s assume "vis rn dead (stopped_sched P p) s"
  from vis_mono [OF this stopped_sched_quiet]
  show "vis rn dead (quiet P) (if current s = Some p
      then s\<lparr>current := None, runnable := runnable s @ [p]\<rparr> else s)"
    by (auto simp: vis_def quiet_def known_def idle_def)
qed

lemma dispatch_syscall_calms:
  assumes C: "ptrace_contract K rn dead"
  shows "calms rn dead (stopped P p) (dispatch_syscall K p) P"
proof -
  have unsched: "calms rn dead (stopped P p) (andthen
      (if op = PTRACE_SYSCALL_INFO_ENTRY then bind (on_syscall_entry K p) (\<lambda>_. ret ())
       else if op = PTRACE_SYSCALL_INFO_EXIT then on_syscall_exit K p
       else ret ())
      (andthen (resume_thread K p) (ret None))) P" for op
    by (intro calms_andthen vw.moves_intros stay_intros C calms_finish stopped_calm
        calms_pre [OF resume_ready [OF C] stopped_ready])
  have park: "calms rn dead (stopped_sched P p)
      (if parked then modify (\<lambda>s. s\<lparr>current := None\<rparr>) else resume_current K p) P" for parked
  proof (rule triple_if)
    show "calms rn dead (stopped_sched P p) (modify (\<lambda>s. s\<lparr>current := None\<rparr>)) P"
      using vis_mono [OF _ stopped_sched_quiet]
      by (intro triple_modify) (force simp: vis_def quiet_def calm_def idle_def exclusive_def known_def)
  qed (rule resume_stopped_sched [OF C])
  have sched: "calms rn dead (stopped_sched P p)
     (if op = PTRACE_SYSCALL_INFO_ENTRY then
      bind (on_syscall_entry K p) (\<lambda>parked.
        andthen (if parked then modify (\<lambda>s. s\<lparr>current := None\<rparr>) else resume_current K p)
          (ret None))
    else if op = PTRACE_SYSCALL_INFO_EXIT then
      andthen (on_syscall_exit K p) (andthen (yield_current K p) (ret None))
    else andthen (resume_current K p) (ret None)) P" for op
    by (intro triple_if calms_then calms_andthen calms_finish park resume_stopped_sched
        yield_current_calms stay_intros C stopped_sched_calm)
  have swap: "(if \<not> b then m else n) = (if b then n else m)" for b and m n :: "('a, int option) sv"
    by simp
  show ?thesis
    unfolding dispatch_syscall_def swap
    by (rule calms_then [OF kcalls_stay(1) [OF C] stopped_calm], rule calms_if_scheduled,
        unfold stopped_and_sched, rule sched, rule calms_pre [OF unsched])
      (auto simp: le_fun_def)
qed

text \<open>Registering a thread: the new one is known and does not run.\<close>

definition enrolled :: "pid set \<Rightarrow> pid \<Rightarrow> bool \<Rightarrow> view_pred" where
  "enrolled P c sched ths cur rn dead \<longleftrightarrow>
    calm P ths cur rn dead \<and> c \<in> hm_keys ths \<and> in_sched c ths = sched"

lemma enrolled_calm: "enrolled P c sched \<le> calm P"
  by (auto simp: le_fun_def enrolled_def)

lemma enrolled_ready: "enrolled P c False \<le> ready P c"
  by (auto simp: le_fun_def enrolled_def ready_def resumable_def)

lemma enroll_vis:
  assumes "vis rn dead (\<lambda>ths cur r d. calm P ths cur r d \<and> c \<notin> hm_keys ths) s"
  shows "vis rn dead (enrolled (insert c P) c sched) (s\<lparr>vtid_next := v', threads := AList.update c
      \<lparr>vtid = v, child_tid = ct, flags = fl, scheduled = sched\<rparr> (threads s)\<rparr>)"
  using assms
  by (auto simp: vis_def enrolled_def calm_def exclusive_def known_def split: if_splits)

lemma register_thread_calms:
  assumes C: "ptrace_contract K rn dead"
  shows "triple (vis rn dead (calm P)) (register_thread K c info)
    (\<lambda>_. vis rn dead (calm (insert c P))) (vis rn dead (calm P))"
  unfolding register_thread_def
proof (rule triple_gets_know, rule triple_if)
  show "known \<Longrightarrow> triple (\<lambda>s. vis rn dead (calm P) s \<and> (c \<in> hm_keys (threads s)) = known) (ret ())
      (\<lambda>_. vis rn dead (calm (insert c P))) (vis rn dead (calm P))" for known
    by (intro triple_ret) (auto simp: vis_def calm_def known_def)
next
  fix known assume known: "\<not> known"
  let ?sched = "ci_flags info AND CLONE_THREAD \<noteq> 0"
  let ?fin = "\<lambda>s. vis rn dead (calm (insert c P)) s"
  have drop: "calm (insert c P) \<le> calm P"
    by (auto simp: le_fun_def calm_def known_def)
  have body: "calms rn dead (enrolled (insert c P) c ?sched) (andthen
      (bind (gets (\<lambda>s. c \<in> stopped_pending s)) (\<lambda>arrived.
        if arrived then
          andthen (modify (\<lambda>s. s\<lparr>stopped_pending := stopped_pending s - {c}\<rparr>))
            (if ?sched then modify (\<lambda>s. s\<lparr>runnable := runnable s @ [c]\<rparr>)
             else resume_thread K c)
        else modify (\<lambda>s. s\<lparr>pending_start := insert c (pending_start s)\<rparr>)))
      (trace_json ''thread_create'' (JObj [(''tid'', json_u64 v), (''scheduled'', JBool ?sched)])))
      (insert c P)" for v
  proof (rule triple_andthen [OF _ stays_vis [OF small_stay(6) order_refl order_refl]])
    have res: "calms rn dead (enrolled (insert c P) c ?sched)
        (if ?sched then modify (\<lambda>s. s\<lparr>runnable := runnable s @ [c]\<rparr>) else resume_thread K c)
        (insert c P)"
    proof (rule triple_if)
      show "\<not> ?sched \<Longrightarrow> calms rn dead (enrolled (insert c P) c ?sched) (resume_thread K c) (insert c P)"
        by (rule calms_pre [OF resume_ready [OF C]]) (use enrolled_ready in simp)
      show "calms rn dead (enrolled (insert c P) c ?sched)
          (modify (\<lambda>s. s\<lparr>runnable := runnable s @ [c]\<rparr>)) (insert c P)"
        by (rule stays_vis [OF modify_stays enrolled_calm enrolled_calm]) (simp add: same_view_def)
    qed
    show "calms rn dead (enrolled (insert c P) c ?sched)
      (bind (gets (\<lambda>s. c \<in> stopped_pending s)) (\<lambda>arrived.
        if arrived then
          andthen (modify (\<lambda>s. s\<lparr>stopped_pending := stopped_pending s - {c}\<rparr>))
            (if ?sched then modify (\<lambda>s. s\<lparr>runnable := runnable s @ [c]\<rparr>)
             else resume_thread K c)
        else modify (\<lambda>s. s\<lparr>pending_start := insert c (pending_start s)\<rparr>))) (insert c P)"
      by (intro calms_then [OF vw.moves_gets enrolled_calm] triple_if
          calms_andthen [OF modify_stays enrolled_calm] res
          stays_vis [OF modify_stays enrolled_calm enrolled_calm]) (simp_all add: same_view_def)
  qed
  show "triple (\<lambda>s. vis rn dead (calm P) s \<and> (c \<in> hm_keys (threads s)) = known)
      (bind (gets vtid_next) (\<lambda>v. let sched = ?sched in
        andthen (modify (\<lambda>s. s\<lparr>vtid_next := vtid_next s + 1,
            threads := AList.update c \<lparr>vtid = v, child_tid = ci_child_tid info,
              flags = ci_flags info, scheduled = sched\<rparr> (threads s)\<rparr>))
        (andthen (bind (gets (\<lambda>s. c \<in> stopped_pending s)) (\<lambda>arrived.
            if arrived then
              andthen (modify (\<lambda>s. s\<lparr>stopped_pending := stopped_pending s - {c}\<rparr>))
                (if sched then modify (\<lambda>s. s\<lparr>runnable := runnable s @ [c]\<rparr>)
                 else resume_thread K c)
            else modify (\<lambda>s. s\<lparr>pending_start := insert c (pending_start s)\<rparr>)))
          (trace_json ''thread_create''
            (JObj [(''tid'', json_u64 v), (''scheduled'', JBool sched)])))))
      (\<lambda>_. vis rn dead (calm (insert c P))) (vis rn dead (calm P))"
    unfolding Let_def
  proof (rule triple_bind [OF triple_gets [where Q = "\<lambda>_ s.
        vis rn dead (\<lambda>ths cur r d. calm P ths cur r d \<and> c \<notin> hm_keys ths) s"]], goal_cases)
    case 2
    show ?case
    proof (rule triple_andthen, rule triple_modify)
      show "vis rn dead (enrolled (insert c P) c ?sched) (s\<lparr>vtid_next := vtid_next s + 1,
          threads := AList.update c \<lparr>vtid = v, child_tid = ci_child_tid info,
            flags = ci_flags info, scheduled = ?sched\<rparr> (threads s)\<rparr>)"
        if "vis rn dead (\<lambda>ths cur r d. calm P ths cur r d \<and> c \<notin> hm_keys ths) s" for s v
        using that by (rule enroll_vis)
    qed (rule triple_weaken [OF body]; auto intro: vis_mono drop)
  qed (use known in \<open>auto simp: vis_def\<close>)
qed

section \<open>The event loop\<close>

text \<open>Both invariants together, and a condition on the view.\<close>

definition good ::
  "('k \<Rightarrow> pid set) \<Rightarrow> ('k \<Rightarrow> pid set) \<Rightarrow> pid \<Rightarrow> view_pred \<Rightarrow> 'k supervisor \<Rightarrow> bool" where
  "good rn dead i Q s \<longleftrightarrow> sv_ok i s \<and> vis rn dead Q s"

lemma good_mono: "good rn dead i Q s \<Longrightarrow> Q \<le> Q' \<Longrightarrow> good rn dead i Q' s"
  by (auto simp: good_def intro: vis_mono)

lemma good_triple:
  assumes "triple (vis rn dead Q) m (\<lambda>_. vis rn dead Q') (vis rn dead R)" and "keeps (oks i) m"
  shows "triple (good rn dead i Q) m (\<lambda>_. good rn dead i Q') (good rn dead i R)"
proof (rule tripleI)
  fix s assume s: "good rn dead i Q s"
  from s have v: "vis rn dead Q s" by (simp add: good_def)
  from keepsD [OF assms(2), of s] s have ok: "sv_ok i (snd (m s))" by (simp add: good_def)
  show "good rn dead i Q' s'" if "m s = (Ok a, s')" for a s'
    using triple_Ok [OF assms(1) v that] ok that by (simp add: good_def)
  show "good rn dead i R s'" if "m s = (Err e, s')" for e s'
    using triple_Err [OF assms(1) v that] ok that by (simp add: good_def)
  show "good rn dead i R s'" if "m s = (More, s')" for s'
    using triple_More [OF assms(1) v that] ok that by (simp add: good_def)
qed

abbreviation goods ::
  "('k \<Rightarrow> pid set) \<Rightarrow> ('k \<Rightarrow> pid set) \<Rightarrow> pid \<Rightarrow> view_pred \<Rightarrow> ('k, 'a) sv \<Rightarrow> pid set \<Rightarrow> bool" where
  "goods rn dead i Q m P \<equiv>
    triple (good rn dead i Q) m (\<lambda>_. good rn dead i (calm P)) (good rn dead i (calm P))"

lemma goods_pre: "goods rn dead i Q m P \<Longrightarrow> Q' \<le> Q \<Longrightarrow> goods rn dead i Q' m P"
  by (erule triple_weaken) (auto intro: good_mono)

lemma goods_ret: "Q \<le> calm P \<Longrightarrow> goods rn dead i Q (ret a) P"
  by (rule triple_ret) (rule good_mono)

lemma goods_then:
  assumes "stays rn dead m" and "keeps (oks i) m" and "Q \<le> calm P" and "\<And>a. goods rn dead i Q (f a) P"
  shows "goods rn dead i Q (bind m f) P"
  by (rule triple_bind [OF good_triple [OF stays_vis [OF assms(1) order_refl assms(3)] assms(2)]
      assms(4)])

lemma calm_mono: "P \<subseteq> P' \<Longrightarrow> calm P' \<le> calm P"
  by (auto simp: le_fun_def calm_def known_def)

lemma keeps_goods: "keeps (good rn dead i (calm P')) m \<Longrightarrow> P \<subseteq> P' \<Longrightarrow> Q \<le> calm P' \<Longrightarrow> goods rn dead i Q m P"
  unfolding keeps_def by (erule triple_weaken) (auto intro: good_mono calm_mono)

text \<open>The view after a \<open>waitpid\<close> that reported \<open>st\<close>.\<close>

definition reported :: "pid set \<Rightarrow> wait_status \<Rightarrow> view_pred" where
  "reported P st = (case st of
      Exited p _ \<Rightarrow> (\<lambda>ths cur r d. calm P ths cur r d \<and> p \<notin> r \<and> p \<in> d)
    | Signaled p _ _ \<Rightarrow> (\<lambda>ths cur r d. calm P ths cur r d \<and> p \<notin> r \<and> p \<in> d)
    | Stopped p sig \<Rightarrow> if sig = SIGSTOP then calm P else stopped P p
    | PtraceEvent p _ ev \<Rightarrow>
        if ev = PTRACE_EVENT_EXIT then (\<lambda>ths cur r d. calm P ths cur r d \<and> p \<in> d) else stopped P p
    | PtraceSyscall p \<Rightarrow> stopped P p
    | Continued _ \<Rightarrow> calm P
    | StillAlive \<Rightarrow> calm P)"

lemma reported_calm: "reported P st \<le> calm P"
  by (auto simp: reported_def le_fun_def stopped_def split: wait_status.splits)

lemma sv_wait_good:
  assumes C: "ptrace_contract K rn dead"
  shows "triple (good rn dead i (calm P)) (sv_wait K) (\<lambda>st. good rn dead i (reported P st))
    (good rn dead i (calm P))"
proof (rule tripleI)
  fix s assume s: "good rn dead i (calm P) s"
  obtain r k' where w: "k_waitpid K (kern s) = (r, k')" by (cases "k_waitpid K (kern s)")
  have k: "rn k' \<subseteq> rn (kern s)" "dead (kern s) \<subseteq> dead k'"
      "case r of Inl _ \<Rightarrow> True | Inr st \<Rightarrow> status_ok st (rn (kern s)) (rn k') (dead k')"
    by (rule contract_wait [OF C w])+
  have calm: "calm P (threads s) (current s) (rn k') (dead k')"
    using s k(1,2) by (auto simp: good_def vis_def calm_def exclusive_def known_def)
  show "good rn dead i (reported P st) s'" if e: "sv_wait K s = (Ok st, s')" for st s'
  proof -
    have r: "r = Inr st" and s': "s' = s\<lparr>kern := k'\<rparr>"
      using e w by (auto simp: sv_wait_def kcall_def split: sum.splits)
    from k(3) r have ok: "status_ok st (rn (kern s)) (rn k') (dead k')" by simp
    have keys: "rn (kern s) \<subseteq> hm_keys (threads s)"
        "\<And>p. p \<in> rn (kern s) \<Longrightarrow> in_sched p (threads s) \<Longrightarrow> current s = Some p"
      using s by (auto simp: good_def vis_def calm_def exclusive_def)
    have "reported P st (threads s) (current s) (rn k') (dead k')"
      using ok calm keys
      by (auto simp: reported_def status_ok_def stopped_def split: wait_status.splits if_splits)
    with s show ?thesis by (simp add: s' good_def vis_def)
  qed
  show "good rn dead i (calm P) s'" if e: "sv_wait K s = (Err e, s')" for e s'
  proof -
    have "s' = s\<lparr>kern := k'\<rparr>" using e w by (auto simp: sv_wait_def kcall_def split: sum.splits)
    with s calm show ?thesis by (simp add: good_def vis_def)
  qed
  show "good rn dead i (calm P) s'" if "sv_wait K s = (More, s')" for s'
    using that by (auto simp: sv_wait_def kcall_def split: sum.splits prod.splits)
qed

text \<open>The handlers of one status.\<close>

lemma dispatch_event_goods:
  assumes C: "ptrace_contract K rn dead"
    and aw: "\<And>c P. keeps (good rn dead i (calm (insert c P))) (aw c)"
  shows "goods rn dead i (reported P (PtraceEvent p sig e)) (dispatch_event K aw p e) P"
proof -
  have go_on: "goods rn dead i (\<lambda>ths cur r d. calm P ths cur r d \<and> (p \<in> hm_keys ths \<or> p \<in> d))
      (andthen (resume_either K p) (ret (a :: int option))) P" for P a
    by (rule good_triple [OF calms_finish [OF resume_either_calms [OF C]]])
      (intro keeps_intros ok_intros)
  have dying: "goods rn dead i (\<lambda>ths cur r d. calm P ths cur r d \<and> p \<in> d)
      (andthen (resume_thread K p) (ret (a :: int option))) P" for a
    by (rule good_triple [OF calms_finish [OF calms_pre [OF resume_ready [OF C]]]],
        force simp: le_fun_def ready_def resumable_def, intro keeps_intros ok_intros)
  have into: "stopped P p \<le> (\<lambda>ths cur r d. calm P ths cur r d \<and> (p \<in> hm_keys ths \<or> p \<in> d))"
    by (auto simp: le_fun_def stopped_def)
  let ?P = "\<lambda>c. insert c (insert p P)"
  have loop: "goods rn dead i (calm (?P c)) (bind (aw c) (\<lambda>r. case r of
        Some code \<Rightarrow> ret (Some code)
      | None \<Rightarrow> andthen (resume_either K p) (ret None))) (?P c)" for c
  proof (rule triple_bind [OF aw [unfolded keeps_def]], rule triple_option)
    show "goods rn dead i (calm (?P c)) (andthen (resume_either K p) (ret (None :: int option))) (?P c)"
      by (rule goods_pre [OF go_on]) (auto simp: le_fun_def calm_def known_def)
  qed (rule goods_ret [OF order_refl])
  have reg: "triple (good rn dead i (stopped P p)) (register_thread K c info)
      (\<lambda>_. good rn dead i (calm (?P c))) (good rn dead i (calm P))" for c info
    by (rule good_triple [OF triple_weaken [OF register_thread_calms [OF C, of "insert p P"]]
          register_thread_ok])
      (auto simp: stopped_def calm_def known_def vis_def)
  have clone: "goods rn dead i (stopped P p)
      (andthen (register_thread K c info) (bind (aw c) (\<lambda>r. case r of
        Some code \<Rightarrow> ret (Some code)
      | None \<Rightarrow> andthen (resume_either K p) (ret None)))) P" for c info
    by (rule triple_andthen [OF reg triple_weaken [OF loop]])
      (auto intro: good_mono calm_mono)
  have st: "reported P (PtraceEvent p sig e) = stopped P p" if "e \<noteq> PTRACE_EVENT_EXIT"
    using that by (simp add: reported_def)
  show ?thesis
    unfolding dispatch_event_def Let_def
  proof (rule triple_if)
    assume "e = PTRACE_EVENT_CLONE \<or> e = PTRACE_EVENT_FORK \<or> e = PTRACE_EVENT_VFORK"
    then have "e \<noteq> PTRACE_EVENT_EXIT" by (auto simp: ptrace_events)
    from st [OF this] show "goods rn dead i (reported P (PtraceEvent p sig e))
      (bind (kcall (k_getevent K p) Ptrace) (\<lambda>msg. bind (take_clone_info p) (\<lambda>info.
         andthen (register_thread K (as_i32 msg) info) (bind (aw (as_i32 msg)) (\<lambda>r. case r of
           Some code \<Rightarrow> ret (Some code)
         | None \<Rightarrow> andthen (resume_either K p) (ret None)))))) P"
      by (simp, intro goods_then stay_intros C ok_intros stopped_calm clone)
  next
    show "goods rn dead i (reported P (PtraceEvent p sig e))
      (if e = PTRACE_EVENT_EXIT then andthen (resume_thread K p) (ret (None :: int option))
       else andthen (resume_either K p) (ret None)) P"
      by (rule triple_if) (use dying goods_pre [OF go_on into] st in \<open>auto simp: reported_def\<close>)
  qed
qed

lemma release_task_goods:
  assumes C: "ptrace_contract K rn dead"
  shows "goods rn dead i (\<lambda>ths cur r d. calm P ths cur r d \<and> (p \<in> hm_keys ths \<or> p \<in> d))
    (release_task K p) P"
proof (rule good_triple [OF _ release_task_ok], unfold release_task_def, rule calms_if_scheduled)
  show "calms rn dead (\<lambda>ths cur r d. (calm P ths cur r d \<and> (p \<in> hm_keys ths \<or> p \<in> d)) \<and>
      in_sched p ths) (modify (\<lambda>s. s\<lparr>runnable := runnable s @ [p]\<rparr>)) P"
    by (rule stays_vis [OF modify_stays]) (auto simp: same_view_def le_fun_def)
  show "calms rn dead (\<lambda>ths cur r d. (calm P ths cur r d \<and> (p \<in> hm_keys ths \<or> p \<in> d)) \<and>
      \<not> in_sched p ths) (resume_thread K p) P"
    by (rule calms_pre [OF resume_ready [OF C]]) (auto simp: le_fun_def ready_def resumable_def)
qed

lemma kcall_resume_goods:
  assumes "ptrace_contract K rn dead" and "Q \<le> ready P p"
  shows "goods rn dead i Q (kcall (k_resume K p sig) w) P"
  by (rule goods_pre [OF good_triple [OF kresume_ready [OF assms(1)]] assms(2)])
    (intro ok_intros)

lemma goods_know:
  assumes "\<And>v. triple (\<lambda>s. good rn dead i Q s \<and> s = v) (g v) (\<lambda>_. good rn dead i (calm P))
    (good rn dead i (calm P))"
  shows "goods rn dead i Q (bind (gets id) g) P"
  by (rule triple_gets_know) (use assms in simp)

lemma goods_at:
  assumes "goods rn dead i Q' m P" and "good rn dead i Q v \<Longrightarrow> good rn dead i Q' v"
  shows "triple (\<lambda>s. good rn dead i Q s \<and> s = v) m (\<lambda>_. good rn dead i (calm P))
    (good rn dead i (calm P))"
  by (rule triple_weaken [OF assms(1)]) (use assms(2) in auto)

lemma stays_goods:
  "stays rn dead m \<Longrightarrow> keeps (oks i) m \<Longrightarrow> goods rn dead i (calm P) m P"
  by (rule good_triple [OF stays_vis]) auto

lemma dispatch_stopped_goods:
  assumes C: "ptrace_contract K rn dead"
  shows "goods rn dead i (reported P (Stopped p sig)) (dispatch_stopped K p sig) P"
proof (cases "sig = SIGSTOP")
  case True
  have rep: "reported P (Stopped p sig) = calm P" using True by (simp add: reported_def)
  have resume: "goods rn dead i (ready P p) (resume_thread K p) P"
    by (rule good_triple [OF resume_ready [OF C] resume_thread_ok])
  have pend: "goods rn dead i (\<lambda>ths cur r d. calm P ths cur r d \<and> (p \<in> hm_keys ths \<or> p \<in> d))
      (andthen (modify (\<lambda>s. s\<lparr>pending_start := pending_start s - {p}\<rparr>)) (release_task K p)) P"
    unfolding andthen_def
    by (rule goods_then [OF modify_stays drop_pending_ok _ release_task_goods [OF C]])
      (auto simp: same_view_def le_fun_def)
  have stranger: "goods rn dead i (\<lambda>ths cur r d. calm P ths cur r d \<and> p \<notin> hm_keys ths)
      (modify (\<lambda>s. s\<lparr>stopped_pending := insert p (stopped_pending s)\<rparr>)) P"
    by (rule triple_modify)
      (auto simp: good_def vis_def sv_ok_def table_ok_def queues_ok_def is_scheduled_def)
  show ?thesis
    unfolding dispatch_stopped_def rep
  proof (rule goods_know, unfold if_P [OF True], intro triple_if)
    fix v :: "'a supervisor"
    show "current v = Some p \<Longrightarrow> triple (\<lambda>s. good rn dead i (calm P) s \<and> s = v) (resume_thread K p)
        (\<lambda>_. good rn dead i (calm P)) (good rn dead i (calm P))"
      by (rule goods_at [OF resume])
        (auto simp: good_def vis_def ready_def resumable_def calm_def known_def)
    show "p \<in> pending_start v \<Longrightarrow> triple (\<lambda>s. good rn dead i (calm P) s \<and> s = v)
        (andthen (modify (\<lambda>s. s\<lparr>pending_start := pending_start s - {p}\<rparr>)) (release_task K p))
        (\<lambda>_. good rn dead i (calm P)) (good rn dead i (calm P))"
      by (rule goods_at [OF pend]) (auto simp: good_def vis_def sv_ok_def table_ok_def)
    show "p \<notin> hm_keys (threads v) \<Longrightarrow> triple (\<lambda>s. good rn dead i (calm P) s \<and> s = v)
        (modify (\<lambda>s. s\<lparr>stopped_pending := insert p (stopped_pending s)\<rparr>) :: ('a, unit) sv)
        (\<lambda>_. good rn dead i (calm P)) (good rn dead i (calm P))"
      by (rule goods_at [OF stranger]) (auto simp: good_def vis_def)
  qed (auto intro: triple_ret)
next
  case False
  have rep: "reported P (Stopped p sig) = stopped P p" using False by (simp add: reported_def)
  have keep: "goods rn dead i (stopped P p)
      (modify (\<lambda>s. s\<lparr>sig_pending := (sig_pending s)(p \<mapsto> sig)\<rparr>)) P"
    by (rule goods_pre [OF stays_goods [OF modify_stays modify_same_core] stopped_calm])
      (simp_all add: same_view_def same_core_def)
  show ?thesis
    unfolding dispatch_stopped_def rep
    by (rule goods_know, unfold if_not_P [OF False], intro triple_if;
        rule goods_at [OF kcall_resume_goods [OF C stopped_ready]]
          goods_at [OF keep] goods_at [OF goods_ret [OF stopped_calm]])
qed

lemma on_thread_exit_view:
  "threads (snd (on_thread_exit p b s)) = AList.delete p (threads s)"
  "current (snd (on_thread_exit p b s)) = current s"
  "kern (snd (on_thread_exit p b s)) = kern s"
proof -
  have [simp]: "AList.delete p ths = ths" if "map_of ths p = None" for ths :: "(pid \<times> thread) list"
    using that by (simp add: map_of_None_keys delete_id)
  have w: "threads (snd (wake a v s)) = threads s" "current (snd (wake a v s)) = current s"
    "kern (snd (wake a v s)) = kern s" for a v and s :: "'a supervisor"
    by (auto simp: wake_def Let_def split: option.splits prod.splits)
  show "threads (snd (on_thread_exit p b s)) = AList.delete p (threads s)"
    "current (snd (on_thread_exit p b s)) = current s"
    "kern (snd (on_thread_exit p b s)) = kern s"
    by (auto simp: on_thread_exit_def modify_def forget_pid_def exit_registered_def Let_def w
        trace_json_st_def split: option.split)
qed

lemma dispatch_gone_goods:
  assumes C: "ptrace_contract K rn dead" and "p \<noteq> i"
  shows "goods rn dead i (\<lambda>ths cur r d. calm P ths cur r d \<and> p \<notin> r \<and> p \<in> d) (dispatch_gone K p) P"
proof (rule good_triple [OF _ dispatch_gone_ok [OF assms(2)]], unfold dispatch_gone_def,
    rule triple_gets_know)
  fix was :: bool
  let ?Q = "\<lambda>ths cur r d. calm P ths cur r d \<and> (was \<longrightarrow> quiet P ths cur r d)"
  have exit: "triple (\<lambda>s. vis rn dead (\<lambda>ths cur r d. calm P ths cur r d \<and> p \<notin> r \<and> p \<in> d) s
      \<and> (current s = Some p) = was) (on_thread_exit p was) (\<lambda>_. vis rn dead ?Q) (vis rn dead ?Q)"
    unfolding triple_snd
    by (auto simp: vis_def on_thread_exit_view calm_def quiet_def exclusive_def idle_def known_def
        split: if_splits)
  have next_one: "calms rn dead (quiet P)
      (andthen (modify (\<lambda>s. s\<lparr>current := None\<rparr>)) (schedule_next K)) P"
    by (rule triple_andthen [OF triple_modify schedule_next_vis [OF C]])
      (auto simp: vis_def quiet_def idle_def known_def)
  have rest: "calms rn dead ?Q (bind (gets group_exiting) (\<lambda>ge.
      if was \<and> \<not> ge then
        andthen (modify (\<lambda>s. s\<lparr>current := None\<rparr>)) (schedule_next K)
      else ret ())) P"
  proof (rule calms_then [OF vw.moves_gets], force simp: le_fun_def, rule triple_if)
    show "was \<and> \<not> ge \<Longrightarrow> calms rn dead ?Q
        (andthen (modify (\<lambda>s. s\<lparr>current := None\<rparr>)) (schedule_next K)) P" for ge
      by (rule calms_pre [OF next_one]) (auto simp: le_fun_def)
  qed (rule calms_ret, force simp: le_fun_def)
  show "triple (\<lambda>s. vis rn dead (\<lambda>ths cur r d. calm P ths cur r d \<and> p \<notin> r \<and> p \<in> d) s
      \<and> (current s = Some p) = was)
    (andthen (on_thread_exit p was) (bind (gets group_exiting) (\<lambda>ge.
      if was \<and> \<not> ge then
        andthen (modify (\<lambda>s. s\<lparr>current := None\<rparr>)) (schedule_next K)
      else ret ()))) (\<lambda>_. vis rn dead (calm P)) (vis rn dead (calm P))"
    by (rule triple_andthen [OF triple_weaken [OF exit] rest])
      (auto intro: vis_mono simp: vis_def)
qed

lemma gone_or_init_goods:
  fixes m :: "('k, int option) sv"
  assumes C: "ptrace_contract K rn dead" and m: "stays rn dead m" "keeps (oks i) m"
  shows "goods rn dead i (\<lambda>ths cur r d. calm P ths cur r d \<and> p \<notin> r \<and> p \<in> d)
    (bind (gets sv_pid) (\<lambda>j. if p = j then m else andthen (dispatch_gone K p) (ret None))) P"
proof (rule triple_gets_know)
  fix j
  let ?Q = "\<lambda>ths cur r d. calm P ths cur r d \<and> p \<notin> r \<and> p \<in> d"
  show "triple (\<lambda>s. good rn dead i ?Q s \<and> sv_pid s = j)
      (if p = j then m else andthen (dispatch_gone K p) (ret None))
      (\<lambda>_. good rn dead i (calm P)) (good rn dead i (calm P))"
  proof (cases "j = i")
    case True
    have "goods rn dead i ?Q m P"
      by (rule good_triple [OF stays_vis [OF m(1)] m(2)]) (auto simp: le_fun_def)
    moreover have "goods rn dead i ?Q (andthen (dispatch_gone K p) (ret (None :: int option))) P"
      if "p \<noteq> i"
      by (rule triple_andthen [OF dispatch_gone_goods [OF C that] goods_ret [OF order_refl]])
    ultimately have "goods rn dead i ?Q
        (if p = j then m else andthen (dispatch_gone K p) (ret None)) P"
      using True by (cases "p = i") simp_all
    then show ?thesis by (rule triple_weaken) auto
  next
    case False
    then show ?thesis by (auto simp: triple_def good_def sv_ok_def table_ok_def)
  qed
qed

lemma dispatch_goods:
  assumes C: "ptrace_contract K rn dead"
    and aw: "\<And>c P. keeps (good rn dead i (calm (insert c P))) (aw c)"
  shows "goods rn dead i (reported P st) (dispatch K aw st) P"
proof (cases st)
  case (PtraceSyscall p)
  then show ?thesis
    using good_triple [OF dispatch_syscall_calms [OF C] dispatch_syscall_ok]
    by (simp add: dispatch_def reported_def)
next
  case (PtraceEvent p sig e)
  then show ?thesis using dispatch_event_goods [OF C aw] by (simp add: dispatch_def)
next
  case (Stopped p sig)
  have "goods rn dead i (reported P (Stopped p sig))
      (andthen (dispatch_stopped K p sig) (ret (None :: int option))) P"
    by (rule triple_andthen [OF dispatch_stopped_goods [OF C] goods_ret [OF order_refl]])
  with Stopped show ?thesis by (simp add: dispatch_def)
next
  case (Exited p code)
  then show ?thesis
    unfolding dispatch_def reported_def
    by (simp, intro gone_or_init_goods C vw.moves_intros stay_intros keeps_intros ok_intros)
next
  case (Signaled p sig core)
  then show ?thesis
    unfolding dispatch_def reported_def
    by (simp, intro gone_or_init_goods C vw.moves_intros stay_intros keeps_intros ok_intros)
qed (simp_all add: dispatch_def reported_def goods_ret)

lemma await_attach_keeps:
  assumes "\<And>c P. keeps (good rn dead i (calm (insert c P))) (lp c)"
  shows "keeps (good rn dead i (calm (insert c P))) (await_attach lp c)"
  unfolding await_attach_def by (intro keeps_intros assms)

lemma await_loop_good:
  assumes C: "ptrace_contract K rn dead"
  shows "keeps (good rn dead i (calm (insert c P))) (await_loop K n c)"
proof (induction n arbitrary: c P)
  case (Suc n)
  let ?G = "good rn dead i (calm (insert c P))"
  have released: "goods rn dead i (calm (insert c P))
      (andthen (modify (\<lambda>s. s\<lparr>pending_start := pending_start s - {c}\<rparr>))
        (andthen (release_task K c) (ret (None :: int option)))) (insert c P)"
    unfolding andthen_def
    by (rule goods_then [OF modify_stays drop_pending_ok order_refl],
        simp add: same_view_def,
        rule triple_bind [OF goods_pre [OF release_task_goods [OF C]] goods_ret [OF order_refl]])
      (auto simp: le_fun_def calm_def known_def)
  have other: "goods rn dead i (reported (insert c P) st)
      (bind (dispatch K (await_attach (await_loop K n)) st) (\<lambda>r. case r of
          Some code \<Rightarrow> ret (Some code) | None \<Rightarrow> await_loop K n c)) (insert c P)" for st
    by (rule triple_bind [OF dispatch_goods [OF C await_attach_keeps [OF Suc]]],
        rule triple_option, rule Suc [unfolded keeps_def], rule goods_ret [OF order_refl])
  show ?case
    unfolding await_loop.simps keeps_def
    by (rule triple_bind [OF sv_wait_good [OF C]], rule triple_if,
        rule goods_pre [OF released reported_calm], rule other)
qed (simp add: keeps_intros)

lemma run_loop_good:
  assumes C: "ptrace_contract K rn dead"
  shows "keeps (good rn dead i (calm P)) (run_loop K n)"
proof (induction n)
  case (Suc n)
  have sched: "goods rn dead i (quiet P) (andthen (schedule_next K) (run_loop K n)) P"
    by (rule triple_andthen [OF good_triple [OF schedule_next_vis [OF C] schedule_next_ok]
        Suc [unfolded keeps_def]])
  have "goods rn dead i (calm P) (bind (gets current) (\<lambda>c.
          if c = None then andthen (schedule_next K) (run_loop K n) else run_loop K n)) P"
  proof (rule triple_gets_know, rule triple_if)
    show "c = None \<Longrightarrow> triple (\<lambda>s. good rn dead i (calm P) s \<and> current s = c)
        (andthen (schedule_next K) (run_loop K n))
        (\<lambda>_. good rn dead i (calm P)) (good rn dead i (calm P))" for c
      by (rule triple_weaken [OF sched])
        (auto simp: good_def vis_def calm_def quiet_def idle_def exclusive_def)
    show "triple (\<lambda>s. good rn dead i (calm P) s \<and> current s = c) (run_loop K n)
        (\<lambda>_. good rn dead i (calm P)) (good rn dead i (calm P))" for c
      by (rule triple_weaken [OF Suc [unfolded keeps_def]]) auto
  qed
  then have turn: "goods rn dead i (reported P st)
      (bind (dispatch K (await_attach (await_loop K n)) st) (\<lambda>r. case r of
          Some code \<Rightarrow> ret code
        | None \<Rightarrow> bind (gets current) (\<lambda>c.
            if c = None then andthen (schedule_next K) (run_loop K n) else run_loop K n))) P" for st
    by (intro triple_bind [OF dispatch_goods [OF C await_attach_keeps [OF await_loop_good [OF C]]]]
        triple_option goods_ret [OF order_refl])
  show ?case
    unfolding run_loop.simps keeps_def by (rule triple_bind [OF sv_wait_good [OF C] turn])
qed (simp add: keeps_intros)

lemma supervise_good:
  assumes C: "ptrace_contract K rn dead" and "rn k = {}"
  shows "good rn dead p (calm {}) (snd (supervise K n p seed root i k))"
proof -
  let ?s = "supervisor_new p seed root i k"
  have "good rn dead p (quiet {}) ?s"
    using assms(2) supervisor_new_ok [of p seed root i k]
    by (simp add: good_def vis_def quiet_def idle_def known_def supervisor_new_def)
  moreover have "goods rn dead p (quiet {}) (run K n) {}"
    unfolding run_def
    by (rule triple_andthen [OF good_triple [OF schedule_next_vis [OF C] schedule_next_ok]
        run_loop_good [OF C, unfolded keeps_def]])
  ultimately show ?thesis by (simp add: supervise_def triple_snd)
qed

end
