(* ===== verification/Progress.thy ===== *)
theory Progress
  imports Dispatch
begin

text \<open>
  The supervisor touches the kernel only through the kernel's operations (\<open>kernel_keeps\<close>), and it
  spends one \<open>waitpid\<close> per turn of its loops, so it returns whenever the kernel reports only finitely
  many statuses. This is the enough-fuel lemma of the model's loops.
\<close>

text \<open>A property of kernel states that every operation but \<open>waitpid\<close> preserves.\<close>

definition kernel_keeps :: "'k kernel \<Rightarrow> ('k \<Rightarrow> bool) \<Rightarrow> bool" where
  "kernel_keeps K P \<longleftrightarrow> (\<forall>k. P k \<longrightarrow>
    (\<forall>p sig. P (snd (k_resume K p sig k))) \<and> (\<forall>p. P (snd (k_syscall_info K p k)))
    \<and> (\<forall>p. P (snd (k_getevent K p k))) \<and> (\<forall>p. P (snd (k_getregs K p k)))
    \<and> (\<forall>p r. P (snd (k_setregs K p r k))) \<and> (\<forall>p. P (snd (k_open_mem K p k)))
    \<and> (\<forall>p a d. P (snd (k_write_at K p a d k))) \<and> (\<forall>p a n. P (snd (k_read_exact_at K p a n k))))"

abbreviation on_kern :: "('k \<Rightarrow> bool) \<Rightarrow> 'k supervisor \<Rightarrow> bool" where
  "on_kern P \<equiv> \<lambda>s. P (kern s)"

named_theorems kern_intros \<open>operations that keep a stable property of the kernel state\<close>

lemma keeps_kern_modify:
  "(\<And>s. kern (f s) = kern s) \<Longrightarrow> keeps (on_kern P) (modify f)"
  by (rule keeps_modify) simp

lemma keeps_kcall: "(\<And>k. P k \<Longrightarrow> P (snd (f k))) \<Longrightarrow> keeps (on_kern P) (kcall f w)"
  by (rule keepsI) (force simp: kcall_def split: prod.splits sum.splits dest: spec)

lemma keeps_take_signal [kern_intros]: "keeps (on_kern P) (take_signal p)"
  by (rule keepsI) (simp add: take_signal_def)

lemma keeps_draw [kern_intros]: "keeps (on_kern P) (draw_bytes n)"
  by (rule keepsI) (simp add: draw_bytes_def split: prod.split)

lemma keeps_read_clock [kern_intros]: "keeps (on_kern P) (read_clock c)"
  by (rule keepsI) (simp add: read_clock_def split: prod.split)

lemma kern_wake: "kern (snd (wake a v s)) = kern s"
  by (auto simp: wake_def Let_def split: option.splits prod.splits)

lemma keeps_sv_wake [kern_intros]: "keeps (on_kern P) (sv_wake a v)"
proof (rule keepsI)
  fix s :: "'a supervisor" assume "P (kern s)"
  moreover have "snd (sv_wake a v s) = snd (wake a v s)" by (simp add: sv_wake_def split: prod.split)
  ultimately show "P (kern (snd (sv_wake a v s)))" by (simp add: kern_wake)
qed

lemma kern_trace_json_st [simp]: "kern (trace_json_st e d s) = kern s"
  by (simp add: trace_json_st_def Let_def)

lemma keeps_trace_json [kern_intros]: "keeps (on_kern P) (trace_json e d)"
  unfolding trace_json_def by (rule keeps_kern_modify) simp

lemma keeps_take_clone_info [kern_intros]: "keeps (on_kern P) (take_clone_info p)"
  by (rule keepsI) (simp add: take_clone_info_def)

lemma keeps_trace_syscall [kern_intros]: "keeps (on_kern P) (trace_syscall nr k)"
  unfolding trace_syscall_def by (intro kern_intros)

lemma keeps_trace_futex [kern_intros]: "keeps (on_kern P) (trace_futex p o' k)"
  unfolding trace_futex_def by (intro keeps_intros kern_intros)

lemma keeps_trace_lifecycle [kern_intros]: "keeps (on_kern P) (trace_lifecycle e c)"
  unfolding trace_lifecycle_def by (intro kern_intros)

lemma keeps_on_thread_exit [kern_intros]: "keeps (on_kern P) (on_thread_exit p rec)"
  unfolding on_thread_exit_def
  by (rule keeps_kern_modify)
    (auto simp: forget_pid_def exit_registered_def Let_def kern_wake split: option.splits)

lemma kernel_keepsD:
  assumes "kernel_keeps K P"
  shows "keeps (on_kern P) (kcall (k_resume K p sig) w)"
    and "keeps (on_kern P) (kcall (k_syscall_info K p) w)"
    and "keeps (on_kern P) (kcall (k_getevent K p) w)"
    and "keeps (on_kern P) (kcall (k_getregs K p) w)"
    and "keeps (on_kern P) (kcall (k_setregs K p r) w)"
    and "keeps (on_kern P) (kcall (k_open_mem K p) w)"
    and "keeps (on_kern P) (kcall (k_write_at K p a d) w)"
    and "keeps (on_kern P) (kcall (k_read_exact_at K p a n) w)"
  using assms by (auto simp: kernel_keeps_def intro!: keeps_kcall)

lemma keeps_resume_thread [kern_intros]:
  "kernel_keeps K P \<Longrightarrow> keeps (on_kern P) (resume_thread K p)"
  unfolding resume_thread_def by (intro keeps_intros kern_intros kernel_keepsD)

lemma keeps_resume_current [kern_intros]:
  "kernel_keeps K P \<Longrightarrow> keeps (on_kern P) (resume_current K p)"
  unfolding resume_current_def by (intro keeps_intros kern_intros)

lemma keeps_resume_either [kern_intros]:
  "kernel_keeps K P \<Longrightarrow> keeps (on_kern P) (resume_either K p)"
  unfolding resume_either_def by (intro keeps_intros kern_intros)

lemma keeps_release_task [kern_intros]:
  "kernel_keeps K P \<Longrightarrow> keeps (on_kern P) (release_task K p)"
  unfolding release_task_def by (intro keeps_intros kern_intros keeps_kern_modify) simp

lemma kern_schedule_event [simp]: "kern (schedule_event t s) = kern s"
  by (simp add: schedule_event_def)

lemma keeps_schedule_next [kern_intros]:
  assumes "kernel_keeps K P"
  shows "keeps (on_kern P) (schedule_next K)"
proof (rule keepsI)
  fix s :: "'a supervisor" assume "P (kern s)"
  then show "P (kern (snd (schedule_next K s)))"
    by (auto simp: schedule_next_def split: option.splits
        intro!: keepsD [OF keeps_resume_thread [OF assms]])
qed

lemma keeps_yield_current [kern_intros]:
  "kernel_keeps K P \<Longrightarrow> keeps (on_kern P) (yield_current K p)"
  unfolding yield_current_def by (intro keeps_intros kern_intros keeps_kern_modify) simp

lemma keeps_register_thread [kern_intros]:
  "kernel_keeps K P \<Longrightarrow> keeps (on_kern P) (register_thread K p info)"
  unfolding register_thread_def Let_def
  by (intro keeps_intros kern_intros keeps_kern_modify) simp_all

lemma keeps_mem [kern_intros]:
  assumes "kernel_keeps K P"
  shows "keeps (on_kern P) (write_proc_mem K p a d)" "keeps (on_kern P) (read_proc_mem K p a n)"
    "keeps (on_kern P) (read_u32 K p a)"
  unfolding write_proc_mem_def read_proc_mem_def read_u32_def
  by (intro keeps_intros kernel_keepsD assms)+

lemma keeps_skip_syscall [kern_intros]:
  "kernel_keeps K P \<Longrightarrow> keeps (on_kern P) (skip_syscall K p nr v)"
  unfolding skip_syscall_def by (intro keeps_intros kernel_keepsD keeps_kern_modify) simp_all

lemma keeps_on_syscall_exit [kern_intros]:
  "kernel_keeps K P \<Longrightarrow> keeps (on_kern P) (on_syscall_exit K p)"
  unfolding on_syscall_exit_def
  by (intro keeps_intros kern_intros kernel_keepsD keeps_kern_modify) simp_all

lemma keeps_stash_clone [kern_intros]:
  "kernel_keeps K P \<Longrightarrow> keeps (on_kern P) (stash_clone K p nr r)"
  unfolding stash_clone_def case_prod_beta'
  by (intro keeps_intros kern_intros keeps_kern_modify) simp_all

lemma keeps_intercepts [kern_intros]:
  assumes "kernel_keeps K P"
  shows "keeps (on_kern P) (intercept_getrandom K p r)"
    "keeps (on_kern P) (intercept_clock_gettime K p r)"
    "keeps (on_kern P) (intercept_gettimeofday K p r)"
    "keeps (on_kern P) (intercept_futex K p r)"
  unfolding intercept_getrandom_def intercept_clock_gettime_def intercept_gettimeofday_def
    intercept_futex_def Let_def case_prod_beta'
  by (intro keeps_intros kern_intros keeps_kern_modify assms; simp add: block_def)+

lemma keeps_on_syscall_entry [kern_intros]:
  "kernel_keeps K P \<Longrightarrow> keeps (on_kern P) (on_syscall_entry K p)"
  unfolding on_syscall_entry_def Let_def
  by (intro keeps_intros kern_intros kernel_keepsD keeps_kern_modify) simp_all

lemma keeps_dispatch_syscall [kern_intros]:
  "kernel_keeps K P \<Longrightarrow> keeps (on_kern P) (dispatch_syscall K p)"
  unfolding dispatch_syscall_def
  by (intro keeps_intros kern_intros kernel_keepsD keeps_kern_modify) simp_all

lemma keeps_dispatch_stopped [kern_intros]:
  "kernel_keeps K P \<Longrightarrow> keeps (on_kern P) (dispatch_stopped K p sig)"
  unfolding dispatch_stopped_def
  by (intro keeps_intros kern_intros kernel_keepsD keeps_kern_modify) simp_all

lemma keeps_dispatch_gone [kern_intros]:
  "kernel_keeps K P \<Longrightarrow> keeps (on_kern P) (dispatch_gone K p)"
  unfolding dispatch_gone_def
  by (intro keeps_intros kern_intros keeps_kern_modify) simp_all

lemma keeps_dispatch:
  assumes "kernel_keeps K P" and "\<And>c. keeps (on_kern P) (aw c)"
  shows "keeps (on_kern P) (dispatch K aw st)"
  unfolding dispatch_def dispatch_event_def Let_def
  by (cases st; simp only: wait_status.case;
      intro keeps_intros kern_intros kernel_keepsD keeps_kern_modify assms)

section \<open>Everything between two waits returns\<close>

lemma kcall_returns [returns_intros]: "returns (kcall f w)"
  by (auto simp: returns_def kcall_def split: prod.splits sum.splits)

lemma state_progs_return [returns_intros]:
  "returns (take_signal p)" "returns (draw_bytes n)" "returns (read_clock c)"
  "returns (sv_wake a v)" "returns (take_clone_info p)"
  by (simp_all add: returns_def take_signal_def draw_bytes_def read_clock_def sv_wake_def
      take_clone_info_def split: prod.split)

lemma traces_return [returns_intros]:
  "returns (trace_json e d)" "returns (trace_syscall nr k)" "returns (trace_futex p o' k)"
  "returns (trace_lifecycle e c)" "returns (on_thread_exit p rec)"
  unfolding trace_json_def trace_syscall_def trace_futex_def trace_lifecycle_def on_thread_exit_def
  by (intro returns_intros)+

lemma resume_thread_returns [returns_intros]: "returns (resume_thread K p)"
  unfolding resume_thread_def by (intro returns_intros)

lemma schedule_next_returns [returns_intros]: "returns (schedule_next K)"
  using resume_thread_returns
  by (auto simp: returns_def schedule_next_def split: option.splits prod.splits)

lemma sched_progs_return [returns_intros]:
  "returns (yield_current K p)" "returns (resume_current K p)" "returns (resume_either K p)"
  "returns (release_task K p)" "returns (register_thread K p info)"
  unfolding yield_current_def resume_current_def resume_either_def release_task_def
    register_thread_def Let_def
  by (intro returns_intros)+

lemma mem_progs_return [returns_intros]:
  "returns (write_proc_mem K p a d)" "returns (read_proc_mem K p a n)" "returns (read_u32 K p a)"
  "returns (skip_syscall K p nr v)" "returns (on_syscall_exit K p)" "returns (stash_clone K p nr r)"
  unfolding write_proc_mem_def read_proc_mem_def read_u32_def skip_syscall_def
    on_syscall_exit_def stash_clone_def case_prod_beta'
  by (intro returns_intros)+

lemma intercepts_return [returns_intros]:
  "returns (intercept_getrandom K p r)" "returns (intercept_clock_gettime K p r)"
  "returns (intercept_gettimeofday K p r)" "returns (intercept_futex K p r)"
  unfolding intercept_getrandom_def intercept_clock_gettime_def intercept_gettimeofday_def
    intercept_futex_def Let_def case_prod_beta'
  by (intro returns_intros)+

lemma handlers_return [returns_intros]:
  "returns (on_syscall_entry K p)" "returns (dispatch_syscall K p)"
  "returns (dispatch_stopped K p sig)" "returns (dispatch_gone K p)" "returns (sv_wait K)"
  unfolding on_syscall_entry_def dispatch_syscall_def dispatch_stopped_def dispatch_gone_def
    sv_wait_def Let_def
  by (intro returns_intros)+

lemma dispatch_returns_from:
  assumes "kernel_keeps K P" and "\<And>c. returns_from (on_kern P) (aw c)"
    and "\<And>c. keeps (on_kern P) (aw c)"
  shows "returns_from (on_kern P) (dispatch K aw st)"
proof (cases st)
  case (PtraceEvent p sig ev)
  then show ?thesis
    unfolding dispatch_def dispatch_event_def Let_def
    by (simp, intro conjI impI returns_from_bind returns_from_andthen assms keeps_intros
        kern_intros kernel_keepsD)
      (auto intro!: returns_returns_from returns_intros returns_from_bind returns_from_andthen
        keeps_intros kern_intros assms split: option.split)
qed (auto simp: dispatch_def intro!: returns_returns_from returns_intros)

section \<open>Enough fuel\<close>

text \<open>
  The kernel will report at most \<open>m k\<close> statuses from state \<open>k\<close> on: a \<open>waitpid\<close> that reports one
  leaves fewer, and nothing the supervisor does adds any.
\<close>

definition wait_bound :: "'k kernel \<Rightarrow> ('k \<Rightarrow> nat) \<Rightarrow> bool" where
  "wait_bound K m \<longleftrightarrow>
    (\<forall>b. kernel_keeps K (\<lambda>k. m k \<le> b)) \<and> (\<forall>k. m (snd (k_waitpid K k)) \<le> m k)
    \<and> (\<forall>k st k'. k_waitpid K k = (Inr st, k') \<longrightarrow> m k' < m k)"

lemma wait_bound_keeps: "wait_bound K m \<Longrightarrow> kernel_keeps K (\<lambda>k. m k \<le> b)"
  by (simp add: wait_bound_def)

lemma keeps_sv_wait: "wait_bound K m \<Longrightarrow> keeps (on_kern (\<lambda>k. m k \<le> b)) (sv_wait K)"
  unfolding sv_wait_def by (intro keeps_kcall) (auto simp: wait_bound_def intro: le_trans)

lemma keeps_await_loop:
  assumes "wait_bound K m"
  shows "keeps (on_kern (\<lambda>k. m k \<le> b)) (await_loop K n c)"
proof (induction n arbitrary: c)
  case (Suc n)
  show ?case
    unfolding await_loop.simps await_attach_def
    by (intro keeps_intros keeps_sv_wait keeps_kern_modify kern_intros keeps_dispatch
        wait_bound_keeps assms Suc) simp
qed (simp add: keeps_intros)

lemma keeps_await_attach:
  assumes "wait_bound K m"
  shows "keeps (on_kern (\<lambda>k. m k \<le> b)) (await_attach (await_loop K n) c)"
  unfolding await_attach_def by (intro keeps_intros keeps_await_loop assms)

lemma after_wait:
  assumes wb: "wait_bound K m" and "m (kern s) \<le> b"
    and rest: "\<And>b' st. b = Suc b' \<Longrightarrow> returns_from (on_kern (\<lambda>k. m k \<le> b')) (f st)"
  shows "fst (bind (sv_wait K) f s) \<noteq> More"
proof (cases "k_waitpid K (kern s)")
  case (Pair r k)
  show ?thesis
  proof (cases r)
    case (Inl e)
    with Pair show ?thesis by (simp add: bind_def sv_wait_def kcall_def)
  next
    case (Inr st)
    with Pair wb have "m k < m (kern s)" by (simp add: wait_bound_def)
    with assms(2) obtain b' where b': "b = Suc b'" "m k \<le> b'" by (cases b) auto
    have "fst (f st (s\<lparr>kern := k\<rparr>)) \<noteq> More"
      using rest [OF b'(1), of st] b'(2) by (simp add: returns_from_def)
    with Pair Inr show ?thesis by (simp add: bind_def sv_wait_def kcall_def)
  qed
qed

lemma await_loop_returns:
  assumes wb: "wait_bound K m" and "b < n"
  shows "returns_from (on_kern (\<lambda>k. m k \<le> b)) (await_loop K n c)"
  using assms(2)
proof (induction n arbitrary: b c)
  case (Suc n)
  show ?case
    unfolding returns_from_def await_loop.simps
  proof (intro allI impI after_wait [OF wb])
    fix b' and st :: wait_status assume "b = Suc b'"
    with Suc.prems have "b' < n" by simp
    note IH = Suc.IH [OF this]
    let ?I = "on_kern (\<lambda>k. m k \<le> b')"
    have aw: "returns_from ?I (await_attach (await_loop K n) c')" for c'
      unfolding await_attach_def by (intro returns_from_intros keeps_gets IH)
    have go: "returns_from ?I (dispatch K (await_attach (await_loop K n)) st)"
      by (intro dispatch_returns_from wait_bound_keeps wb aw keeps_await_attach)
    have kp: "keeps ?I (dispatch K (await_attach (await_loop K n)) st)"
      by (intro keeps_dispatch wait_bound_keeps wb keeps_await_attach)
    show "returns_from ?I (if st = Stopped c SIGSTOP
      then andthen (modify (\<lambda>s. s\<lparr>pending_start := pending_start s - {c}\<rparr>))
        (andthen (release_task K c) (ret None))
      else bind (dispatch K (await_attach (await_loop K n)) st) (\<lambda>r. case r of
          Some code \<Rightarrow> ret (Some code) | None \<Rightarrow> await_loop K n c))"
      by (intro returns_from_if returns_from_bind [OF go kp] returns_from_option IH
          returns_returns_from) (intro returns_intros)+
  qed simp
qed simp

lemma run_loop_returns:
  assumes wb: "wait_bound K m" and "b < n"
  shows "returns_from (on_kern (\<lambda>k. m k \<le> b)) (run_loop K n)"
  using assms(2)
proof (induction n arbitrary: b)
  case (Suc n)
  show ?case
    unfolding returns_from_def run_loop.simps
  proof (intro allI impI after_wait [OF wb])
    fix b' and st :: wait_status assume "b = Suc b'"
    with Suc.prems have b': "b' < n" by simp
    note IH = Suc.IH [OF this]
    let ?I = "on_kern (\<lambda>k. m k \<le> b')"
    have aw: "returns_from ?I (await_attach (await_loop K n) c')" for c'
      unfolding await_attach_def
      by (intro returns_from_intros keeps_gets await_loop_returns wb b')
    have go: "returns_from ?I (dispatch K (await_attach (await_loop K n)) st)"
      by (intro dispatch_returns_from wait_bound_keeps wb aw keeps_await_attach)
    have kp: "keeps ?I (dispatch K (await_attach (await_loop K n)) st)"
      by (intro keeps_dispatch wait_bound_keeps wb keeps_await_attach)
    have sched: "returns_from ?I (andthen (schedule_next K) (run_loop K n))"
      by (intro returns_from_andthen IH kern_intros wait_bound_keeps wb
          schedule_next_returns [THEN returns_returns_from])
    have cont: "returns_from ?I (bind (gets current) (\<lambda>c.
        if c = None then andthen (schedule_next K) (run_loop K n) else run_loop K n))"
      by (intro returns_from_bind returns_gets [THEN returns_returns_from] keeps_gets
          returns_from_if sched IH)
    show "returns_from ?I (bind (dispatch K (await_attach (await_loop K n)) st) (\<lambda>r. case r of
        Some code \<Rightarrow> ret code
      | None \<Rightarrow> bind (gets current) (\<lambda>c.
          if c = None then andthen (schedule_next K) (run_loop K n) else run_loop K n)))"
      by (intro returns_from_bind [OF go kp] returns_from_option cont
          returns_ret [THEN returns_returns_from])
  qed simp
qed simp

lemma run_returns:
  assumes "wait_bound K m" and "m (kern s) < n"
  shows "fst (run K n s) \<noteq> More"
proof -
  have "returns_from (on_kern (\<lambda>k. m k \<le> m (kern s))) (run K n)"
    unfolding run_def
    by (intro returns_from_andthen run_loop_returns [OF assms] kern_intros
        wait_bound_keeps [OF assms(1)] schedule_next_returns [THEN returns_returns_from])
  then show ?thesis by (simp add: returns_from_def)
qed

end
