(* ===== verification/Simulator.thy ===== *)
theory Simulator
  imports SingleRunner Progress
begin

text \<open>
  A concrete kernel for the statements about kernels: it reports the statuses of a script, as long as
  the contract of ptrace allows them, with the registers each of them carries. It is the instance at
  which the theorems about an arbitrary kernel are evaluated.
\<close>

section \<open>Evaluation\<close>

text \<open>
  Programs are evaluated on a state: nothing is unfolded before it meets one, so that the branches a
  run does not take, and the loops behind them, stay closed.
\<close>

declare ret_def [code del] fail_def [code del] out_of_fuel_def [code del] gets_def [code del] modify_def [code del]
  bind_def [code del] andthen_def [code del] attempt_def [code del] kcall_def [code del]
lemmas eval_prims [code] = fun_cong [OF ret_def] fun_cong [OF fail_def] fun_cong [OF out_of_fuel_def] fun_cong [OF gets_def] fun_cong [OF modify_def]
  bind_apply fun_cong [OF andthen_def] attempt_apply fun_cong [OF kcall_def]

text \<open>An updated map is looked into only when it is applied.\<close>

declare fun_upd_def [code del] fun_upd_apply [code]

declare trace_json_def [code del] trace_futex_def [code del] trace_syscall_def [code del]
  trace_lifecycle_def [code del] on_thread_exit_def [code del] take_signal_def [code del] resume_thread_def [code del]
  schedule_next_def [code del] yield_current_def [code del] resume_current_def [code del] release_task_def [code del]
  register_thread_def [code del] skip_syscall_def [code del] on_syscall_exit_def [code del]
  stash_clone_def [code del] on_syscall_entry_def [code del] sv_wait_def [code del] dispatch_syscall_def [code del]
  resume_either_def [code del] take_clone_info_def [code del] dispatch_event_def [code del] dispatch_stopped_def [code del]
  dispatch_gone_def [code del] dispatch_def [code del] await_attach_def [code del] run_def [code del]
lemmas eval_handlers [code] = fun_cong [OF trace_json_def] fun_cong [OF trace_futex_def] fun_cong [OF trace_syscall_def]
  fun_cong [OF trace_lifecycle_def] fun_cong [OF on_thread_exit_def] fun_cong [OF take_signal_def] fun_cong [OF resume_thread_def]
  fun_cong [OF schedule_next_def] fun_cong [OF yield_current_def] fun_cong [OF resume_current_def] fun_cong [OF release_task_def]
  fun_cong [OF register_thread_def] fun_cong [OF skip_syscall_def] fun_cong [OF on_syscall_exit_def]
  fun_cong [OF stash_clone_def] fun_cong [OF on_syscall_entry_def] fun_cong [OF sv_wait_def] fun_cong [OF dispatch_syscall_def]
  fun_cong [OF resume_either_def] fun_cong [OF take_clone_info_def] fun_cong [OF dispatch_event_def] fun_cong [OF dispatch_stopped_def]
  fun_cong [OF dispatch_gone_def] fun_cong [OF dispatch_def] fun_cong [OF await_attach_def] fun_cong [OF run_def]

declare await_loop.simps [code del] run_loop.simps [code del]

lemma await_loop_eval [code]:
  "await_loop K 0 child s = (More, s)"
  "await_loop K (Suc n) child s =
    bind (sv_wait K) (\<lambda>st.
      if st = Stopped child SIGSTOP then
        andthen (modify (\<lambda>s. s\<lparr>pending_start := pending_start s - {child}\<rparr>))
        (andthen (release_task K child) (ret None))
      else bind (dispatch K (await_attach (await_loop K n)) st) (\<lambda>r. case r of
          Some code \<Rightarrow> ret (Some code)
        | None \<Rightarrow> await_loop K n child)) s"
  by (simp_all add: out_of_fuel_def)

lemma run_loop_eval [code]:
  "run_loop K 0 s = (More, s)"
  "run_loop K (Suc n) s =
    bind (sv_wait K) (\<lambda>st.
    bind (dispatch K (await_attach (await_loop K n)) st) (\<lambda>r. case r of
        Some code \<Rightarrow> ret code
      | None \<Rightarrow> bind (gets current) (\<lambda>c.
          if c = None then andthen (schedule_next K) (run_loop K n) else run_loop K n))) s"
  by (simp_all add: out_of_fuel_def)

section \<open>The kernel\<close>

record stop =
  stop_status :: wait_status
  st_op :: u8
  st_msg :: u64
  st_regs :: regs

record sim =
  sim_script :: "stop list"
  sim_op :: u8
  sim_msg :: u64
  sim_regs :: regs
  sim_running :: "pid set"
  sim_dead :: "pid set"
  sim_written :: "(pid \<times> u64 \<times> bytes) list"

definition ESRCH :: errno where "ESRCH = 3"
definition ECHILD :: errno where "ECHILD = 10"

text \<open>The pid a status takes out of the running set, and the one it declares dead.\<close>

definition stops :: "wait_status \<Rightarrow> pid set" where
  "stops st = (case st of Exited p _ \<Rightarrow> {p} | Signaled p _ _ \<Rightarrow> {p} | Stopped p _ \<Rightarrow> {p}
    | PtraceEvent p _ _ \<Rightarrow> {p} | PtraceSyscall p \<Rightarrow> {p} | Continued _ \<Rightarrow> {} | StillAlive \<Rightarrow> {})"

definition kills :: "wait_status \<Rightarrow> pid set" where
  "kills st = (case st of Exited p _ \<Rightarrow> {p} | Signaled p _ _ \<Rightarrow> {p}
    | PtraceEvent p _ ev \<Rightarrow> if ev = PTRACE_EVENT_EXIT then {p} else {} | _ \<Rightarrow> {})"

definition admissible :: "wait_status \<Rightarrow> pid set \<Rightarrow> bool" where
  "admissible st running = (case st of PtraceSyscall p \<Rightarrow> p \<in> running
    | PtraceEvent p _ ev \<Rightarrow> ev = PTRACE_EVENT_EXIT \<or> p \<in> running
    | Stopped p sig \<Rightarrow> sig = SIGSTOP \<or> p \<in> running | _ \<Rightarrow> True)"

definition sim_waitpid :: "sim \<Rightarrow> (errno + wait_status) \<times> sim" where
  "sim_waitpid k = (case sim_script k of
      [] \<Rightarrow> (Inl ECHILD, k)
    | s # rest \<Rightarrow>
        if admissible (stop_status s) (sim_running k) then
          (Inr (stop_status s), k\<lparr>sim_script := rest, sim_op := st_op s, sim_msg := st_msg s,
            sim_regs := st_regs s, sim_running := sim_running k - stops (stop_status s),
            sim_dead := sim_dead k \<union> kills (stop_status s)\<rparr>)
        else (Inl ECHILD, k))"

definition sim_resume :: "pid \<Rightarrow> signal option \<Rightarrow> sim \<Rightarrow> (errno + unit) \<times> sim" where
  "sim_resume p sig k =
    (if p \<in> sim_dead k then (Inl ESRCH, k)
     else (Inr (), k\<lparr>sim_running := insert p (sim_running k)\<rparr>))"

definition sim_kernel :: "sim kernel" where
  "sim_kernel = \<lparr>k_waitpid = sim_waitpid, k_resume = sim_resume,
    k_syscall_info = (\<lambda>p k. (Inr (sim_op k), k)), k_getevent = (\<lambda>p k. (Inr (sim_msg k), k)),
    k_getregs = (\<lambda>p k. (Inr (sim_regs k), k)),
    k_setregs = (\<lambda>p r k. (Inr (), k\<lparr>sim_regs := r\<rparr>)), k_open_mem = (\<lambda>p k. (Inr (), k)),
    k_write_at = (\<lambda>p a d k. (Inr (length d), k\<lparr>sim_written := sim_written k @ [(p, a, d)]\<rparr>)),
    k_read_exact_at = (\<lambda>p a n k. (Inr (replicate n 0), k))\<rparr>"

lemma sim_contract: "ptrace_contract sim_kernel sim_running sim_dead"
proof -
  have "case fst (sim_waitpid k) of Inl _ \<Rightarrow> True
      | Inr st \<Rightarrow> status_ok st (sim_running k) (sim_running (snd (sim_waitpid k)))
          (sim_dead (snd (sim_waitpid k)))" for k
    by (auto simp: sim_waitpid_def status_ok_def admissible_def stops_def kills_def
        split: list.split wait_status.split if_splits)
  moreover have "sim_running (snd (sim_waitpid k)) \<subseteq> sim_running k
      \<and> sim_dead k \<subseteq> sim_dead (snd (sim_waitpid k))" for k
    by (auto simp: sim_waitpid_def split: list.split)
  ultimately show ?thesis
    by (auto simp: ptrace_contract_def sim_kernel_def kernel_same_def sim_resume_def Let_def
        split: if_splits)
qed

lemma sim_wait_bound: "wait_bound sim_kernel (\<lambda>k. length (sim_script k))"
  by (auto simp: wait_bound_def kernel_keeps_def sim_kernel_def sim_resume_def sim_waitpid_def
      split: list.splits if_splits)

definition no_regs :: regs where
  "no_regs = \<lparr>rdi = 0, rsi = 0, rdx = 0, r10 = 0, r9 = 0, orig_rax = 0, rax = 0, other_regs = []\<rparr>"

definition sim_start :: "stop list \<Rightarrow> sim" where
  "sim_start script = \<lparr>sim_script = script, sim_op = 0, sim_msg = 0, sim_regs = no_regs,
    sim_running = {}, sim_dead = {}, sim_written = []\<rparr>"

definition at_stop :: "wait_status \<Rightarrow> stop" where
  "at_stop st = \<lparr>stop_status = st, st_op = 0, st_msg = 0, st_regs = no_regs\<rparr>"

definition at_syscall :: "pid \<Rightarrow> u8 \<Rightarrow> regs \<Rightarrow> stop" where
  "at_syscall p op r = \<lparr>stop_status = PtraceSyscall p, st_op = op, st_msg = 0, st_regs = r\<rparr>"

definition at_clone :: "pid \<Rightarrow> pid \<Rightarrow> stop" where
  "at_clone p c = \<lparr>stop_status = PtraceEvent p SIGTRAP PTRACE_EVENT_CLONE, st_op = 0,
    st_msg = word_of_int c, st_regs = no_regs\<rparr>"

text \<open>
  Init 1 clones thread 2 and goes on until its next syscall boundary, where thread 2 gets its turn;
  then init dies with code 7.
\<close>

definition two_threads :: "stop list" where
  "two_threads =
    [at_syscall 1 PTRACE_SYSCALL_INFO_ENTRY (no_regs\<lparr>orig_rax := 56, rdi := CLONE_THREAD\<rparr>),
     at_clone 1 2, at_stop (Stopped 2 SIGSTOP),
     at_syscall 1 PTRACE_SYSCALL_INFO_EXIT no_regs,
     at_syscall 2 PTRACE_SYSCALL_INFO_ENTRY (no_regs\<lparr>orig_rax := 1\<rparr>),
     at_syscall 2 PTRACE_SYSCALL_INFO_EXIT no_regs,
     at_stop (Exited 1 7)]"

end
