(* ===== verification/TraceSpec.thy ===== *)
theory TraceSpec
  imports Progress
begin

text \<open>
  The abstract specification of an execution trace, and the refinement: every record the supervisor
  writes is explained by the seed. \<open>accepts\<close> is a replay checker that knows nothing but the sequence
  number, the last scheduled thread, the next virtual thread id, the generator and the tick counter;
  the supervisor's trace is always accepted by it, whatever the kernel reports.
\<close>

section \<open>The replay checker\<close>

record trace_state =
  ts_seq :: u64
  ts_last :: "u64 option"
  ts_vtid :: u64
  ts_rng :: prng
  ts_tick :: u64

definition is_kind :: "json \<Rightarrow> bool" where
  "is_kind d \<longleftrightarrow> (case d of JObj [(f, JStr k)] \<Rightarrow> f = ''kind'' | _ \<Rightarrow> False)"

definition accept_schedule :: "json \<Rightarrow> trace_state \<Rightarrow> trace_state option" where
  "accept_schedule d a = (case d of
      JObj [(f, from), (t, JNum n)] \<Rightarrow>
        if f = ''from'' \<and> t = ''to'' \<and> from = json_opt (ts_last a)
          \<and> uint (word_of_int n :: u64) = n \<and> ts_last a \<noteq> Some (word_of_int n)
        then Some (a\<lparr>ts_last := Some (word_of_int n)\<rparr>) else None
    | _ \<Rightarrow> None)"

definition accept_getrandom :: "json \<Rightarrow> trace_state \<Rightarrow> trace_state option" where
  "accept_getrandom d a = (if is_kind d then Some a else case d of
      JObj [(f, JNum n), (b, JStr h)] \<Rightarrow>
        (case fill (ts_rng a) (nat n) of (out, g) \<Rightarrow>
          if f = ''nbytes'' \<and> b = ''bytes'' \<and> 0 \<le> n \<and> n \<le> 2 ^ 20 \<and> h = hex_bytes out
          then Some (a\<lparr>ts_rng := g\<rparr>) else None)
    | _ \<Rightarrow> None)"

definition accept_clock_gettime :: "json \<Rightarrow> trace_state \<Rightarrow> trace_state option" where
  "accept_clock_gettime d a = (if is_kind d then Some a else case d of
      JObj [(f, JNum clk), (s, JNum sec), (n, JNum nsec)] \<Rightarrow>
        (case virtual_clock clk (ts_tick a) of (r, t) \<Rightarrow>
          if f = ''clock'' \<and> s = ''sec'' \<and> n = ''nsec'' \<and> sec = uint (fst r) \<and> nsec = uint (snd r)
          then Some (a\<lparr>ts_tick := t\<rparr>) else None)
    | _ \<Rightarrow> None)"

definition accept_gettimeofday :: "json \<Rightarrow> trace_state \<Rightarrow> trace_state option" where
  "accept_gettimeofday d a =
    (if is_kind d \<or> d = JObj [(''sec'', json_u64 VIRTUAL_EPOCH), (''usec'', JNum 0)]
     then Some a else None)"

definition accept_thread_create :: "json \<Rightarrow> trace_state \<Rightarrow> trace_state option" where
  "accept_thread_create d a = (case d of
      JObj [(f, JNum v), (s, JBool b)] \<Rightarrow>
        if f = ''tid'' \<and> s = ''scheduled'' \<and> v = uint (ts_vtid a)
        then Some (a\<lparr>ts_vtid := ts_vtid a + 1\<rparr>) else None
    | _ \<Rightarrow> None)"

definition accept_detail :: "string \<Rightarrow> json \<Rightarrow> trace_state \<Rightarrow> trace_state option" where
  "accept_detail event d a =
    (if event = ''schedule'' then accept_schedule d a
     else if event = ''getrandom'' then accept_getrandom d a
     else if event = ''clock_gettime'' then accept_clock_gettime d a
     else if event = ''gettimeofday'' then accept_gettimeofday d a
     else if event = ''thread_create'' then accept_thread_create d a
     else Some a)"

definition accept :: "trace_state \<Rightarrow> trace_rec \<Rightarrow> trace_state option" where
  "accept a r =
    (if tr_seq r = ts_seq a + 1
     then accept_detail (tr_event r) (tr_detail r) (a\<lparr>ts_seq := tr_seq r\<rparr>) else None)"

fun accepts :: "trace_state \<Rightarrow> trace_rec list \<Rightarrow> trace_state option" where
  "accepts a [] = Some a"
| "accepts a (r # rs) = (case accept a r of None \<Rightarrow> None | Some a' \<Rightarrow> accepts a' rs)"

definition trace_start :: "u64 \<Rightarrow> trace_state" where
  "trace_start seed =
    \<lparr>ts_seq = 0, ts_last = None, ts_vtid = 1, ts_rng = prng_new seed, ts_tick = 0\<rparr>"

lemma accepts_append:
  "accepts a (rs @ rs') = (case accepts a rs of None \<Rightarrow> None | Some a' \<Rightarrow> accepts a' rs')"
  by (induction rs arbitrary: a) (auto split: option.splits)

lemma accept_detail_seq: "accept_detail e d a = Some a' \<Longrightarrow> ts_seq a' = ts_seq a"
  unfolding accept_detail_def accept_schedule_def accept_getrandom_def accept_clock_gettime_def
    accept_gettimeofday_def accept_thread_create_def
  by (auto split: if_splits json.splits list.splits prod.splits)

lemma accept_seq: "accept a r = Some a' \<Longrightarrow> tr_seq r = ts_seq a + 1 \<and> ts_seq a' = ts_seq a + 1"
  by (auto simp: accept_def dest: accept_detail_seq split: if_splits)

text \<open>An accepted trace is numbered consecutively.\<close>

lemma accepts_numbered:
  "accepts a rs = Some a' \<Longrightarrow>
    map tr_seq rs = map (\<lambda>i. ts_seq a + of_nat (Suc i)) [0..<length rs]
    \<and> ts_seq a' = ts_seq a + of_nat (length rs)"
proof (induction rs arbitrary: a)
  case (Cons r rs)
  then obtain b where b: "accept a r = Some b" "accepts b rs = Some a'"
    by (auto split: option.splits)
  have [simp]: "tr_seq r = ts_seq a + 1" "ts_seq b = ts_seq a + 1"
    using accept_seq [OF b(1)] by auto
  show ?case using Cons.IH [OF b(2)]
    by (simp add: map_upt_Suc add.assoc del: upt_Suc)
qed simp

section \<open>The refinement\<close>

definition abs_trace :: "'k supervisor \<Rightarrow> trace_state" where
  "abs_trace s = \<lparr>ts_seq = seq s, ts_last = last_vtid s, ts_vtid = vtid_next s,
    ts_rng = rng s, ts_tick = tick s\<rparr>"

definition explained :: "'k supervisor \<Rightarrow> 'k supervisor \<Rightarrow> bool" where
  "explained s s' \<longleftrightarrow>
    (\<exists>new. events s' = events s @ new \<and> accepts (abs_trace s) new = Some (abs_trace s'))"

text \<open>
  After an error a draw or a tick may not have been recorded (the write into the tracee failed), but
  what was recorded is still accepted.
\<close>

definition explained_err :: "'k supervisor \<Rightarrow> 'k supervisor \<Rightarrow> bool" where
  "explained_err s s' \<longleftrightarrow>
    (\<exists>new a. events s' = events s @ new \<and> accepts (abs_trace s) new = Some a)"

definition silent :: "'k supervisor \<Rightarrow> 'k supervisor \<Rightarrow> bool" where
  "silent s s' \<longleftrightarrow> events s' = events s \<and> abs_trace s' = abs_trace s"

interpretation tr: evolution "explained :: 'k supervisor \<Rightarrow> _" explained_err
proof unfold_locales
  show "explained s s" for s :: "'k supervisor"
    by (auto simp: explained_def)
  show "explained s u" if "explained s t" "explained t u" for s t u :: "'k supervisor"
    using that unfolding explained_def by (metis accepts_append append.assoc option.simps(5))
  show "explained_err s u" if "explained s t" "explained_err t u" for s t u :: "'k supervisor"
    using that unfolding explained_def explained_err_def
    by (metis accepts_append append.assoc option.simps(5))
  show "explained_err s t" if "explained s t" for s t :: "'k supervisor"
    using that unfolding explained_def explained_err_def by blast
qed

interpretation sil: evolution "silent :: 'k supervisor \<Rightarrow> _" silent
  by unfold_locales (auto simp: silent_def)

lemma silent_explained: "silent s t \<Longrightarrow> explained s t"
  by (auto simp: silent_def explained_def)

lemma moves_silent: "moves silent silent m \<Longrightarrow> moves explained explained_err m"
  by (rule moves_weaken [where T' = silent and E' = silent])
    (auto intro: silent_explained tr.T_E)

named_theorems silent_intros \<open>operations that leave the trace and the seed-driven state alone\<close>
named_theorems explained_intros \<open>operations whose trace records are accepted\<close>

lemma silent_modify:
  assumes "\<And>s. events (f s) = events s" and "\<And>s. abs_trace (f s) = abs_trace s"
  shows "moves silent silent (modify f)"
  by (rule sil.moves_modify) (simp add: silent_def assms)

lemma kcall_silent [silent_intros]: "moves silent silent (kcall f w)"
  by (rule movesI) (auto simp: kcall_def silent_def abs_trace_def split: prod.splits sum.splits)

lemma take_signal_silent [silent_intros]: "moves silent silent (take_signal p)"
  by (rule movesI) (auto simp: take_signal_def silent_def abs_trace_def)

lemma resume_thread_silent [silent_intros]: "moves silent silent (resume_thread K p)"
  unfolding resume_thread_def by (intro sil.moves_intros silent_intros)

lemma resume_current_silent [silent_intros]: "moves silent silent (resume_current K p)"
  unfolding resume_current_def by (intro sil.moves_intros silent_intros)

lemma resume_either_silent [silent_intros]: "moves silent silent (resume_either K p)"
  unfolding resume_either_def by (intro sil.moves_intros silent_intros)

lemma release_task_silent [silent_intros]: "moves silent silent (release_task K p)"
  unfolding release_task_def
  by (intro sil.moves_intros silent_intros silent_modify) (auto simp: abs_trace_def)

lemma write_proc_mem_silent [silent_intros]: "moves silent silent (write_proc_mem K p a d)"
  unfolding write_proc_mem_def by (intro sil.moves_intros silent_intros)

lemma read_proc_mem_silent [silent_intros]: "moves silent silent (read_proc_mem K p a n)"
  unfolding read_proc_mem_def by (intro sil.moves_intros silent_intros)

lemma read_u32_silent [silent_intros]: "moves silent silent (read_u32 K p a)"
  unfolding read_u32_def by (intro sil.moves_intros silent_intros)

lemma skip_syscall_silent [silent_intros]: "moves silent silent (skip_syscall K p nr v)"
  unfolding skip_syscall_def
  by (intro sil.moves_intros silent_intros silent_modify) (auto simp: abs_trace_def)

lemma stash_clone_silent [silent_intros]: "moves silent silent (stash_clone K p nr r)"
  unfolding stash_clone_def
  by (intro sil.moves_intros sil.moves_attempt silent_intros silent_modify)
    (auto simp: abs_trace_def case_prod_beta intro!: silent_modify)

lemma wake_frame:
  "events (snd (wake a v s)) = events s" "abs_trace (snd (wake a v s)) = abs_trace s"
  by (auto simp: wake_def Let_def abs_trace_def split: option.splits prod.splits)

lemma sv_wake_silent [silent_intros]: "moves silent silent (sv_wake a v)"
proof (rule movesI)
  fix s s' :: "'k supervisor" and n
  assume "sv_wake a v s = (Ok n, s')"
  then have "s' = snd (wake a v s)" by (auto simp: sv_wake_def split: prod.splits)
  then show "silent s s'" by (simp add: silent_def wake_frame)
qed (auto simp: sv_wake_def split: prod.splits)

section \<open>Operations that write records\<close>

lemma record_explained:
  assumes "events s' = events s" and "seq s' = seq s"
    and "accept_detail e d ((abs_trace s)\<lparr>ts_seq := seq s + 1\<rparr>)
      = Some ((abs_trace s')\<lparr>ts_seq := seq s + 1\<rparr>)"
  shows "explained s (trace_json_st e d s')"
  using assms
  by (auto simp: explained_def trace_json_st_def Let_def accept_def abs_trace_def)

text \<open>The shape of an interception: draw something, do silent work, then record the draw.\<close>

lemma commit_explained:
  assumes m: "moves silent silent m" and rt: "returns m"
    and ev: "events s1 = events s" and sq: "seq s1 = seq s"
    and acc: "accept_detail e d ((abs_trace s)\<lparr>ts_seq := seq s + 1\<rparr>)
      = Some ((abs_trace s1)\<lparr>ts_seq := seq s + 1\<rparr>)"
  shows "case andthen m (trace_json e d) s1 of
      (Ok a, s') \<Rightarrow> explained s s' | (Err x, s') \<Rightarrow> explained_err s s'
    | (More, s') \<Rightarrow> explained s s'"
proof -
  obtain r t where mr: "m s1 = (r, t)" by (cases "m s1")
  show ?thesis
  proof (cases r)
    case (Ok a)
    then have "silent s1 t" using moves_Ok [OF m] mr by blast
    then have "events t = events s" "seq t = seq s" "abs_trace t = abs_trace s1"
      using ev sq by (auto simp: silent_def abs_trace_def)
    then have "explained s (trace_json_st e d t)" using acc by (intro record_explained) auto
    then show ?thesis using mr Ok by (simp add: andthen_apply trace_json_def modify_apply)
  next
    case (Err x)
    then have "silent s1 t" using moves_Err [OF m] mr by blast
    then have "explained_err s t"
      using ev by (auto simp: silent_def explained_err_def intro: exI [of _ "[]"])
    then show ?thesis using mr Err by (simp add: andthen_apply)
  next
    case More
    then show ?thesis using mr returnsD [OF rt] by blast
  qed
qed

lemma draw_commit:
  assumes m: "\<And>x. moves silent silent (m x)" and rt: "\<And>x. returns (m x)"
    and D: "\<And>s. D s = (Ok (val s), upd s)"
    and ev: "\<And>s. events (upd s) = events s" and sq: "\<And>s. seq (upd s) = seq s"
    and acc: "\<And>s. accept_detail e (d (val s)) ((abs_trace s)\<lparr>ts_seq := seq s + 1\<rparr>)
      = Some ((abs_trace (upd s))\<lparr>ts_seq := seq s + 1\<rparr>)"
  shows "moves explained explained_err (bind D (\<lambda>x. andthen (m x) (trace_json e (d x))))"
  unfolding moves_def bind_apply D outcome.case prod.case
  by (intro allI commit_explained [OF m rt ev sq acc])

lemma trace_json_explained:
  assumes "\<And>a. accept_detail e d a = Some a"
  shows "moves explained explained_err (trace_json e d)"
  unfolding trace_json_def
  by (intro tr.moves_modify record_explained) (simp_all add: assms abs_trace_def)

lemma syscall_name_not_reserved:
  "syscall_name nr \<noteq> ''schedule'' \<and> syscall_name nr \<noteq> ''thread_create''"
proof (cases "map_of syscall_names nr")
  case (Some n)
  then have n: "n \<in> snd ` set syscall_names" by (force dest: map_of_SomeD)
  have "''schedule'' \<notin> snd ` set syscall_names"
    "''thread_create'' \<notin> snd ` set syscall_names"
    by (simp_all add: syscall_names_def)
  then have "n \<noteq> ''schedule'' \<and> n \<noteq> ''thread_create''" using n by blast
  then show ?thesis using Some by (simp add: syscall_name_def)
qed (simp add: syscall_name_def)

lemma trace_syscall_explained [explained_intros]:
  "moves explained explained_err (trace_syscall nr kind)"
  unfolding trace_syscall_def using syscall_name_not_reserved [of nr]
  by (intro trace_json_explained)
    (simp add: accept_detail_def accept_getrandom_def accept_clock_gettime_def
      accept_gettimeofday_def is_kind_def)

lemma trace_futex_explained [explained_intros]:
  "moves explained explained_err (trace_futex p op_name kind)"
  unfolding trace_futex_def
  by (intro tr.moves_intros trace_json_explained) (simp add: accept_detail_def)

lemma trace_lifecycle_explained [explained_intros]:
  "e \<in> {''exit'', ''signal''} \<Longrightarrow> moves explained explained_err (trace_lifecycle e code)"
  unfolding trace_lifecycle_def by (intro trace_json_explained) (auto simp: accept_detail_def)

section \<open>Interceptions\<close>

lemma getrandom_len: "uint (min x GETRANDOM_MAX) \<le> 2 ^ 20"
proof -
  have "min x GETRANDOM_MAX \<le> GETRANDOM_MAX" by simp
  then have "uint (min x GETRANDOM_MAX) \<le> uint GETRANDOM_MAX"
    by (simp add: word_le_def)
  then show ?thesis by (simp add: GETRANDOM_MAX_def)
qed

lemma intercept_getrandom_explained [explained_intros]:
  "moves explained explained_err (intercept_getrandom K p r)"
proof -
  let ?len = "min (rsi r) GETRANDOM_MAX"
  have "moves explained explained_err (bind (draw_bytes (unat ?len)) (\<lambda>out.
      andthen (andthen (if 0 < ?len then write_proc_mem K p (rdi r) out else ret ())
          (skip_syscall K p SYS_getrandom (sint ?len)))
        (trace_json ''getrandom''
          (JObj [(''nbytes'', json_u64 ?len), (''bytes'', JStr (hex_bytes out))]))))"
  proof (rule draw_commit [where val = "\<lambda>s. fst (fill (rng s) (unat ?len))"
        and upd = "\<lambda>s. s\<lparr>rng := snd (fill (rng s) (unat ?len))\<rparr>"])
    show "draw_bytes (unat ?len) s = (Ok (fst (fill (rng s) (unat ?len))),
        s\<lparr>rng := snd (fill (rng s) (unat ?len))\<rparr>)" for s :: "'a supervisor"
      by (simp add: draw_bytes_def split: prod.split)
  qed (use getrandom_len [of "rsi r"] in \<open>auto intro!: sil.moves_intros silent_intros returns_intros
      simp: accept_detail_def accept_getrandom_def is_kind_def json_u64_def abs_trace_def
        nat_uint_eq split: prod.split\<close>)
  then show ?thesis by (simp add: intercept_getrandom_def Let_def andthen_assoc)
qed

lemma read_clock_apply:
  "read_clock clk s = (Ok (fst (virtual_clock clk (tick s))),
    s\<lparr>tick := snd (virtual_clock clk (tick s))\<rparr>)"
  by (simp add: read_clock_def split: prod.split)

lemma intercept_clock_gettime_explained [explained_intros]:
  "moves explained explained_err (intercept_clock_gettime K p r)"
proof -
  let ?clk = "as_i32 (rdi r)"
  have "moves explained explained_err (bind (read_clock ?clk) (\<lambda>x.
      andthen (andthen (write_proc_mem K p (rsi r) (to_le_bytes (fst x) @ to_le_bytes (snd x)))
          (skip_syscall K p SYS_clock_gettime 0))
        (trace_json ''clock_gettime'' (JObj [(''clock'', JNum ?clk),
          (''sec'', json_u64 (fst x)), (''nsec'', json_u64 (snd x))]))))"
    by (rule draw_commit [OF _ _ read_clock_apply])
      (auto intro!: sil.moves_intros silent_intros returns_intros
        simp: accept_detail_def accept_clock_gettime_def is_kind_def json_u64_def abs_trace_def
        split: prod.split)
  then show ?thesis
    by (simp add: intercept_clock_gettime_def Let_def andthen_assoc case_prod_beta')
qed

lemma intercept_gettimeofday_explained [explained_intros]:
  "moves explained explained_err (intercept_gettimeofday K p r)"
proof -
  have rt: "virtual_clock CLOCK_REALTIME t = ((VIRTUAL_EPOCH, 0), t)" for t
    by (simp add: virtual_clock_def)
  have "moves explained explained_err (bind (read_clock CLOCK_REALTIME) (\<lambda>x.
      andthen (andthen
          (write_proc_mem K p (rdi r) (to_le_bytes (fst x) @ to_le_bytes (snd x div 1000)))
          (skip_syscall K p SYS_gettimeofday 0))
        (trace_json ''gettimeofday'' (JObj [(''sec'', json_u64 (fst x)),
          (''usec'', json_u64 (snd x div 1000))]))))"
    by (rule draw_commit [OF _ _ read_clock_apply])
      (auto intro!: sil.moves_intros silent_intros returns_intros
        simp: accept_detail_def accept_gettimeofday_def is_kind_def json_u64_def abs_trace_def rt)
  then show ?thesis
    by (simp add: intercept_gettimeofday_def Let_def andthen_assoc case_prod_beta')
qed

lemma block_silent [silent_intros]: "moves silent silent (modify (block p a))"
  by (intro silent_modify) (auto simp: block_def abs_trace_def)

lemma intercept_futex_explained [explained_intros]:
  "moves explained explained_err (intercept_futex K p r)"
  unfolding intercept_futex_def Let_def
  by (intro tr.moves_intros explained_intros moves_silent [OF sil.moves_attempt]
      moves_silent [OF sv_wake_silent] moves_silent [OF skip_syscall_silent]
      moves_silent [OF block_silent] silent_intros)

lemma on_syscall_exit_explained [explained_intros]:
  "moves explained explained_err (on_syscall_exit K p)"
  unfolding on_syscall_exit_def
  by (intro tr.moves_intros explained_intros moves_silent [OF kcall_silent]
      moves_silent [OF silent_modify]) (auto simp: abs_trace_def)

lemma on_syscall_entry_explained [explained_intros]:
  "moves explained explained_err (on_syscall_entry K p)"
  unfolding on_syscall_entry_def Let_def
  by (intro tr.moves_intros explained_intros moves_silent [OF kcall_silent]
      moves_silent [OF stash_clone_silent] moves_silent [OF silent_modify])
    (auto simp: abs_trace_def)

section \<open>Scheduling, threads, the event loop\<close>

lemma explained_then_silent:
  assumes "explained s t" and m: "moves silent silent m"
  shows "case m t of (Ok a, s') \<Rightarrow> explained s s' | (Err e, s') \<Rightarrow> explained_err s s'
    | (More, s') \<Rightarrow> explained s s'"
proof -
  have "case m t of (Ok a, s') \<Rightarrow> explained t s' | (Err e, s') \<Rightarrow> explained_err t s'
    | (More, s') \<Rightarrow> explained t s'"
    using moves_silent [OF m] by (simp add: moves_def)
  then show ?thesis
    using assms(1) by (auto split: prod.splits outcome.splits intro: tr.T_trans tr.E_trans)
qed

lemma schedule_event_explained:
  "explained s ((schedule_event t (s\<lparr>runnable := r\<rparr>))\<lparr>last_vtid := Some (vtid t), current := c\<rparr>)"
proof (cases "last_vtid s = Some (vtid t)")
  case True
  then show ?thesis
    by (intro silent_explained) (simp add: schedule_event_def silent_def abs_trace_def)
next
  case False
  let ?s = "s\<lparr>runnable := r, last_vtid := Some (vtid t), current := c\<rparr>"
  have "explained s (trace_json_st ''schedule''
      (JObj [(''from'', json_opt (last_vtid s)), (''to'', json_u64 (vtid t))]) ?s)"
    using False
    by (intro record_explained)
      (auto simp: accept_detail_def accept_schedule_def abs_trace_def json_u64_def)
  moreover have "trace_json_st e d ?s
      = (trace_json_st e d (s\<lparr>runnable := r\<rparr>))\<lparr>last_vtid := Some (vtid t), current := c\<rparr>" for e d
    by (simp add: trace_json_st_def Let_def)
  ultimately show ?thesis using False by (simp add: schedule_event_def)
qed

lemma schedule_next_explained [explained_intros]:
  "moves explained explained_err (schedule_next K)"
  unfolding moves_def schedule_next_def
  by (auto intro!: explained_then_silent [OF schedule_event_explained resume_thread_silent]
      silent_explained tr.T_E simp: silent_def abs_trace_def split: option.splits)

lemma yield_current_explained [explained_intros]:
  "moves explained explained_err (yield_current K p)"
  unfolding yield_current_def
  by (intro tr.moves_intros explained_intros moves_silent [OF silent_modify])
    (auto simp: abs_trace_def)

lemma forget_pid_silent: "silent s (forget_pid p s)"
  by (simp add: silent_def forget_pid_def abs_trace_def)

lemma exit_registered_explained: "explained s (exit_registered p rec t s)"
proof -
  let ?s1 = "s\<lparr>threads := AList.delete p (threads s)\<rparr>"
  define s2 where "s2 = (if child_tid t \<noteq> 0 \<and> flags t AND CLONE_CHILD_CLEARTID \<noteq> 0
               then snd (wake (child_tid t) 1 ?s1) else ?s1)"
  have s2: "events s2 = events s" "abs_trace s2 = abs_trace s" "seq s2 = seq s"
    using wake_frame [of "child_tid t" 1 ?s1] by (auto simp: s2_def abs_trace_def)
  let ?e = "trace_json_st ''thread_exit'' (JObj [(''tid'', json_u64 (vtid t))])"
  have "explained s (?e s2)"
    by (rule record_explained) (auto simp: s2 accept_detail_def)
  moreover have "silent (?e s2) ((?e s2)\<lparr>pending := f\<rparr>)" "silent s (s2\<lparr>pending := f\<rparr>)" for f
    using s2 by (auto simp: silent_def abs_trace_def)
  ultimately show ?thesis
    unfolding exit_registered_def Let_def s2_def [symmetric]
    using silent_explained tr.T_trans by (cases rec) (auto, blast)
qed

lemma on_thread_exit_explained [explained_intros]:
  "moves explained explained_err (on_thread_exit p rec)"
  unfolding on_thread_exit_def
  by (intro tr.moves_modify) (auto split: option.splits
      intro: tr.T_trans [OF exit_registered_explained silent_explained [OF forget_pid_silent]]
        silent_explained [OF forget_pid_silent])

lemma register_thread_explained [explained_intros]:
  "moves explained explained_err (register_thread K p info)"
proof -
  have main: "moves explained explained_err (bind (gets vtid_next) (\<lambda>v.
        andthen (modify (\<lambda>s. s\<lparr>vtid_next := vtid_next s + 1,
            threads := AList.update p (th v) (threads s)\<rparr>))
        (andthen m (trace_json ''thread_create''
            (JObj [(''tid'', json_u64 v), (''scheduled'', JBool b)])))))"
    if m: "moves silent silent m" "returns m" for m :: "('k, unit) sv" and b th
    unfolding moves_def bind_apply gets_apply outcome.case prod.case andthen_apply [of "modify _"]
      modify_apply
    by (intro allI commit_explained [OF m])
      (auto simp: abs_trace_def accept_detail_def accept_thread_create_def json_u64_def)
  show ?thesis
    unfolding register_thread_def Let_def
    by (intro tr.moves_bind [OF tr.moves_gets] tr.moves_if tr.moves_ret main
        sil.moves_intros silent_intros silent_modify returns_intros)
      (auto simp: abs_trace_def)
qed

lemma dispatch_syscall_explained [explained_intros]:
  "moves explained explained_err (dispatch_syscall K p)"
  unfolding dispatch_syscall_def
  by (intro tr.moves_intros explained_intros moves_silent [OF kcall_silent]
      moves_silent [OF resume_thread_silent] moves_silent [OF resume_current_silent]
      moves_silent [OF silent_modify]) (auto simp: abs_trace_def)

lemma take_clone_info_silent [silent_intros]: "moves silent silent (take_clone_info p)"
  by (rule movesI) (auto simp: take_clone_info_def silent_def abs_trace_def)

lemma dispatch_event_explained:
  assumes "\<And>c. moves explained explained_err (aw c)"
  shows "moves explained explained_err (dispatch_event K aw p ev)"
  unfolding dispatch_event_def Let_def
  by (intro tr.moves_intros explained_intros assms moves_silent [OF kcall_silent]
      moves_silent [OF resume_thread_silent] moves_silent [OF resume_either_silent]
      moves_silent [OF take_clone_info_silent])

lemma dispatch_stopped_silent [silent_intros]: "moves silent silent (dispatch_stopped K p sig)"
  unfolding dispatch_stopped_def
  by (intro sil.moves_intros silent_intros silent_modify) (auto simp: abs_trace_def)

lemma dispatch_gone_explained [explained_intros]:
  "moves explained explained_err (dispatch_gone K p)"
  unfolding dispatch_gone_def
  by (intro tr.moves_intros explained_intros moves_silent [OF silent_modify])
    (auto simp: abs_trace_def)

lemma dispatch_explained:
  assumes "\<And>c. moves explained explained_err (aw c)"
  shows "moves explained explained_err (dispatch K aw st)"
  unfolding dispatch_def
  by (cases st; simp only: wait_status.case)
    (intro tr.moves_intros explained_intros dispatch_event_explained assms
      moves_silent [OF dispatch_stopped_silent]; simp)+

lemma await_attach_explained:
  "(\<And>c. moves explained explained_err (lp c)) \<Longrightarrow> moves explained explained_err (await_attach lp c)"
  unfolding await_attach_def by (intro tr.moves_intros) auto

lemma await_loop_explained: "moves explained explained_err (await_loop K n c)"
proof (induction n arbitrary: c)
  case (Suc n)
  show ?case
    unfolding await_loop.simps sv_wait_def
    by (intro tr.moves_intros moves_silent [OF kcall_silent] moves_silent [OF release_task_silent]
        moves_silent [OF silent_modify] dispatch_explained await_attach_explained Suc)
      (auto simp: abs_trace_def)
qed (simp add: tr.moves_intros)

lemma run_loop_explained: "moves explained explained_err (run_loop K n)"
proof (induction n)
  case (Suc n)
  show ?case
    unfolding run_loop.simps sv_wait_def
    by (intro tr.moves_intros moves_silent [OF kcall_silent] explained_intros dispatch_explained
        await_attach_explained await_loop_explained Suc)
qed (simp add: tr.moves_intros)

lemma run_explained: "moves explained explained_err (run K n)"
  unfolding run_def by (intro tr.moves_intros explained_intros run_loop_explained)

lemma abs_trace_new [simp]: "abs_trace (supervisor_new p seed root i k) = trace_start seed"
  by (simp add: abs_trace_def trace_start_def supervisor_new_def)

lemma events_new [simp]: "events (supervisor_new p seed root i k) = []"
  by (simp add: supervisor_new_def)

lemma supervise_accepted:
  assumes "supervise K n p seed root i k = (r, s)"
  shows "\<exists>a. accepts (trace_start seed) (events s) = Some a \<and> ((\<forall>e. r \<noteq> Err e) \<longrightarrow> a = abs_trace s)"
proof -
  have "explained_err (supervisor_new p seed root i k) s"
    and "(\<forall>e. r \<noteq> Err e) \<longrightarrow> explained (supervisor_new p seed root i k) s"
    using assms moves_Ok [OF run_explained] moves_Err [OF run_explained]
      moves_More [OF run_explained] tr.T_E
    unfolding supervise_def by (cases r; blast)+
  then show ?thesis
    by (auto simp: explained_def explained_err_def)
qed

end
