(* ===== verification/TraceLaws.thy ===== *)
theory TraceLaws
  imports TraceSpec
begin

text \<open>
  What a reader of \<open>trace.jsonl\<close> can rely on, as laws of the observations a trace contains: which
  virtual threads were created, which context switches happened, which random bytes were handed out,
  what the monotonic clock read. Each law is one instance of the locale \<open>ledger\<close>, which says that an
  accepted trace replays, for one component of the replay state, as a run of a small machine.
\<close>

section \<open>Ledgers\<close>

primrec replay :: "('x \<Rightarrow> 'o \<Rightarrow> 'x option) \<Rightarrow> 'x \<Rightarrow> 'o list \<Rightarrow> 'x option" where
  "replay nxt x [] = Some x"
| "replay nxt x (y # ys) = (case nxt x y of None \<Rightarrow> None | Some x' \<Rightarrow> replay nxt x' ys)"

locale ledger =
  fixes sel :: "trace_state \<Rightarrow> 'x"
    and obs :: "trace_rec \<Rightarrow> 'o option"
    and nxt :: "'x \<Rightarrow> 'o \<Rightarrow> 'x option"
  assumes accept_obs: "accept a r = Some a' \<Longrightarrow>
    (case obs r of None \<Rightarrow> sel a' = sel a | Some y \<Rightarrow> nxt (sel a) y = Some (sel a'))"
begin

lemma accepts_replay:
  "accepts a rs = Some a' \<Longrightarrow> replay nxt (sel a) (List.map_filter obs rs) = Some (sel a')"
proof (induction rs arbitrary: a)
  case (Cons r rs)
  then obtain b where b: "accept a r = Some b" "accepts b rs = Some a'"
    by (auto split: option.splits)
  show ?case
    using accept_obs [OF b(1)] Cons.IH [OF b(2)]
    by (cases "obs r") (simp_all add: List.map_filter_simps)
qed (simp add: List.map_filter_simps)

lemma supervise_replay:
  "\<exists>x. replay nxt (sel (trace_start seed))
    (List.map_filter obs (events (snd (supervise K n p seed root i k)))) = Some x"
  using supervise_accepted [OF prod.collapse [symmetric, of "supervise K n p seed root i k"]]
    accepts_replay by blast

end

lemma replay_Cons:
  "replay nxt x (y # ys) = Some z \<longleftrightarrow> (\<exists>x'. nxt x y = Some x' \<and> replay nxt x' ys = Some z)"
  by (auto split: option.splits)

lemmas replay_simps = replay.simps(1) replay_Cons

section \<open>What a record shows\<close>

definition created_tid :: "trace_rec \<Rightarrow> int option" where
  "created_tid r = (if tr_event r = ''thread_create'' then
      (case tr_detail r of JObj ((_, JNum v) # _) \<Rightarrow> Some v | _ \<Rightarrow> None) else None)"

definition switch :: "trace_rec \<Rightarrow> (json \<times> int) option" where
  "switch r = (if tr_event r = ''schedule'' then
      (case tr_detail r of JObj [(_, from), (_, JNum to)] \<Rightarrow> Some (from, to) | _ \<Rightarrow> None) else None)"

definition drawn :: "trace_rec \<Rightarrow> (nat \<times> string) option" where
  "drawn r = (if tr_event r = ''getrandom'' \<and> \<not> is_kind (tr_detail r) then
      (case tr_detail r of JObj [(_, JNum n), (_, JStr h)] \<Rightarrow> Some (nat n, h) | _ \<Rightarrow> None) else None)"

definition mono_read :: "trace_rec \<Rightarrow> (int \<times> int) option" where
  "mono_read r = (if tr_event r = ''clock_gettime'' \<and> \<not> is_kind (tr_detail r) then
      (case tr_detail r of
        JObj [(_, JNum clk), (_, JNum sec), (_, JNum nsec)] \<Rightarrow>
          if is_monotonic clk then Some (sec, nsec) else None
      | _ \<Rightarrow> None) else None)"

text \<open>The machines the observations are runs of.\<close>

definition tid_step :: "u64 \<Rightarrow> int \<Rightarrow> u64 option" where
  "tid_step v n = (if n = uint v then Some (v + 1) else None)"

definition switch_step :: "u64 option \<Rightarrow> json \<times> int \<Rightarrow> u64 option option" where
  "switch_step l y = (case y of (from, to) \<Rightarrow>
     if from = json_opt l \<and> uint (word_of_int to :: u64) = to \<and> l \<noteq> Some (word_of_int to)
     then Some (Some (word_of_int to)) else None)"

definition draw_step :: "prng \<Rightarrow> nat \<times> string \<Rightarrow> prng option" where
  "draw_step g y = (case y of (n, h) \<Rightarrow>
     if n \<le> 2 ^ 20 \<and> h = hex_bytes (fst (fill g n)) then Some (snd (fill g n)) else None)"

definition tick_step :: "u64 \<Rightarrow> int \<times> int \<Rightarrow> u64 option" where
  "tick_step t y = (case y of (sec, nsec) \<Rightarrow>
     if sec = uint (t * MONO_STEP_NS div 1000000000)
       \<and> nsec = uint (t * MONO_STEP_NS mod 1000000000)
     then Some (t + 1) else None)"

lemmas accept_defs = accept_def accept_detail_def accept_schedule_def accept_getrandom_def
  accept_clock_gettime_def accept_gettimeofday_def accept_thread_create_def

text \<open>An accepted record, by the component of the replay state it moves.\<close>

lemma accept_cases:
  assumes "accept a r = Some a'"
  obtains (schedule) "tr_event r = ''schedule''"
      "accept_schedule (tr_detail r) (a\<lparr>ts_seq := tr_seq r\<rparr>) = Some a'"
  | (getrandom) "tr_event r = ''getrandom''"
      "accept_getrandom (tr_detail r) (a\<lparr>ts_seq := tr_seq r\<rparr>) = Some a'"
  | (clock_gettime) "tr_event r = ''clock_gettime''"
      "accept_clock_gettime (tr_detail r) (a\<lparr>ts_seq := tr_seq r\<rparr>) = Some a'"
  | (thread_create) "tr_event r = ''thread_create''"
      "accept_thread_create (tr_detail r) (a\<lparr>ts_seq := tr_seq r\<rparr>) = Some a'"
  | (other) "tr_event r \<noteq> ''schedule''" "tr_event r \<noteq> ''getrandom''"
      "tr_event r \<noteq> ''clock_gettime''" "tr_event r \<noteq> ''thread_create''"
      "a' = a\<lparr>ts_seq := tr_seq r\<rparr>"
  using assms unfolding accept_def accept_detail_def accept_gettimeofday_def
  by (auto split: if_splits)

lemma case_json_Some:
  "(case d of JObj kvs \<Rightarrow> f kvs | _ \<Rightarrow> None) = Some x \<longleftrightarrow> (\<exists>kvs. d = JObj kvs \<and> f kvs = Some x)"
  "(case d of JNum n \<Rightarrow> g n | _ \<Rightarrow> None) = Some x \<longleftrightarrow> (\<exists>n. d = JNum n \<and> g n = Some x)"
  "(case d of JStr t \<Rightarrow> h t | _ \<Rightarrow> None) = Some x \<longleftrightarrow> (\<exists>t. d = JStr t \<and> h t = Some x)"
  "(case d of JBool b \<Rightarrow> q b | _ \<Rightarrow> None) = Some x \<longleftrightarrow> (\<exists>b. d = JBool b \<and> q b = Some x)"
  by (cases d; auto)+

lemma case_list_Some:
  "(case xs of [] \<Rightarrow> None | y # ys \<Rightarrow> f y ys) = Some x \<longleftrightarrow> (\<exists>y ys. xs = y # ys \<and> f y ys = Some x)"
  "(case xs of [] \<Rightarrow> v | y # ys \<Rightarrow> None) = Some x \<longleftrightarrow> xs = [] \<and> v = Some x"
  by (cases xs; auto)+

lemma case_prod_Some: "(case y of (a, b) \<Rightarrow> f a b) = Some x \<longleftrightarrow> (\<exists>a b. y = (a, b) \<and> f a b = Some x)"
  by (cases y) auto

lemma if_Some: "(if b then Some y else None) = Some x \<longleftrightarrow> b \<and> y = x"
  by simp

lemmas case_Some = case_json_Some case_list_Some case_prod_Some

lemma accept_schedule_Some:
  assumes "accept_schedule d a = Some a'"
  obtains n where "d = JObj [(''from'', json_opt (ts_last a)), (''to'', JNum n)]"
    "uint (word_of_int n :: u64) = n" "ts_last a \<noteq> Some (word_of_int n)"
    "a' = a\<lparr>ts_last := Some (word_of_int n)\<rparr>"
  using assms unfolding accept_schedule_def by (auto simp: case_Some split: if_split_asm)

lemma accept_getrandom_Some:
  assumes "accept_getrandom d a = Some a'"
  obtains (kind) "is_kind d" "a' = a"
  | (draw) n h where "\<not> is_kind d" "d = JObj [(''nbytes'', JNum n), (''bytes'', JStr h)]"
    "0 \<le> n" "n \<le> 2 ^ 20" "h = hex_bytes (fst (fill (ts_rng a) (nat n)))"
    "a' = a\<lparr>ts_rng := snd (fill (ts_rng a) (nat n))\<rparr>"
proof (cases "is_kind d")
  case False
  with assms obtain n h out g where "d = JObj [(''nbytes'', JNum n), (''bytes'', JStr h)]"
    "0 \<le> n" "n \<le> 2 ^ 20" "h = hex_bytes out" "a' = a\<lparr>ts_rng := g\<rparr>"
    "fill (ts_rng a) (nat n) = (out, g)"
    unfolding accept_getrandom_def if_not_P [OF False] by (simp only: case_Some if_Some) blast
  with False draw show ?thesis by simp
next
  case True
  with assms have "a' = a" unfolding accept_getrandom_def by (simp only: if_P option.inject)
  with True show ?thesis by (rule kind)
qed

lemma accept_clock_gettime_Some:
  assumes "accept_clock_gettime d a = Some a'"
  obtains (kind) "is_kind d" "a' = a"
  | (read) clk where "\<not> is_kind d"
    "d = JObj [(''clock'', JNum clk), (''sec'', json_u64 (fst (fst (virtual_clock clk (ts_tick a))))),
      (''nsec'', json_u64 (snd (fst (virtual_clock clk (ts_tick a)))))]"
    "a' = a\<lparr>ts_tick := snd (virtual_clock clk (ts_tick a))\<rparr>"
proof (cases "is_kind d")
  case False
  with assms obtain clk sec nsec x t where "virtual_clock clk (ts_tick a) = (x, t)"
    "d = JObj [(''clock'', JNum clk), (''sec'', JNum sec), (''nsec'', JNum nsec)]"
    "sec = uint (fst x)" "nsec = uint (snd x)" "a' = a\<lparr>ts_tick := t\<rparr>"
    unfolding accept_clock_gettime_def if_not_P [OF False] by (simp only: case_Some if_Some) blast
  with False read [of clk] show ?thesis by (simp add: json_u64_def)
next
  case True
  with assms have "a' = a" unfolding accept_clock_gettime_def by (simp only: if_P option.inject)
  with True show ?thesis by (rule kind)
qed

lemma accept_thread_create_Some:
  assumes "accept_thread_create d a = Some a'"
  obtains b where "d = JObj [(''tid'', JNum (uint (ts_vtid a))), (''scheduled'', JBool b)]"
    "a' = a\<lparr>ts_vtid := ts_vtid a + 1\<rparr>"
  using assms unfolding accept_thread_create_def by (auto simp: case_Some split: if_split_asm)

lemmas accept_elims = accept_schedule_Some accept_getrandom_Some accept_clock_gettime_Some
  accept_thread_create_Some

lemma is_kind_simps [simp]: "is_kind (JObj [(f, v), w]) = False" "is_kind (JObj [(f, v), w, z]) = False"
  by (simp_all add: is_kind_def split: json.split)

interpretation tids: ledger ts_vtid created_tid tid_step
  by unfold_locales
    (erule accept_cases; (erule accept_elims)?; simp add: created_tid_def tid_step_def)

interpretation switches: ledger ts_last switch switch_step
  by unfold_locales
    (erule accept_cases; (erule accept_elims)?; simp add: switch_def switch_step_def)

interpretation draws: ledger ts_rng drawn draw_step
  by unfold_locales
    (erule accept_cases; (erule accept_elims)?; simp add: drawn_def draw_step_def)

interpretation ticks: ledger ts_tick mono_read tick_step
  by unfold_locales
    (erule accept_cases; (erule accept_elims)?;
      auto simp: mono_read_def tick_step_def json_u64_def virtual_clock_monotonic virtual_clock_other)

section \<open>What a run of each machine looks like\<close>

lemma tid_replay:
  "replay tid_step v ns = Some v' \<Longrightarrow> ns = map (\<lambda>i. uint (v + of_nat i)) [0..<length ns]"
proof (induction ns arbitrary: v)
  case (Cons n ns)
  from Cons.prems obtain x where "tid_step v n = Some x" and ns: "replay tid_step x ns = Some v'"
    by (auto simp only: replay_Cons)
  then have x: "n = uint v" "x = v + 1" by (auto simp: tid_step_def split: if_splits)
  show ?case using Cons.IH [OF ns] x by (simp add: map_upt_Suc add.assoc del: upt_Suc)
qed simp

lemma switch_replay:
  "replay switch_step l ys = Some l' \<Longrightarrow>
    map fst ys = butlast (json_opt l # map (JNum \<circ> snd) ys) \<and> list_all (\<lambda>(f, t). f \<noteq> JNum t) ys"
proof (induction ys arbitrary: l)
  case (Cons y ys)
  obtain f t where y: "y = (f, t)" by (cases y)
  from Cons.prems obtain x where "switch_step l y = Some x" and ys: "replay switch_step x ys = Some l'"
    by (auto simp only: replay_Cons)
  then have x: "x = Some (word_of_int t)" "f = json_opt l" "uint (word_of_int t :: u64) = t"
      "l \<noteq> Some (word_of_int t)"
    by (auto simp: y switch_step_def split: if_splits)
  have "json_opt l \<noteq> JNum t"
    using x(3,4) by (auto simp: json_opt_def json_u64_def split: option.split)
  moreover have "json_opt x = JNum t"
    using x(1,3) by (simp add: json_opt_def json_u64_def)
  ultimately show ?case using Cons.IH [OF ys] x(2) y by simp
qed simp

primrec random_stream :: "prng \<Rightarrow> nat list \<Rightarrow> string list" where
  "random_stream g [] = []"
| "random_stream g (n # ns) =
    (case fill g n of (out, g') \<Rightarrow> hex_bytes out # random_stream g' ns)"

lemma draw_replay:
  "replay draw_step g ys = Some g' \<Longrightarrow>
    map snd ys = random_stream g (map fst ys) \<and> list_all (\<lambda>n. n \<le> 2 ^ 20) (map fst ys)"
proof (induction ys arbitrary: g)
  case (Cons y ys)
  obtain n h where y: "y = (n, h)" by (cases y)
  from Cons.prems obtain x where "draw_step g y = Some x" and ys: "replay draw_step x ys = Some g'"
    by (auto simp only: replay_Cons)
  then have "n \<le> 2 ^ 20" "h = hex_bytes (fst (fill g n))" "x = snd (fill g n)"
    by (auto simp: y draw_step_def split: if_splits)
  then show ?case using Cons.IH [OF ys] y by (simp split: prod.split)
qed simp

lemma tick_replay:
  "replay tick_step t ys = Some t' \<Longrightarrow>
    map (\<lambda>(sec, nsec). sec * 1000000000 + nsec) ys
      = map (\<lambda>i. (uint t + int i) * 1000000 mod 2 ^ 64) [0..<length ys]"
proof (induction ys arbitrary: t)
  case (Cons y ys)
  obtain sec nsec where y: "y = (sec, nsec)" by (cases y)
  from Cons.prems obtain x where "tick_step t y = Some x" and ys: "replay tick_step x ys = Some t'"
    by (auto simp only: replay_Cons)
  then have x: "x = t + 1" "sec = uint (t * MONO_STEP_NS div 1000000000)"
      "nsec = uint (t * MONO_STEP_NS mod 1000000000)"
    by (auto simp: y tick_step_def split: if_splits)
  have "sec * 1000000000 + nsec = uint (t * MONO_STEP_NS)"
    by (simp add: x uint_div uint_mod)
  also have "\<dots> = uint t * 1000000 mod 2 ^ 64"
    by (simp add: MONO_STEP_NS_def uint_word_ariths)
  finally have hd: "sec * 1000000000 + nsec = uint t * 1000000 mod 2 ^ 64" .
  have shift: "(uint (t + 1) + int i) * 1000000 mod 2 ^ 64 = (uint t + int (Suc i)) * 1000000 mod 2 ^ 64"
    for i
  proof -
    have "uint (t + 1) = (uint t + 1) mod 2 ^ 64" by (simp add: uint_word_ariths)
    then have "(uint (t + 1) + int i) mod 2 ^ 64 = (uint t + 1 + int i) mod 2 ^ 64"
      by (simp only: mod_add_left_eq)
    then have "(uint (t + 1) + int i) * 1000000 mod 2 ^ 64 = (uint t + 1 + int i) * 1000000 mod 2 ^ 64"
      by (rule mod_mult_cong) simp
    then show ?thesis by (simp add: add.assoc)
  qed
  have "map (\<lambda>(sec, nsec). sec * 1000000000 + nsec) ys
      = map (\<lambda>i. (uint t + int (Suc i)) * 1000000 mod 2 ^ 64) [0..<length ys]"
    using Cons.IH [OF ys] by (simp only: x(1) shift)
  with hd show ?case by (simp add: y map_upt_Suc del: upt_Suc)
qed simp

section \<open>Properties\<close>

text \<open>
  C3. Refinement of the replay checker: whatever the kernel reports, and however far the supervisor
  has got, every record it has written is accepted by the checker that starts from the seed alone,
  and unless the run ended in an error the checker then knows the supervisor's sequence number, last
  scheduled thread, next virtual thread id, generator and tick.
\<close>

theorem trace_accepted:
  "\<exists>a. accepts (trace_start seed) (events (snd (supervise K n p seed root i k))) = Some a
    \<and> ((\<exists>e. fst (supervise K n p seed root i k) = Err e)
       \<or> a = abs_trace (snd (supervise K n p seed root i k)))"
  using supervise_accepted [OF prod.collapse [symmetric, of "supervise K n p seed root i k"]] by blast

text \<open>
  The records of \<open>trace.jsonl\<close> are numbered 1, 2, 3, ... in the order they are written.
\<close>

theorem trace_numbering:
  "map tr_seq (events (snd (supervise K n p seed root i k)))
    = map of_nat [1..<Suc (length (events (snd (supervise K n p seed root i k))))]"
proof -
  obtain a where "accepts (trace_start seed) (events (snd (supervise K n p seed root i k))) = Some a"
    using supervise_accepted [OF prod.collapse [symmetric, of "supervise K n p seed root i k"]] by blast
  from conjunct1 [OF accepts_numbered [OF this]]
  have "map tr_seq (events (snd (supervise K n p seed root i k)))
      = map (\<lambda>i. of_nat (Suc i)) [0..<length (events (snd (supervise K n p seed root i k)))]"
    by (simp add: trace_start_def)
  also have "\<dots> = map of_nat (map Suc [0..<length (events (snd (supervise K n p seed root i k)))])"
    by simp
  finally show ?thesis by (simp only: map_Suc_upt One_nat_def)
qed

text \<open>
  Virtual thread ids do not depend on the kernel's pids: the \<open>n\<close>-th thread ever registered is
  recorded with id \<open>n\<close> (0 is init), modulo the wrap of the 64-bit counter.
\<close>

theorem created_tids:
  "let tids = List.map_filter created_tid (events (snd (supervise K n p seed root i k)))
   in tids = map (\<lambda>j. (int j + 1) mod 2 ^ 64) [0..<length tids]"
proof -
  let ?tids = "List.map_filter created_tid (events (snd (supervise K n p seed root i k)))"
  obtain x where "replay tid_step 1 ?tids = Some x"
    using tids.supervise_replay [of seed K n p root i k] by (auto simp: trace_start_def)
  then have "?tids = map (\<lambda>i. uint (1 + of_nat i :: u64)) [0..<length ?tids]"
    by (rule tid_replay)
  moreover have "uint (1 + of_nat j :: u64) = (int j + 1) mod 2 ^ 64" for j
  proof -
    have "(1 + of_nat j :: u64) = word_of_int (int j + 1)" by simp
    then show ?thesis by (simp only: uint_word_of_int) simp
  qed
  ultimately show ?thesis by (simp add: Let_def)
qed

text \<open>
  The recorded context switches chain: each one starts from the thread the previous one ended at,
  the first from no thread at all, and a thread rescheduled after itself leaves no record.
\<close>

theorem context_switches:
  "let sw = List.map_filter switch (events (snd (supervise K n p seed root i k)))
   in map fst sw = butlast (JNull # map (JNum \<circ> snd) sw) \<and> list_all (\<lambda>(from, to). from \<noteq> JNum to) sw"
  using switches.supervise_replay [of seed K n p root i k] switch_replay
  by (fastforce simp: trace_start_def json_opt_def Let_def)

text \<open>
  C21. The random bytes handed to the container are a function of the seed and of the sizes asked for
  alone: the recorded outputs of \<open>getrandom\<close> are the successive fills of the generator seeded by the
  seed, each of at most 1 MiB.
\<close>

theorem getrandom_stream:
  "let ds = List.map_filter drawn (events (snd (supervise K n p seed root i k)))
   in map snd ds = random_stream (prng_new seed) (map fst ds) \<and> list_all (\<lambda>m. m \<le> 2 ^ 20) (map fst ds)"
  using draws.supervise_replay [of seed K n p root i k] draw_replay
  by (fastforce simp: trace_start_def Let_def)

text \<open>
  C22. The virtual monotonic clock: the \<open>j\<close>-th recorded reading of a monotonic clock (whichever thread
  or clock id asked) is \<open>j\<close> milliseconds, exactly, until the 64-bit nanosecond count wraps.
\<close>

theorem monotonic_readings:
  "let ms = List.map_filter mono_read (events (snd (supervise K n p seed root i k)))
   in map (\<lambda>(sec, nsec). sec * 1000000000 + nsec) ms
      = map (\<lambda>j. int j * 1000000 mod 2 ^ 64) [0..<length ms]"
  using ticks.supervise_replay [of seed K n p root i k] tick_replay
  by (fastforce simp: trace_start_def Let_def)

end
