(* ===== verification/SchedulerSpec.thy ===== *)
theory SchedulerSpec
  imports Simulator TraceLaws
begin

text \<open>
  Properties of the scheduler, the futex queues and the event loop: who runs, in which order, when
  the supervisor gives up, and that it returns.
\<close>

section \<open>Who runs\<close>

text \<open>
  C1. Safety of the deterministic schedule: under the contract of ptrace, at every \<open>waitpid\<close> of a run
  (and at its end, errors included) the only scheduled thread that can be running is the current one,
  and nothing runs that is not in the thread table. Only processes forked off the container's init
  run besides it.
\<close>

theorem single_runner:
  assumes "ptrace_contract K rn dead" and "rn k = {}"
  shows "let s = snd (supervise K n p seed root i k) in
    rn (kern s) \<inter> {q. is_scheduled q s} \<subseteq> set_option (current s) \<and> rn (kern s) \<subseteq> hm_keys (threads s)"
  using supervise_good [OF assms, of p n seed root i]
  by (auto simp: Let_def good_def vis_def calm_def exclusive_def is_scheduled_def split: option.splits)

lemma single_runner_witness:
  "ptrace_contract sim_kernel sim_running sim_dead \<and> sim_running (sim_start two_threads) = {}
    \<and> (let s = snd (supervise sim_kernel 5 1 42 [] [] (sim_start two_threads)) in
        sim_running (kern s) \<inter> {q. is_scheduled q s} \<subseteq> set_option (current s)
        \<and> sim_running (kern s) \<subseteq> hm_keys (threads s))"
  using single_runner [OF sim_contract, of "sim_start two_threads" 5 1 42 "[]" "[]"] sim_contract
  by (simp add: sim_start_def)

text \<open>
  C5. Termination: the supervisor spends one \<open>waitpid\<close> per turn of its two loops, so when the kernel
  reports only finitely many statuses (a measure \<open>m\<close> that every reported status lowers and nothing
  else raises) it returns, with an exit code or an error, given one unit of fuel more than that.
\<close>

theorem supervise_returns:
  assumes "wait_bound K m" and "m k < n"
  shows "fst (supervise K n p seed root i k) \<noteq> More"
  unfolding supervise_def
  by (rule run_returns [OF assms(1)]) (simp add: supervisor_new_def assms(2))

lemma supervise_returns_witness:
  "wait_bound sim_kernel (\<lambda>k. length (sim_script k))
    \<and> fst (supervise sim_kernel 8 1 42 [] [] (sim_start two_threads)) \<noteq> More
    \<and> fst (supervise sim_kernel 8 1 42 [] [] (sim_start two_threads)) = Ok 7"
proof -
  have "fst (supervise sim_kernel 8 1 42 [] [] (sim_start two_threads)) \<noteq> More"
    by (rule supervise_returns [OF sim_wait_bound]) (simp add: sim_start_def two_threads_def)
  moreover have "fst (supervise sim_kernel 8 1 42 [] [] (sim_start two_threads)) = Ok 7"
    by code_simp
  ultimately show ?thesis using sim_wait_bound by blast
qed

section \<open>The run queue\<close>

definition eligible :: "'k supervisor \<Rightarrow> pid \<Rightarrow> bool" where
  "eligible s p \<longleftrightarrow> p \<in> hm_keys (threads s) \<and> p \<notin> blocked s"

lemma eligible_upd [simp]:
  "eligible (s\<lparr>runnable := r\<rparr>) = eligible s" "eligible (s\<lparr>current := c\<rparr>) = eligible s"
  by (simp_all add: eligible_def fun_eq_iff)

lemma pick_next_find:
  "map_option fst (pick_next ths b r) = find (\<lambda>p. p \<in> hm_keys ths \<and> p \<notin> b) r"
  "pick_next ths b r = Some (t, th, r') \<Longrightarrow>
    r' = tl (dropWhile (\<lambda>p. \<not> (p \<in> hm_keys ths \<and> p \<notin> b)) r)"
  by (induction r) (auto simp: map_of_None_keys dest: map_of_Some_keys split: option.splits if_splits)

lemma kern_frame:
  "current (snd (resume_thread K p s)) = current s" "runnable (snd (resume_thread K p s)) = runnable s"
  "threads (snd (resume_thread K p s)) = threads s" "blocked (snd (resume_thread K p s)) = blocked s"
  by (simp_all add: resume_thread_def bind_def take_signal_def kcall_def split: prod.split sum.split)

lemma schedule_event_frame [simp]:
  "threads (schedule_event t s) = threads s" "runnable (schedule_event t s) = runnable s"
  "blocked (schedule_event t s) = blocked s" "current (schedule_event t s) = current s"
  by (simp_all add: schedule_event_def trace_json_st_def Let_def)

lemma find_None_dropWhile: "find P xs = None \<Longrightarrow> dropWhile (\<lambda>x. \<not> P x) xs = []"
  by (induction xs) (auto split: if_splits)

lemma schedule_next_effect:
  "current (snd (schedule_next K s)) =
      (case find (eligible s) (runnable s) of None \<Rightarrow> current s | Some p \<Rightarrow> Some p)
    \<and> runnable (snd (schedule_next K s)) = tl (dropWhile (\<lambda>p. \<not> eligible s p) (runnable s))
    \<and> threads (snd (schedule_next K s)) = threads s \<and> blocked (snd (schedule_next K s)) = blocked s"
proof (cases "pick_next (threads s) (blocked s) (runnable s)")
  case None
  with pick_next_find(1) [of "threads s" "blocked s" "runnable s"]
  have none: "find (eligible s) (runnable s) = None" by (simp add: eligible_def [abs_def])
  show ?thesis
    unfolding find_None_dropWhile [OF none] none using None by (simp add: schedule_next_def)
next
  case (Some x)
  obtain tid t r where x: "x = (tid, t, r)" by (cases x)
  have "find (eligible s) (runnable s) = Some tid"
    using pick_next_find(1) [of "threads s" "blocked s" "runnable s"] Some x
    by (simp add: eligible_def [abs_def])
  moreover have "r = tl (dropWhile (\<lambda>p. \<not> eligible s p) (runnable s))"
    using pick_next_find(2) Some x by (simp add: eligible_def)
  ultimately show ?thesis by (simp add: schedule_next_def Some x kern_frame)
qed

text \<open>
  The scheduler is FIFO: \<open>schedule_next\<close> makes current the first pid of the run queue that is in
  the thread table and not blocked, and takes it and the dead or blocked pids before it off the
  queue. Without one, the current thread stays and the queue is emptied.
\<close>

theorem schedule_next_fifo:
  "current (snd (schedule_next K s)) =
      (case find (\<lambda>p. p \<in> hm_keys (threads s) \<and> p \<notin> blocked s) (runnable s) of
         None \<Rightarrow> current s | Some p \<Rightarrow> Some p)
    \<and> runnable (snd (schedule_next K s)) =
        tl (dropWhile (\<lambda>p. \<not> (p \<in> hm_keys (threads s) \<and> p \<notin> blocked s)) (runnable s))"
  using schedule_next_effect [of K s] by (simp add: eligible_def [abs_def])

text \<open>
  C24. Deadlock detection: \<open>schedule_next\<close> reports \<open>Deadlock\<close> exactly when no thread of the run queue
  can run, no new task is awaited and every task is a scheduled thread (so none can make progress by
  itself).
\<close>

theorem deadlock_iff:
  "fst (schedule_next K s) = Err Deadlock \<longleftrightarrow>
    filter (\<lambda>p. p \<in> hm_keys (threads s) \<and> p \<notin> blocked s) (runnable s) = []
    \<and> pending_start s = {} \<and> list_all (scheduled \<circ> snd) (threads s)"
proof -
  have res: "fst (resume_thread K tid s') \<noteq> Err Deadlock" for tid s'
    by (simp add: resume_thread_def bind_def take_signal_def kcall_def split: prod.split sum.split)
  have "pick_next (threads s) (blocked s) (runnable s) = None \<longleftrightarrow>
      find (\<lambda>p. p \<in> hm_keys (threads s) \<and> p \<notin> blocked s) (runnable s) = None"
    by (simp only: pick_next_find(1) [symmetric] map_option_is_None)
  also have "\<dots> \<longleftrightarrow> filter (\<lambda>p. p \<in> hm_keys (threads s) \<and> p \<notin> blocked s) (runnable s) = []"
    by (simp only: find_None_iff filter_empty_conv) blast
  finally have "pick_next (threads s) (blocked s) (runnable s) = None \<longleftrightarrow>
      filter (\<lambda>p. p \<in> hm_keys (threads s) \<and> p \<notin> blocked s) (runnable s) = []" .
  moreover have "any_concurrent s \<longleftrightarrow> \<not> list_all (scheduled \<circ> snd) (threads s)"
    by (force simp: any_concurrent_def list_all_iff list_ex_iff)
  ultimately show ?thesis
    by (auto simp: schedule_next_def res split: option.split)
qed

text \<open>The states after successive yields of whoever is current.\<close>

primrec yields :: "'k kernel \<Rightarrow> nat \<Rightarrow> 'k supervisor \<Rightarrow> 'k supervisor" where
  "yields K 0 s = s"
| "yields K (Suc n) s = (case current s of
      None \<Rightarrow> s | Some p \<Rightarrow> yields K n (snd (yield_current K p s)))"

lemma yield_rotates:
  assumes "current s = Some p" and "eligible s p" and "list_all (eligible s) (runnable s)"
  shows "current (snd (yield_current K p s)) = Some (hd (runnable s @ [p]))
    \<and> runnable (snd (yield_current K p s)) = tl (runnable s @ [p])
    \<and> threads (snd (yield_current K p s)) = threads s \<and> blocked (snd (yield_current K p s)) = blocked s"
proof -
  let ?s = "s\<lparr>current := None, runnable := runnable s @ [p]\<rparr>"
  have y: "snd (yield_current K p s) = snd (schedule_next K ?s)"
    using assms(1) by (simp add: yield_current_def andthen_def bind_def modify_def)
  obtain x xs where q: "runnable s @ [p] = x # xs" by (cases "runnable s @ [p]") auto
  have "x \<in> set (runnable s @ [p])" unfolding q by simp
  with assms(2,3) have "eligible s x" by (auto simp: list_all_iff)
  with schedule_next_effect [of K ?s] show ?thesis by (simp add: y q)
qed

text \<open>
  C23. No starvation: while no thread blocks, dies or is created, the threads take turns in a fixed
  circle. With run queue \<open>q\<close> and current thread \<open>p\<close>, after \<open>j\<close> scheduling points the current thread
  is the \<open>j\<close>-th of \<open>p # q\<close> taken cyclically, so each of them runs once in every \<open>length q + 1\<close> turns.
\<close>

theorem round_robin:
  assumes "current s = Some p" and "eligible s p" and "list_all (eligible s) (runnable s)"
  shows "current (yields K j s) = Some ((p # runnable s) ! (j mod Suc (length (runnable s))))"
  using assms
proof (induction j arbitrary: s p)
  case (Suc j)
  let ?s = "snd (yield_current K p s)"
  obtain x xs where q: "runnable s @ [p] = x # xs" by (cases "runnable s @ [p]") auto
  note rot = yield_rotates [OF Suc.prems, of K]
  have el: "eligible ?s = eligible s" using rot by (simp add: eligible_def fun_eq_iff)
  have c: "current ?s = Some x" "runnable ?s = xs" using rot q by simp_all
  have all: "list_all (eligible s) (x # xs)"
    using Suc.prems(2,3) unfolding q [symmetric] by (simp add: list_all_iff)
  have "current (yields K j ?s) = Some ((x # xs) ! (j mod Suc (length xs)))"
    using Suc.IH [OF c(1)] all by (simp add: el c(2))
  moreover have "length xs = length (runnable s)" using arg_cong [OF q, of length] by simp
  moreover have "(runnable s @ [p]) ! (j mod Suc (length (runnable s)))
      = (p # runnable s) ! (Suc j mod Suc (length (runnable s)))"
    by (auto simp: mod_Suc nth_append)
      (metis Suc_lessI mod_less_divisor not_less_iff_gr_or_eq zero_less_Suc less_SucE)
  ultimately show ?case using Suc.prems(1) by (simp add: q)
qed simp

definition three_ready :: "sim supervisor" where
  "three_ready = (supervisor_new 1 0 [] [] (sim_start []))
    \<lparr>current := Some 1, runnable := [2, 3],
     threads := [(1, init_thread), (2, init_thread\<lparr>vtid := 1\<rparr>), (3, init_thread\<lparr>vtid := 2\<rparr>)]\<rparr>"

lemma round_robin_witness:
  "current (yields sim_kernel 5 three_ready) = Some 3"
  using round_robin [of three_ready 1 sim_kernel 5]
  by (simp add: three_ready_def supervisor_new_def eligible_def)

section \<open>Futex queues\<close>

text \<open>
  C25. Waking is FIFO and counts exactly: waking at most \<open>v\<close> waiters of a word on which the blocked
  threads \<open>q\<close> wait (in that order) moves the first \<open>v\<close> of them, in order, to the end of the run
  queue, unblocks exactly those, leaves the others waiting in order, and reports their number; a
  negative count wakes nobody.
\<close>

theorem wake_fifo:
  assumes "waiting s a = Some q" and "distinct q" and "set q \<subseteq> blocked s" and "wake_cap v > 0"
  shows "wake a v s = (min (wake_cap v) (length q),
    s\<lparr>runnable := runnable s @ take (wake_cap v) q, blocked := blocked s - set (take (wake_cap v) q),
      waiting := (waiting s)(a := if length q \<le> wake_cap v then None else Some (drop (wake_cap v) q))\<rparr>)"
proof -
  have loop: "wake_loop cap w q b r =
      (w + min (cap - w) (length q), drop (cap - w) q, b - set (take (cap - w) q), r @ take (cap - w) q)"
    if "distinct q" "set q \<subseteq> b" "w \<le> cap" for cap w b r
    using that
  proof (induction q arbitrary: w b r)
    case (Cons t q)
    show ?case
    proof (cases "w < cap")
      case True
      then have cap: "cap - w = Suc (cap - Suc w)" by simp
      have "set q \<subseteq> b - {t}" using Cons.prems by auto
      with Cons.IH [of "b - {t}" "Suc w" "r @ [t]"] Cons.prems True show ?thesis
        by (simp add: cap) blast
    qed (use Cons.prems in auto)
  qed simp
  show ?thesis
    using assms(4) loop [of "blocked s" 0 "wake_cap v" "runnable s", OF assms(2,3)]
    by (simp add: wake_def Let_def assms(1))
qed

lemma wake_fifo_witness:
  "wake 64 2 (three_ready\<lparr>blocked := {1, 2, 3}, waiting := [64 \<mapsto> [3, 1, 2]], runnable := []\<rparr>)
    = (2, three_ready\<lparr>blocked := {2}, waiting := [64 \<mapsto> [2]], runnable := [3, 1]\<rparr>)"
proof -
  let ?s = "three_ready\<lparr>blocked := {1, 2, 3}, waiting := [64 \<mapsto> [3, 1, 2]], runnable := []\<rparr>"
  have cap: "wake_cap 2 = 2" by (simp add: wake_cap_def)
  have "{1, 2, 3} - {3, 1 :: int} = {2}" by auto
  with wake_fifo [of ?s 64 "[3, 1, 2]" 2] show ?thesis
    by (simp add: cap numeral_2_eq_2)
qed

end
