(* ===== verification/SyscallSpec.thy ===== *)
theory SyscallSpec
  imports SchedulerSpec
begin

text \<open>
  Properties of the interceptions and of the end of threads and of the container: what a tracee sees
  of \<open>getrandom\<close>, how results are injected, what a dead thread leaves behind, which exit code the
  supervisor reports.
\<close>

section \<open>The end of a thread\<close>


text \<open>
  C27. A thread that was created with \<open>CLONE_CHILD_CLEARTID\<close> releases its joiner when it exits: the
  first thread waiting on its tid word (\<open>pthread_join\<close>) becomes runnable and is no longer blocked.
\<close>

theorem thread_exit_wakes_joiner:
  assumes "map_of (threads s) p = Some t" and "child_tid t \<noteq> 0"
    and "flags t AND CLONE_CHILD_CLEARTID \<noteq> 0"
    and "waiting s (child_tid t) = Some (j # q)" and "j \<in> blocked s" and "j \<noteq> p"
  shows "j \<in> set (runnable (snd (on_thread_exit p b s))) \<and> j \<notin> blocked (snd (on_thread_exit p b s))"
proof -
  let ?s1 = "s\<lparr>threads := AList.delete p (threads s)\<rparr>"
  have cap: "wake_cap 1 = 1" by (simp add: wake_cap_def)
  have stop: "wake_loop (Suc 0) (Suc 0) q b' r = (Suc 0, q, b', r)" for q b' r by (cases q) simp_all
  have "j \<in> set (runnable (snd (wake (child_tid t) 1 ?s1)))"
    and "j \<notin> blocked (snd (wake (child_tid t) 1 ?s1))"
    using assms(4,5) by (simp_all add: wake_def cap stop)
  then show ?thesis
    using assms(1-3,6)
    by (simp add: on_thread_exit_def modify_def exit_registered_def Let_def forget_pid_def
        trace_json_st_def)
qed

definition joined :: "sim supervisor" where
  "joined = three_ready\<lparr>blocked := {1}, waiting := [64 \<mapsto> [1]], current := Some 2, runnable := [],
    threads := [(1, init_thread),
      (2, \<lparr>vtid = 1, child_tid = 64, flags = CLONE_CHILD_CLEARTID, scheduled = True\<rparr>)]\<rparr>"

lemma thread_exit_wakes_joiner_witness:
  "1 \<in> set (runnable (snd (on_thread_exit 2 True joined))) \<and> 1 \<notin> blocked (snd (on_thread_exit 2 True joined))"
  by (rule thread_exit_wakes_joiner [where q = "[]"
      and t = "\<lparr>vtid = 1, child_tid = 64, flags = CLONE_CHILD_CLEARTID, scheduled = True\<rparr>"])
    (simp_all add: joined_def CLONE_CHILD_CLEARTID_def)

section \<open>The end of the container\<close>

definition ended :: "int \<Rightarrow> 'k supervisor \<Rightarrow> bool" where
  "ended c s \<longleftrightarrow> (\<exists>evs n.
    events s = evs @ [\<lparr>tr_seq = n, tr_event = ''exit'', tr_detail = JObj [(''code'', JNum c)]\<rparr>]
    \<or> events s = evs @ [\<lparr>tr_seq = n, tr_event = ''signal'',
        tr_detail = JObj [(''code'', JNum (c - 128))]\<rparr>] \<and> c \<in> {129..159})"

text \<open>A program that only answers \<open>Some c\<close> in a state that records the end with code \<open>c\<close>.\<close>

abbreviation ends :: "('k, int option) sv \<Rightarrow> bool" where
  "ends m \<equiv> triple (\<lambda>_. True) m
    (\<lambda>r s. case r of None \<Rightarrow> True | Some c \<Rightarrow> ended c s) (\<lambda>_. True)"

lemma ends_None: "ends (andthen m (ret None))"
  by (auto simp: triple_def andthen_def bind_def ret_def split: prod.splits outcome.splits)

lemma ends_bind: "(\<And>a. ends (f a)) \<Longrightarrow> ends (bind m f)"
  by (rule triple_bind [where Q' = "\<lambda>_ _. True"])
    (auto simp: triple_def split: prod.splits outcome.splits)

lemma ends_andthen: "ends n \<Longrightarrow> ends (andthen m n)"
  unfolding andthen_def by (rule ends_bind)

lemma ends_next:
  "ends m \<Longrightarrow> ends n \<Longrightarrow>
    ends (bind m (\<lambda>r. case r of Some c \<Rightarrow> ret (Some c) | None \<Rightarrow> n))"
  by (rule triple_bind [where Q' = "\<lambda>r s. case r of None \<Rightarrow> True | Some c \<Rightarrow> ended c s"])
    (auto simp: triple_def ret_def split: option.splits)

lemma ends_exit: "ends (andthen (trace_lifecycle ''exit'' c) (ret (Some c)))"
  by (auto simp: triple_def andthen_def bind_def ret_def trace_lifecycle_def trace_json_def
      modify_def trace_json_st_def Let_def ended_def)

lemma ends_signal:
  "ends (andthen (trace_lifecycle ''signal'' (signal_number g)) (ret (Some (128 + signal_number g))))"
  using signal_number_range [of g]
  by (auto simp: triple_def andthen_def bind_def ret_def trace_lifecycle_def trace_json_def
      modify_def trace_json_st_def Let_def ended_def)

lemma dispatch_ends:
  assumes "\<And>c. ends (aw c)"
  shows "ends (dispatch K aw st)"
proof -
  have ret: "ends (ret None)" by (simp add: triple_def ret_def)
  have sys: "ends (dispatch_syscall K p)" for p
    unfolding dispatch_syscall_def
    by (intro ends_bind triple_if ends_andthen ret)
  have ev: "ends (dispatch_event K aw p e)" for p e
    unfolding dispatch_event_def Let_def
    by (intro triple_if ends_None ends_bind ends_andthen ends_next assms ret)
  show ?thesis
    unfolding dispatch_def
    by (cases st; simp only: wait_status.case)
      (intro sys ev ends_None ends_bind triple_if ends_exit ends_signal ret)+
qed

lemma await_attach_ends: "(\<And>c. ends (lp c)) \<Longrightarrow> ends (await_attach lp c)"
  unfolding await_attach_def by (intro ends_bind triple_if) (simp_all add: triple_def ret_def)

lemma await_loop_ends: "ends (await_loop K n c)"
proof (induction n arbitrary: c)
  case (Suc n)
  show ?case
    unfolding await_loop.simps
    by (intro ends_bind triple_if ends_andthen ends_next dispatch_ends await_attach_ends Suc)
      (simp add: triple_def ret_def)
qed (simp add: triple_def out_of_fuel_def)

lemma run_loop_ends: "triple (\<lambda>_. True) (run_loop K n) ended (\<lambda>_. True)"
proof (induction n)
  case (Suc n)
  have any: "triple (\<lambda>_. True) m (\<lambda>_ _. True) (\<lambda>_. True)" for m :: "('a, 'b) sv"
    by (auto simp: triple_def split: prod.splits outcome.splits)
  have more: "triple (\<lambda>_. True) (bind (gets current) (\<lambda>c.
      if c = None then andthen (schedule_next K) (run_loop K n) else run_loop K n)) ended (\<lambda>_. True)"
    by (intro triple_bind [OF any] triple_if triple_andthen [OF any] Suc)
  have turn: "triple (\<lambda>_. True) (bind (dispatch K (await_attach (await_loop K n)) st) (\<lambda>r. case r of
      Some code \<Rightarrow> ret code
    | None \<Rightarrow> bind (gets current) (\<lambda>c.
        if c = None then andthen (schedule_next K) (run_loop K n) else run_loop K n)))
    ended (\<lambda>_. True)" for st
    by (rule triple_bind [OF dispatch_ends [OF await_attach_ends [OF await_loop_ends]]],
        rule triple_option, rule triple_weaken [OF more])
      (auto simp: triple_def ret_def)
  show ?case
    unfolding run_loop.simps by (rule triple_bind [OF any turn])
qed (simp add: triple_def out_of_fuel_def)


lemma on_thread_exit_Ok: "fst (on_thread_exit p b s) = Ok ()"
  by (simp add: on_thread_exit_def modify_def)

lemma wake_group_exiting: "group_exiting (snd (wake a v s)) = group_exiting s"
  by (auto simp: wake_def Let_def split: option.split prod.split)

lemma on_thread_exit_group: "group_exiting (snd (on_thread_exit p b s)) = group_exiting s"
  by (simp add: on_thread_exit_def modify_def forget_pid_def exit_registered_def Let_def
      trace_json_st_def wake_group_exiting split: option.split)

text \<open>
  C30. A forgotten flag: \<open>group_exiting\<close> is set by any traced process that calls \<open>exit_group\<close> (also by
  a forked child, whose end is not the container's) and never cleared. From then on the death of the
  current thread leaves it current: nothing is scheduled, the run queue is not touched and the kernel
  is not called, although other threads may be ready.
\<close>

theorem group_exit_stalls_scheduler:
  assumes "group_exiting s" and "current s = Some p" and "p \<noteq> sv_pid s"
  shows "fst (dispatch K aw (Exited p c) s) = Ok None
    \<and> current (snd (dispatch K aw (Exited p c) s)) = Some p
    \<and> kern (snd (dispatch K aw (Exited p c) s)) = kern s
    \<and> p \<notin> hm_keys (threads (snd (dispatch K aw (Exited p c) s)))"
proof -
  obtain t where t: "on_thread_exit p True s = (Ok (), t)"
    using on_thread_exit_Ok [of p True s] by (cases "on_thread_exit p True s") simp
  then have "group_exiting t" using on_thread_exit_group [of p True s] assms(1) by simp
  with assms(2,3) t
  have "dispatch K aw (Exited p c) s = (Ok None, snd (on_thread_exit p True s))"
    by (simp add: dispatch_def bind_def gets_def andthen_def dispatch_gone_def ret_def)
  then show ?thesis
    using assms(2) by (simp_all add: on_thread_exit_view)
qed

lemma group_exit_stalls_scheduler_witness:
  "current (snd (dispatch sim_kernel (\<lambda>_. ret None) (Exited 2 0) (three_ready
      \<lparr>group_exiting := True, current := Some 2, runnable := [3]\<rparr>))) = Some 2"
  using group_exit_stalls_scheduler [of "three_ready
      \<lparr>group_exiting := True, current := Some 2, runnable := [3]\<rparr>" 2 sim_kernel "\<lambda>_. ret None" 0]
  by (simp add: three_ready_def supervisor_new_def)

section \<open>Injected results\<close>

text \<open>
  C28. The two halves of an interception: after \<open>skip_syscall\<close> with result \<open>v\<close> the tracee's registers
  ask the kernel for no syscall at all (\<open>orig_rax\<close> is -1) and the result is remembered for that tracee
  alone; the exit stop then writes exactly \<open>v\<close> (as a 64-bit word) into \<open>rax\<close>, forgets it, and records
  the injection.
\<close>

theorem skipped_result_injected:
  assumes "k_getregs K p (kern s) = (Inr r, k1)" and "k_setregs K p (r\<lparr>orig_rax := - 1\<rparr>) k1 = (Inr (), k2)"
    and "k_getregs K p k2 = (Inr r', k3)"
    and "k_setregs K p (r'\<lparr>rax := word_of_int v\<rparr>) k3 = (Inr (), k4)"
  shows "andthen (skip_syscall K p nr v) (on_syscall_exit K p) s
    = (Ok (), trace_json_st (syscall_name nr) (JObj [(''kind'', JStr ''inject'')])
        (s\<lparr>pending := (pending s)(p := None), kern := k4\<rparr>))"
  using assms
  by (simp add: skip_syscall_def on_syscall_exit_def andthen_def bind_def kcall_def modify_def
      gets_def trace_syscall_def trace_json_def)

lemma skipped_result_injected_witness:
  "sim_regs (kern (snd (andthen (skip_syscall sim_kernel 1 318 5) (on_syscall_exit sim_kernel 1)
      three_ready))) = no_regs\<lparr>orig_rax := - 1, rax := 5\<rparr>"
  using skipped_result_injected [of sim_kernel 1 three_ready no_regs "kern three_ready" _
      "no_regs\<lparr>orig_rax := - 1\<rparr>" _ 5 _ 318]
  by (simp add: sim_kernel_def three_ready_def supervisor_new_def sim_start_def trace_json_st_def)

text \<open>
  \<open>getrandom\<close> is served from the seeded generator: a request for \<open>n\<close> bytes (at most 1 MiB are
  handed out) writes exactly the generator's next bytes to the caller's buffer, advances the
  generator by them, skips the kernel's own \<open>getrandom\<close>, will return the number of bytes, and records
  count and bytes.
\<close>

theorem getrandom_served:
  assumes "len = min (rsi r) (push_bit 20 1)" and "len \<noteq> 0"
    and "fill (rng s) (unat len) = (out, g)"
    and "k_open_mem K p (kern s) = (Inr (), k1)" and "k_write_at K p (rdi r) out k1 = (Inr w, k2)"
    and "k_getregs K p k2 = (Inr r', k3)" and "k_setregs K p (r'\<lparr>orig_rax := - 1\<rparr>) k3 = (Inr (), k4)"
  shows "intercept_getrandom K p r s
    = (Ok (), trace_json_st ''getrandom''
        (JObj [(''nbytes'', JNum (uint len)), (''bytes'', JStr (hex_bytes out))])
        (s\<lparr>rng := g, kern := k4, pending := (pending s)(p \<mapsto> \<lparr>inj_syscall = 318, inj_retval = uint len\<rparr>)\<rparr>))"
proof -
  have len: "len \<le> push_bit 20 1" using assms(1) by simp
  then have "uint len \<le> 1048576" by (simp add: word_le_def)
  then have hi: "uint len < 2 ^ 63" by simp
  have lo: "- (2 ^ 63) \<le> uint len" by (rule order_trans [OF _ uint_ge_0]) simp
  from lo hi have "signed_take_bit 63 (uint len) = uint len" by (rule signed_take_bit_int_eq_self)
  then have sint: "sint len = uint len" by (simp add: sint_uint)
  have min_len: "min (rsi r) GETRANDOM_MAX = len" by (simp only: GETRANDOM_MAX_def assms(1))
  have pos: "0 < len" using assms(2) by (simp only: word_neq_0_conv)
  show ?thesis
    using assms(3-) pos
    by (simp add: intercept_getrandom_def Let_def min_len sint bind_def andthen_def draw_bytes_def
        write_proc_mem_def kcall_def ret_def skip_syscall_def modify_def trace_json_def
        SYS_getrandom_def json_u64_def)
qed

lemma getrandom_served_witness:
  "fst (intercept_getrandom sim_kernel 1 (no_regs\<lparr>rsi := 5, rdi := 64\<rparr>) three_ready) = Ok ()
    \<and> sim_written (kern (snd (intercept_getrandom sim_kernel 1 (no_regs\<lparr>rsi := 5, rdi := 64\<rparr>) three_ready)))
      = [(1, 64, fst (fill (prng_new 0) 5))]"
proof -
  obtain out g where f: "fill (prng_new 0) 5 = (out, g)" by (cases "fill (prng_new 0) 5")
  have "fill (rng three_ready) (unat (5 :: u64)) = (out, g)"
    using f by (simp add: three_ready_def supervisor_new_def)
  from getrandom_served [of 5 "no_regs\<lparr>rsi := 5, rdi := 64\<rparr>", OF _ _ this, of sim_kernel 1 "sim_start []"
      "length out" "(sim_start [])\<lparr>sim_written := [(1, 64, out)]\<rparr>" no_regs
      "(sim_start [])\<lparr>sim_written := [(1, 64, out)]\<rparr>"]
  show ?thesis
    by (simp add: f sim_kernel_def three_ready_def supervisor_new_def sim_start_def trace_json_st_def
        min_def)
qed

section \<open>What the seed does not decide\<close>

lemma resume_thread_rng:
  "resume_thread K p (s\<lparr>rng := g\<rparr>) = apsnd (\<lambda>t. t\<lparr>rng := g\<rparr>) (resume_thread K p s)"
  by (simp add: resume_thread_def bind_def take_signal_def kcall_def split: prod.split sum.split)


end
