(* ===== verification/Attach.thy ===== *)
theory Attach
  imports Simulator
begin

text \<open>
  Nested waits for attach stops: a clone event that arrives while the supervisor waits for the attach
  stop of another task starts a second wait, and that one takes the stop the first is waiting for.
\<close>

text \<open>
  Init 1 forks process 2 and then creates thread 3. While the supervisor waits for the attach stop of
  3, process 2 forks 4, and the attach stops of both come in the order \<open>ps\<close>. Then 4 and 2 end.
\<close>

definition crossing_attaches :: "pid list \<Rightarrow> stop list" where
  "crossing_attaches ps =
    [at_syscall 1 PTRACE_SYSCALL_INFO_ENTRY (no_regs\<lparr>orig_rax := 56\<rparr>),
     at_clone 1 2, at_stop (Stopped 2 SIGSTOP),
     at_syscall 1 PTRACE_SYSCALL_INFO_EXIT no_regs,
     at_syscall 1 PTRACE_SYSCALL_INFO_ENTRY (no_regs\<lparr>orig_rax := 56, rdi := CLONE_THREAD\<rparr>),
     at_clone 1 3, at_clone 2 4]
    @ map (\<lambda>p. at_stop (Stopped p SIGSTOP)) ps @ [at_stop (Exited 4 0), at_stop (Exited 2 0)]"

definition crossing_run :: "pid list \<Rightarrow> (supervise_error, int) outcome \<times> sim supervisor" where
  "crossing_run ps = supervise sim_kernel 20 1 5 ''/s'' ''c'' (sim_start (crossing_attaches ps))"

text \<open>
  All statuses have been delivered, no attach is pending and nobody is blocked on a futex; the
  supervisor asks \<open>waitpid\<close> for more, with \<open>running\<close> the tasks that can still cause a status.
\<close>

definition waits_for :: "pid set \<Rightarrow> (supervise_error, int) outcome \<times> sim supervisor \<Rightarrow> bool" where
  "waits_for running rs = (case rs of
      (Err (Wait e), s) \<Rightarrow> e = ECHILD \<and> sim_script (kern s) = [] \<and> sim_running (kern s) = running
        \<and> current s = Some 1 \<and> runnable s = [3] \<and> map fst (threads s) = [1, 3]
        \<and> pending_start s = {} \<and> blocked s = {}
    | _ \<Rightarrow> False)"

section \<open>Property\<close>


end
