(* ===== verification/OciConfig.thy ===== *)
theory OciConfig
  imports Text
begin

text \<open>
  The OCI configuration (\<open>src/oci/config.rs\<close>): the data model of \<open>config.json\<close>, the grammar checks of
  its fields and the semantic validation. Parsing JSON into these records is serde's work and a
  parameter of the model. A \<open>HashMap\<close> is an association list.
\<close>

section \<open>The data model\<close>

datatype config_error = ConfigIo errno | ConfigParse string | Validate string

record linux_namespace =
  ns_type :: string
  ns_path :: "string option"

record linux_net_device =
  nd_name :: "string option"

record linux_rdma =
  hca_handles :: "u32 option"
  hca_objects :: "u32 option"

record linux_hugepage_limit =
  hp_limit :: u64
  hp_page_size :: string

record linux_resources =
  rdma :: "(string \<times> linux_rdma) list option"
  hugepage_limits :: "linux_hugepage_limit list option"
  resources_extra :: "(string \<times> json) list"

record linux_device =
  dev_path :: string
  dev_type :: string
  dev_major :: int
  dev_minor :: int
  dev_file_mode :: "u32 option"
  dev_uid :: "u32 option"
  dev_gid :: "u32 option"

record linux_id_mapping =
  map_container_id :: u32
  map_host_id :: u32
  map_size :: u32

record linux_config =
  namespaces :: "linux_namespace list option"
  resources :: "linux_resources option"
  net_devices :: "(string \<times> linux_net_device) list option"
  devices :: "linux_device list option"
  masked_paths :: "string list option"
  readonly_paths :: "string list option"
  sysctl :: "(string \<times> string) list option"
  uid_mappings :: "linux_id_mapping list option"
  gid_mappings :: "linux_id_mapping list option"
  linux_extra :: "(string \<times> json) list"

record windows_config =
  ignore_flushes_during_boot :: "bool option"
  hyperv :: "json option"
  windows_extra :: "(string \<times> json) list"

datatype freebsd_namespace_mode = New | Inherit

record freebsd_jail =
  jail_host :: "freebsd_namespace_mode option"
  jail_vnet :: "freebsd_namespace_mode option"
  jail_extra :: "(string \<times> json) list"

record freebsd_config =
  fb_jail :: "freebsd_jail option"
  fb_devices :: "json list option"
  fb_extra :: "(string \<times> json) list"

record zos_namespace =
  zns_type :: string
  zns_path :: "string option"

record zos_config =
  zos_namespaces :: "zos_namespace list option"
  zos_extra :: "(string \<times> json) list"

record root_fs =
  root_path :: string
  root_readonly :: "bool option"

record process_user =
  user_uid :: "u32 option"
  user_gid :: "u32 option"
  additional_gids :: "u32 list option"

record capabilities =
  bounding :: "string list option"
  effective :: "string list option"
  inheritable :: "string list option"
  permitted :: "string list option"
  ambient :: "string list option"

record process =
  proc_args :: "string list option"
  proc_env :: "string list option"
  proc_cwd :: "string option"
  proc_user :: "process_user option"
  proc_terminal :: "bool option"
  oom_score_adj :: "int option"
  proc_capabilities :: "capabilities option"
  proc_extra :: "(string \<times> json) list"

record mount =
  destination :: string
  fstype :: "string option"
  mount_source :: "string option"
  mount_options :: "string list option"

record oci_config =
  oci_version :: string
  cfg_root :: root_fs
  cfg_process :: "process option"
  cfg_hostname :: "string option"
  cfg_mounts :: "mount list option"
  cfg_linux :: "linux_config option"
  cfg_windows :: "windows_config option"
  cfg_freebsd :: "freebsd_config option"
  cfg_zos :: "zos_config option"
  cfg_extra :: "(string \<times> json) list"

section \<open>Checks\<close>

definition quoted :: "string \<Rightarrow> string" where
  "quoted s = CHR 0x27 # s @ [CHR 0x27]"

text \<open>The scan over the bytes: skip the digits, then compare the rest with the six units.\<close>

definition hugepage_units :: "string list" where
  "hugepage_units = [''KB'', ''MB'', ''GB'', ''KiB'', ''MiB'', ''GiB'']"

definition is_valid_hugepage_size :: "string \<Rightarrow> bool" where
  "is_valid_hugepage_size s =
    (if length s < 2 then False
     else if \<not> is_ascii_digit (s ! 0) \<or> s ! 0 = CHR ''0'' then False
     else let i = length (takeWhile is_ascii_digit s) in
       if i = 0 then False else drop i s \<in> set hugepage_units)"

definition deserialize_hugepage_size :: "string + string \<Rightarrow> string + string" where
  "deserialize_hugepage_size parsed = (case parsed of
      Inl e \<Rightarrow> Inl e
    | Inr s \<Rightarrow> if is_valid_hugepage_size s then Inr s
        else Inl (''invalid hugepage pageSize '' @ quoted s @ '': must match ^[1-9][0-9]*[KMG]i?B$''))"

definition compatible_version :: "u64 \<Rightarrow> u64 \<Rightarrow> u64 \<Rightarrow> bool" where
  "compatible_version major minor patch \<longleftrightarrow> major = 1 \<or> major = 0 \<and> minor = 5"

definition parse_semver :: "string \<Rightarrow> (u64 \<times> u64 \<times> u64) option" where
  "parse_semver s =
    (case split_on (\<lambda>c. c = CHR ''-'' \<or> c = CHR ''+'') s of
      [] \<Rightarrow> None
    | core # _ \<Rightarrow>
        (case split_on (\<lambda>c. c = CHR ''.'') core of
          [x, y, z] \<Rightarrow>
            (case (parse_u64 x, parse_u64 y, parse_u64 z) of
              (Some a, Some b, Some c) \<Rightarrow> Some (a, b, c) | _ \<Rightarrow> None)
        | _ \<Rightarrow> None))"

definition validate_version :: "oci_config \<Rightarrow> config_error + unit" where
  "validate_version c =
    (if oci_version c = [] then Inl (Validate ''ociVersion must not be empty'')
     else case parse_semver (oci_version c) of
       None \<Rightarrow> Inl (Validate (''ociVersion '' @ quoted (oci_version c) @ '' is not valid semver (expected MAJOR.MINOR.PATCH[-pre][+build])''))
     | Some (major, minor, patch) \<Rightarrow>
         if \<not> compatible_version major minor patch
         then Inl (Validate (''ociVersion '' @ quoted (oci_version c) @ '' is not supported by dtrun''))
         else Inr ())"

definition validate_root :: "oci_config \<Rightarrow> config_error + unit" where
  "validate_root c =
    (if root_path (cfg_root c) = [] then Inl (Validate ''root.path must not be empty'') else Inr ())"

fun validate_env :: "string list \<Rightarrow> config_error + unit" where
  "validate_env [] = Inr ()"
| "validate_env (kv # env) =
    (if CHR ''='' \<notin> set kv
     then Inl (Validate (''process.env entry '' @ quoted kv @ '' must be KEY=VALUE''))
     else validate_env env)"

definition validate_args :: "string list option \<Rightarrow> config_error + unit" where
  "validate_args a = (case a of
      None \<Rightarrow> Inr ()
    | Some args \<Rightarrow>
        if args = [] then Inl (Validate ''process.args must not be empty'')
        else if list_ex (\<lambda>a. a = []) args
        then Inl (Validate ''process.args entries must not be empty'')
        else Inr ())"

definition validate_cwd :: "string option \<Rightarrow> config_error + unit" where
  "validate_cwd d = (case d of
      None \<Rightarrow> Inr ()
    | Some cwd \<Rightarrow>
        if \<not> starts_with cwd ''/''
        then Inl (Validate (''process.cwd '' @ quoted cwd @ '' must be an absolute path''))
        else Inr ())"

text \<open>The checks in sequence: the first error wins, as with the \<open>?\<close> operator.\<close>

fun first_error :: "('e + unit) list \<Rightarrow> 'e + unit" where
  "first_error [] = Inr ()"
| "first_error (Inl e # rs) = Inl e"
| "first_error (Inr _ # rs) = first_error rs"

definition validate_process :: "oci_config \<Rightarrow> config_error + unit" where
  "validate_process c = (case cfg_process c of
      None \<Rightarrow> Inr ()
    | Some p \<Rightarrow> first_error [validate_args (proc_args p), validate_cwd (proc_cwd p),
        case proc_env p of None \<Rightarrow> Inr () | Some env \<Rightarrow> validate_env env])"

definition hostname_char :: "char \<Rightarrow> bool" where
  "hostname_char c \<longleftrightarrow> is_ascii_alphanumeric c \<or> c = CHR ''-'' \<or> c = CHR ''.''"

definition validate_hostname :: "oci_config \<Rightarrow> config_error + unit" where
  "validate_hostname c = (case cfg_hostname c of
      None \<Rightarrow> Inr ()
    | Some h \<Rightarrow>
        if h = [] \<or> length h > 64
        then Inl (Validate (''hostname '' @ quoted h @ '' must be 1..=64 characters''))
        else if list_ex (\<lambda>b. \<not> hostname_char b) h
        then Inl (Validate (''hostname '' @ quoted h @ '' contains invalid characters''))
        else Inr ())"

fun validate_mount_list :: "string set \<Rightarrow> mount list \<Rightarrow> config_error + unit" where
  "validate_mount_list seen [] = Inr ()"
| "validate_mount_list seen (m # ms) =
    (if destination m = [] then Inl (Validate ''mount.destination must not be empty'')
     else if \<not> starts_with (destination m) ''/''
     then Inl (Validate (''mount.destination '' @ quoted (destination m) @ '' must be an absolute path''))
     else if destination m \<in> seen
     then Inl (Validate (''duplicate mount.destination '' @ quoted (destination m)))
     else validate_mount_list (insert (destination m) seen) ms)"

definition validate_mounts :: "oci_config \<Rightarrow> config_error + unit" where
  "validate_mounts c =
    (case cfg_mounts c of None \<Rightarrow> Inr () | Some ms \<Rightarrow> validate_mount_list {} ms)"

definition validate :: "oci_config \<Rightarrow> config_error + unit" where
  "validate c = first_error [validate_version c, validate_root c, validate_process c,
    validate_hostname c, validate_mounts c]"

section \<open>Loading\<close>

text \<open>\<open>parse\<close> stands for \<open>serde_json::from_str\<close>, \<open>read\<close> for the file system.\<close>

definition config_from_str :: "(string \<Rightarrow> string + oci_config) \<Rightarrow> string \<Rightarrow> config_error + oci_config" where
  "config_from_str parse txt = (case parse txt of
      Inl e \<Rightarrow> Inl (ConfigParse e)
    | Inr c \<Rightarrow> (case validate c of Inl e \<Rightarrow> Inl e | Inr _ \<Rightarrow> Inr c))"

definition config_from_path ::
  "(string \<Rightarrow> string + oci_config) \<Rightarrow> (string \<Rightarrow> errno + string) \<Rightarrow> string \<Rightarrow> config_error + oci_config" where
  "config_from_path parse read p = (case read p of
      Inl e \<Rightarrow> Inl (ConfigIo e)
    | Inr txt \<Rightarrow> (case parse txt of
        Inl e \<Rightarrow> Inl (ConfigParse e)
      | Inr c \<Rightarrow> (case validate c of Inl e \<Rightarrow> Inl e | Inr _ \<Rightarrow> Inr c)))"

section \<open>What validation accepts\<close>

lemma first_error_Inr: "first_error rs = Inr () \<longleftrightarrow> list_all (\<lambda>r. r = Inr ()) rs"
  by (induction rs rule: first_error.induct) auto

lemma validate_env_Inr: "validate_env env = Inr () \<longleftrightarrow> list_all (\<lambda>kv. CHR ''='' \<in> set kv) env"
  by (induction env) auto

lemma absolute_iff: "starts_with s ''/'' \<longleftrightarrow> (case s of [] \<Rightarrow> False | c # _ \<Rightarrow> c = CHR ''/'')"
  by (auto simp: starts_with_def split: list.split)

lemma validate_mount_list_Inr:
  "validate_mount_list seen ms = Inr () \<longleftrightarrow>
    list_all (\<lambda>m. starts_with (destination m) ''/'') ms
    \<and> distinct (map destination ms) \<and> set (map destination ms) \<inter> seen = {}"
  by (induction ms arbitrary: seen) (auto simp: absolute_iff split: list.splits)

text \<open>The checks of a configuration as one condition.\<close>

definition valid_version :: "string \<Rightarrow> bool" where
  "valid_version v \<longleftrightarrow> (case parse_semver v of
      None \<Rightarrow> False | Some (a, b, c) \<Rightarrow> a = 1 \<or> a = 0 \<and> b = 5)"

definition valid_process :: "process \<Rightarrow> bool" where
  "valid_process p \<longleftrightarrow>
    (case proc_args p of None \<Rightarrow> True | Some a \<Rightarrow> a \<noteq> [] \<and> list_all (\<lambda>x. x \<noteq> []) a)
    \<and> (case proc_cwd p of None \<Rightarrow> True | Some d \<Rightarrow> starts_with d ''/'')
    \<and> (case proc_env p of None \<Rightarrow> True | Some e \<Rightarrow> list_all (\<lambda>kv. CHR ''='' \<in> set kv) e)"

definition valid_config :: "oci_config \<Rightarrow> bool" where
  "valid_config c \<longleftrightarrow> valid_version (oci_version c) \<and> root_path (cfg_root c) \<noteq> []
    \<and> (case cfg_process c of None \<Rightarrow> True | Some p \<Rightarrow> valid_process p)
    \<and> (case cfg_hostname c of None \<Rightarrow> True
       | Some h \<Rightarrow> h \<noteq> [] \<and> length h \<le> 64 \<and> list_all hostname_char h)
    \<and> (case cfg_mounts c of None \<Rightarrow> True
       | Some ms \<Rightarrow> list_all (\<lambda>m. starts_with (destination m) ''/'') ms \<and> distinct (map destination ms))"

lemma parse_semver_empty: "parse_semver [] = None"
  by (simp add: parse_semver_def)

lemma validate_version_Inr: "validate_version c = Inr () \<longleftrightarrow> valid_version (oci_version c)"
  by (auto simp: validate_version_def valid_version_def compatible_version_def parse_semver_empty
      split: option.split)

lemma validate_process_Inr:
  "validate_process c = Inr () \<longleftrightarrow>
    (case cfg_process c of None \<Rightarrow> True | Some p \<Rightarrow> valid_process p)"
  by (auto simp: validate_process_def valid_process_def first_error_Inr validate_args_def
      validate_cwd_def validate_env_Inr list_all_iff list_ex_iff split: option.split)

lemma validate_hostname_Inr:
  "validate_hostname c = Inr () \<longleftrightarrow> (case cfg_hostname c of None \<Rightarrow> True
     | Some h \<Rightarrow> h \<noteq> [] \<and> length h \<le> 64 \<and> list_all hostname_char h)"
  by (auto simp: validate_hostname_def list_all_iff list_ex_iff split: option.split)

lemma validate_Inr: "validate c = Inr () \<longleftrightarrow> valid_config c"
  by (auto simp: validate_def first_error_Inr validate_version_Inr validate_root_def
      validate_process_Inr validate_hostname_Inr validate_mounts_def validate_mount_list_Inr
      valid_config_def split: option.split)

text \<open>A check answers yes or fails with a validation error.\<close>

definition decided :: "config_error + unit \<Rightarrow> bool" where
  "decided r \<longleftrightarrow> (case r of Inr _ \<Rightarrow> True | Inl (Validate _) \<Rightarrow> True | Inl _ \<Rightarrow> False)"

lemma decided_simps [simp]: "decided (Inr u)" "decided (Inl (Validate m))"
  by (simp_all add: decided_def)

lemma decided_first_error: "list_all decided rs \<Longrightarrow> decided (first_error rs)"
  by (induction rs rule: first_error.induct) auto

lemma decided_env [simp]: "decided (validate_env e)"
  by (induction e) auto

lemma decided_mount_list [simp]: "decided (validate_mount_list seen ms)"
  by (induction ms arbitrary: seen) auto

lemma decided_process [simp]: "decided (validate_process c)"
  by (auto simp: validate_process_def validate_args_def validate_cwd_def
      intro!: decided_first_error split: option.split)

lemma decided_validate: "decided (validate c)"
  unfolding validate_def
  by (rule decided_first_error)
    (simp add: validate_version_def validate_root_def validate_hostname_def validate_mounts_def
      split: option.split)

lemma validate_Inl: "(\<exists>msg. validate c = Inl (Validate msg)) \<longleftrightarrow> \<not> valid_config c"
  using decided_validate [of c] validate_Inr [of c]
  by (auto simp: decided_def split: sum.splits config_error.splits)

lemma takeWhile_digits:
  "list_all P xs \<Longrightarrow> (\<And>c. ys \<noteq> [] \<Longrightarrow> c = hd ys \<Longrightarrow> \<not> P c) \<Longrightarrow> takeWhile P (xs @ ys) = xs"
  by (induction xs) (auto simp: takeWhile_eq_Nil_iff)

section \<open>Properties\<close>

text \<open>
  C38. The scan behind the hugepage check decides the grammar it is documented with,
  \<open>^[1-9][0-9]*[KMG]i?B$\<close>: a digit from 1 to 9, digits, a unit letter, an optional i, and B.
\<close>

theorem hugepage_grammar:
  "is_valid_hugepage_size s \<longleftrightarrow>
    (\<exists>d ds u. s = d # ds @ u \<and> is_ascii_digit d \<and> d \<noteq> CHR ''0'' \<and> list_all is_ascii_digit ds
      \<and> u \<in> {''KB'', ''MB'', ''GB'', ''KiB'', ''MiB'', ''GiB''})"
proof
  assume v: "is_valid_hugepage_size s"
  then have len: "2 \<le> length s" by (simp add: is_valid_hugepage_size_def split: if_splits)
  then obtain d r where s: "s = d # r" by (cases s) auto
  have d: "is_ascii_digit d" "d \<noteq> CHR ''0''"
    using v s len by (auto simp: is_valid_hugepage_size_def split: if_splits)
  have "drop (length (takeWhile is_ascii_digit s)) s \<in> set hugepage_units"
    using v len by (auto simp: is_valid_hugepage_size_def Let_def split: if_splits)
  then have u: "dropWhile is_ascii_digit r \<in> set hugepage_units"
    by (simp add: s d dropWhile_eq_drop)
  have "s = d # takeWhile is_ascii_digit r @ dropWhile is_ascii_digit r" by (simp add: s)
  moreover have "list_all is_ascii_digit (takeWhile is_ascii_digit r)"
    by (auto simp: list_all_iff dest: set_takeWhileD)
  ultimately show "\<exists>d ds u. s = d # ds @ u \<and> is_ascii_digit d \<and> d \<noteq> CHR ''0'' \<and> list_all is_ascii_digit ds
      \<and> u \<in> {''KB'', ''MB'', ''GB'', ''KiB'', ''MiB'', ''GiB''}"
    using d u unfolding hugepage_units_def by (intro exI conjI; assumption?) simp_all
next
  assume "\<exists>d ds u. s = d # ds @ u \<and> is_ascii_digit d \<and> d \<noteq> CHR ''0'' \<and> list_all is_ascii_digit ds
      \<and> u \<in> {''KB'', ''MB'', ''GB'', ''KiB'', ''MiB'', ''GiB''}"
  then obtain d ds u where s: "s = d # ds @ u" and d: "is_ascii_digit d" "d \<noteq> CHR ''0''"
    and ds: "list_all is_ascii_digit ds" and u: "u \<in> set hugepage_units"
    by (auto simp: hugepage_units_def)
  have hd_u: "u \<noteq> []" "\<not> is_ascii_digit (hd u)"
    using u by (auto simp: hugepage_units_def is_ascii_digit_def)
  have "takeWhile is_ascii_digit s = d # ds"
    using takeWhile_digits [of is_ascii_digit "d # ds" u] ds d hd_u by (simp add: s)
  then show "is_valid_hugepage_size s"
    using d u hd_u(1) by (cases u) (simp_all add: is_valid_hugepage_size_def s)
qed

text \<open>
  C37. Validation decides exactly the documented conditions: a supported version (1.x or 0.5.x), a
  root path, non-empty arguments, an absolute working directory, KEY=VALUE environment entries, a
  host name of 1 to 64 admissible characters, and distinct absolute mount destinations. Whatever
  fails is reported as a validation error, and a configuration that loads is valid.
\<close>

theorem validate_decides:
  "(validate c = Inr () \<longleftrightarrow> valid_config c)
    \<and> ((\<exists>msg. validate c = Inl (Validate msg)) \<longleftrightarrow> \<not> valid_config c)
    \<and> (config_from_str parse txt = Inr c \<longleftrightarrow> parse txt = Inr c \<and> valid_config c)"
  using validate_Inr [of c] validate_Inl [of c]
  by (auto simp: config_from_str_def split: sum.splits)


end
