(* ===== verification/Effects.thy ===== *)
theory Effects
  imports OciConfig "HOL-Library.Sublist"
begin

text \<open>
  System calls of the container set-up code. The operating system is a parameter: it answers every
  call from the whole history of calls, with an \<open>errno\<close> or a number (a file descriptor, a truth
  value, flags, or 0 where the call returns nothing). The state of a program is that history, so what
  a program does to the system is what it appends.
\<close>

section \<open>Calls\<close>

datatype call =
    Mount "string option" string "string option" u64 "string option"
  | Exists string | IsDir string | CreateDirAll string | CreateFile string
  | WriteAll string string | Symlink string string | OpenPath string | OpenWrite string
  | Chroot string | Chdir string | SetHostname string
  | Socket | GetIfFlags int | SetIfFlags int u16 | CloseFd int
  | CapBsetDrop nat | CapAmbientClear | CapSet "u32 \<times> u32 \<times> u32" "u32 \<times> u32 \<times> u32"
  | CapAmbientRaise nat
  | SignalReady | AwaitMaps | Dup2Stdout | Dup2Stderr | TraceMe | RaiseSigstop
  | GetPersonality | SetPersonality u64
  | Execvpe "string list" "string list"
  | ReadFile string | OpenAppend string | OpenTrunc string | OpenRw string | ReadDir string
  | RemoveDirAll string | RemoveFile string | MkFifo string | ReadByte string
  | Kill pid int | OpenDir string | SetNs int u64 | Fchdir int
  | Pipe | Fork | CloneChild u64 | ReadReady | ReleaseChild | WaitChild pid | PtraceSetOptions pid
  | Setsid | DupNull nat | Report string
  | Lstat string | Stat string | SetMode string nat | Chown string | Utimens string | UnpackIn string string
  | ReadMagic string | Seek string

type_synonym os = "call list \<Rightarrow> errno + int"

type_synonym ('e, 'a) io = "(call list, 'e, 'a) prog"

definition sys :: "os \<Rightarrow> call \<Rightarrow> (errno \<Rightarrow> 'e) \<Rightarrow> ('e, int) io" where
  "sys os c wrap = (\<lambda>h. let h' = h @ [c] in case os h' of
      Inl e \<Rightarrow> (Err (wrap e), h') | Inr v \<Rightarrow> (Ok v, h'))"

text \<open>A call whose answer is ignored (\<open>let _ = ...\<close>), and one asked for a truth value.\<close>

definition sys_ignore :: "os \<Rightarrow> call \<Rightarrow> ('e, unit) io" where
  "sys_ignore os c = (\<lambda>h. (Ok (), h @ [c]))"

definition sys_ok :: "os \<Rightarrow> call \<Rightarrow> ('e, bool) io" where
  "sys_ok os c = (\<lambda>h. let h' = h @ [c] in (Ok (case os h' of Inl _ \<Rightarrow> False | Inr _ \<Rightarrow> True), h'))"

definition sys_test :: "os \<Rightarrow> call \<Rightarrow> ('e, bool) io" where
  "sys_test os c = (\<lambda>h. let h' = h @ [c] in
    (Ok (case os h' of Inl _ \<Rightarrow> False | Inr v \<Rightarrow> v \<noteq> 0), h'))"

text \<open>A call whose result, the error included, the program looks at.\<close>

definition sys_try :: "os \<Rightarrow> call \<Rightarrow> ('e, errno + int) io" where
  "sys_try os c = (\<lambda>h. let h' = h @ [c] in (Ok (os h'), h'))"

definition EINVAL :: errno where "EINVAL = 22"
definition EEXIST :: errno where "EEXIST = 17"

fun each :: "('x \<Rightarrow> ('s, 'e, unit) prog) \<Rightarrow> 'x list \<Rightarrow> ('s, 'e, unit) prog" where
  "each f [] = ret ()"
| "each f (x # xs) = andthen (f x) (each f xs)"

text \<open>Rust's \<open>map_err\<close>.\<close>

definition map_err :: "('e \<Rightarrow> 'f) \<Rightarrow> ('s, 'e, 'a) prog \<Rightarrow> ('s, 'f, 'a) prog" where
  "map_err g m = (\<lambda>s. case m s of
      (Ok a, s') \<Rightarrow> (Ok a, s') | (Err e, s') \<Rightarrow> (Err (g e), s') | (More, s') \<Rightarrow> (More, s'))"

section \<open>Histories only grow\<close>

text \<open>The calls of a history that succeeded, in order.\<close>

definition succeeded :: "os \<Rightarrow> call list \<Rightarrow> call list" where
  "succeeded os h = map (\<lambda>i. h ! i)
    (filter (\<lambda>i. case os (take (Suc i) h) of Inl _ \<Rightarrow> False | Inr _ \<Rightarrow> True) [0..<length h])"

lemma succeeded_snoc:
  "succeeded os (h @ [c]) =
    succeeded os h @ (case os (h @ [c]) of Inl _ \<Rightarrow> [] | Inr _ \<Rightarrow> [c])"
proof -
  have "map ((!) (h @ [c])) (filter (\<lambda>i. case os (take (Suc i) (h @ [c])) of Inl _ \<Rightarrow> False | Inr _ \<Rightarrow> True)
      [0..<length h]) = succeeded os h"
    unfolding succeeded_def
    by (intro map_cong filter_cong) (auto simp: nth_append)
  then show ?thesis
    by (simp add: succeeded_def split: sum.split)
qed

definition grows :: "os \<Rightarrow> call list \<Rightarrow> call list \<Rightarrow> bool" where
  "grows os h h' \<longleftrightarrow> prefix (succeeded os h) (succeeded os h')"

interpretation gr: evolution "grows os" "grows os" for os
  by unfold_locales (auto simp: grows_def)

named_theorems grow_intros \<open>programs that only append to the history\<close>

lemma grows_snoc: "grows os h (h @ [c])"
  by (simp add: grows_def succeeded_snoc)

lemma sys_grows [grow_intros]: "moves (grows os) (grows os) (sys os c w)"
  by (simp add: moves_all sys_def Let_def grows_snoc split: sum.split)

lemma small_grow [grow_intros]:
  "moves (grows os) (grows os) (sys_ignore os c)" "moves (grows os) (grows os) (sys_ok os c)"
  "moves (grows os) (grows os) (sys_test os c)" "moves (grows os) (grows os) (sys_try os c)"
  by (simp_all add: moves_all sys_ignore_def sys_ok_def sys_test_def sys_try_def Let_def grows_snoc)

lemma each_grows [grow_intros]:
  "(\<And>x. moves (grows os) (grows os) (f x)) \<Longrightarrow> moves (grows os) (grows os) (each f xs)"
  by (induction xs) (auto intro: gr.moves_intros)

section \<open>What has been done\<close>

text \<open>
  \<open>achieved os cs\<close>: the calls \<open>cs\<close> have succeeded, in that order, possibly with others in between.
  \<open>achieves os cs m\<close>: a normal return of \<open>m\<close> adds \<open>cs\<close> to what was achieved before.
\<close>

definition achieved :: "os \<Rightarrow> call list \<Rightarrow> call list \<Rightarrow> bool" where
  "achieved os cs h \<longleftrightarrow> subseq cs (succeeded os h)"

definition achieves :: "os \<Rightarrow> call list \<Rightarrow> ('e, 'a) io \<Rightarrow> bool" where
  "achieves os cs m \<longleftrightarrow> (\<forall>ds. triple (achieved os ds) m (\<lambda>_. achieved os (ds @ cs)) (\<lambda>_. True))"

lemma achieved_grows: "achieved os cs h \<Longrightarrow> grows os h h' \<Longrightarrow> achieved os cs h'"
  unfolding achieved_def grows_def
  by (metis prefix_imp_subseq subseq_order.order_trans)

named_theorems achieve_intros \<open>what programs achieve\<close>

lemma achieves_nothing:
  assumes "moves (grows os) (grows os) m"
  shows "achieves os [] m"
  unfolding achieves_def append_Nil2
  by (intro allI tripleI) (auto intro: achieved_grows dest: moves_Ok [OF assms])

lemma achieves_sys: "achieves os [c] (sys os c w)"
  by (auto simp: achieves_def triple_def sys_def Let_def achieved_def succeeded_snoc
      intro: list_emb_append_mono split: sum.split)

lemma achieves_bind:
  assumes "achieves os cs m" and "\<And>a. achieves os ds (f a)"
  shows "achieves os (cs @ ds) (bind m f)"
  unfolding achieves_def
proof
  fix es
  show "triple (achieved os es) (bind m f) (\<lambda>_. achieved os (es @ cs @ ds)) (\<lambda>_. True)"
    using assms unfolding achieves_def
    by (intro triple_bind [where Q' = "\<lambda>_. achieved os (es @ cs)"]) (simp_all flip: append_assoc)
qed

lemma achieves_andthen:
  "achieves os cs m \<Longrightarrow> achieves os ds n \<Longrightarrow> achieves os (cs @ ds) (andthen m n)"
  unfolding andthen_def by (rule achieves_bind)

lemma achieves_each:
  assumes "\<And>x. achieves os (cs x) (f x)"
  shows "achieves os (concat (map cs xs)) (each f xs)"
proof (induction xs)
  case Nil
  then show ?case by (simp add: achieves_nothing gr.moves_ret)
next
  case (Cons x xs)
  then show ?case using achieves_andthen [OF assms Cons] by simp
qed

lemma achieves_if:
  "(b \<Longrightarrow> achieves os cs m) \<Longrightarrow> (\<not> b \<Longrightarrow> achieves os cs n) \<Longrightarrow> achieves os cs (if b then m else n)"
  by simp

lemma achieves_fail: "achieves os cs (fail e)"
  by (simp add: achieves_def triple_fail)

section \<open>Scripts\<close>

text \<open>
  \<open>plays cs m\<close>: \<open>m\<close> makes exactly the calls \<open>cs\<close> when it returns normally, and a prefix of them when
  it fails.
\<close>

definition plays :: "call list \<Rightarrow> ('e, 'a) io \<Rightarrow> bool" where
  "plays cs m \<longleftrightarrow> (\<forall>h. case m h of
      (Ok _, h') \<Rightarrow> h' = h @ cs
    | (Err _, h') \<Rightarrow> prefix h h' \<and> prefix h' (h @ cs)
    | (More, _) \<Rightarrow> False)"

named_theorems plays_intros \<open>the calls of a program\<close>

lemma plays_ret [plays_intros]: "plays [] (ret a)"
  by (simp add: plays_def ret_def)

lemma plays_fail [plays_intros]: "plays cs (fail e)"
  by (simp add: plays_def fail_def)

lemma plays_sys [plays_intros]: "plays [c] (sys os c w)" "plays [c] (sys_ignore os c)"
  "plays [c] (sys_ok os c)" "plays [c] (sys_test os c)" "plays [c] (sys_try os c)"
  by (simp_all add: plays_def sys_def sys_ignore_def sys_ok_def sys_test_def sys_try_def Let_def
      split: sum.split)

lemma plays_Err_append:
  assumes "plays cs m" and "m h = (Err e, h')"
  shows "prefix h h' \<and> prefix h' (h @ cs @ ds)"
proof -
  have "prefix h h'" "prefix h' (h @ cs)"
    using assms unfolding plays_def by (auto dest: spec [of _ h])
  then show ?thesis by (metis append_assoc prefix_append)
qed

lemma plays_bind:
  assumes m: "plays cs m" and f: "\<And>a. plays ds (f a)"
  shows "plays (cs @ ds) (bind m f)"
  unfolding plays_def
proof
  fix h
  obtain r t where mh: "m h = (r, t)" by (cases "m h")
  show "case bind m f h of (Ok _, h') \<Rightarrow> h' = h @ cs @ ds
    | (Err _, h') \<Rightarrow> prefix h h' \<and> prefix h' (h @ cs @ ds) | (More, _) \<Rightarrow> False"
  proof (cases r)
    case (Ok a)
    then have t: "t = h @ cs" using m mh unfolding plays_def by (auto dest: spec [of _ h])
    have "case f a t of (Ok _, h') \<Rightarrow> h' = t @ ds
        | (Err _, h') \<Rightarrow> prefix t h' \<and> prefix h' (t @ ds) | (More, _) \<Rightarrow> False"
      using f [of a] unfolding plays_def by (rule spec)
    then show ?thesis
      using mh Ok unfolding bind_def t
      by (auto split: prod.splits outcome.splits dest: append_prefixD)
  next
    case (Err e)
    then show ?thesis using mh plays_Err_append [OF m] by (simp add: bind_def)
  next
    case More
    then show ?thesis using m mh unfolding plays_def by (auto dest: spec [of _ h])
  qed
qed

lemma plays_andthen:
  "plays cs m \<Longrightarrow> plays ds n \<Longrightarrow> plays (cs @ ds) (andthen m n)"
  unfolding andthen_def by (rule plays_bind)

lemma plays_each:
  assumes "\<And>x. plays (cs x) (f x)"
  shows "plays (concat (map cs xs)) (each f xs)"
  by (induction xs) (use assms in \<open>auto intro: plays_ret plays_andthen\<close>)

lemma plays_unit: "plays cs m \<Longrightarrow> plays cs (bind m (\<lambda>_. ret ()))"
  using plays_bind [of cs m "[]" "\<lambda>_. ret ()"] by (simp add: plays_ret)

lemma plays_map_err:
  assumes "plays cs m"
  shows "plays cs (map_err g m)"
  unfolding plays_def
proof
  fix h
  show "case map_err g m h of (Ok _, h') \<Rightarrow> h' = h @ cs
    | (Err _, h') \<Rightarrow> prefix h h' \<and> prefix h' (h @ cs) | (More, _) \<Rightarrow> False"
    using assms [unfolded plays_def, rule_format, of h]
    by (cases "m h"; cases "fst (m h)") (simp_all add: map_err_def)
qed

lemma map_err_grows [grow_intros]:
  "moves (grows os) (grows os) m \<Longrightarrow> moves (grows os) (grows os) (map_err g m)"
  unfolding moves_all map_err_def
  by (auto split: prod.splits outcome.splits) (metis snd_conv)+

lemma playsD_Ok: "plays cs m \<Longrightarrow> m h = (Ok a, h') \<Longrightarrow> h' = h @ cs"
  by (auto simp: plays_def dest: spec [of _ h])

lemma playsD_Err: "plays cs m \<Longrightarrow> m h = (Err e, h') \<Longrightarrow> prefix h h' \<and> prefix h' (h @ cs)"
  by (auto simp: plays_def dest: spec [of _ h])

lemma playsD_More: "plays cs m \<Longrightarrow> m h \<noteq> (More, h')"
  by (auto simp: plays_def dest: spec [of _ h])

end
