(* ===== verification/StateStore.thy ===== *)
theory StateStore
  imports Effects "HOL-Library.Char_ord" "HOL-Library.List_Lexorder"
begin

text \<open>
  Container state on disk (\<open>src/runtime/state.rs\<close>): the OCI state object, its file, the exec FIFO and
  the trace file of a container, in a store of files keyed by path. The operating system answers every
  call; a call that succeeds has its documented effect on the store, a write that fails may have
  written any part of its data. JSON is printed and parsed by serde, a parameter.
\<close>

section \<open>The state object\<close>

datatype status = Creating | Created | Running | StoppedStatus

primrec status_as_str :: "status \<Rightarrow> string" where
  "status_as_str Creating = ''creating''"
| "status_as_str Created = ''created''"
| "status_as_str Running = ''running''"
| "status_as_str StoppedStatus = ''stopped''"

text \<open>A container only moves forward through its statuses: this is their order.\<close>

primrec status_rank :: "status \<Rightarrow> nat" where
  "status_rank Creating = 0"
| "status_rank Created = 1"
| "status_rank Running = 2"
| "status_rank StoppedStatus = 3"

lemma status_rank_inject: "status_rank a = status_rank b \<longleftrightarrow> a = b"
  by (cases a; cases b) simp_all

instantiation status :: linorder
begin

definition less_eq_status :: "status \<Rightarrow> status \<Rightarrow> bool" where
  "less_eq_status a b \<longleftrightarrow> status_rank a \<le> status_rank b"

definition less_status :: "status \<Rightarrow> status \<Rightarrow> bool" where
  "less_status a b \<longleftrightarrow> status_rank a < status_rank b"

instance
  by standard (auto simp: less_eq_status_def less_status_def status_rank_inject)

end

record container_state =
  st_oci_version :: string
  st_id :: string
  st_status :: status
  st_pid :: pid
  st_bundle :: string
  st_rootfs :: string
  st_seed :: u64
  st_exit_code :: "int option"
  st_created :: string

datatype state_error = StateIo errno | StateParse string | StateMissing

section \<open>The world\<close>

text \<open>
  A FIFO counts its open descriptors and holds the bytes written; the kernel discards them when the
  last descriptor is closed (fifo(7)).
\<close>

datatype node = Dir | File string | Fifo nat string

record world =
  calls :: "call list"
  files :: "(string \<times> node) list"

record tm =
  tm_year :: int
  tm_mon :: int
  tm_mday :: int
  tm_hour :: int
  tm_min :: int
  tm_sec :: int

text \<open>
  What the environment provides: the answers to calls, how much of a failing write reached the file,
  the clock as \<open>localtime_r\<close> breaks it down, and serde's printing and parsing.
\<close>

record env =
  answers :: os
  torn :: "call list \<Rightarrow> nat"
  localtime :: "call list \<Rightarrow> tm"
  state_to_json :: "container_state \<Rightarrow> string + string"
  state_from_json :: "string \<Rightarrow> string + container_state"
  json_to_string :: "json \<Rightarrow> string"
  json_to_string_pretty :: "json \<Rightarrow> string"

type_synonym ('e, 'a) wprog = "(world, 'e, 'a) prog"

text \<open>A call with its effect on the store when it succeeds and when it fails.\<close>

definition wcall ::
  "env \<Rightarrow> call \<Rightarrow> ((string \<times> node) list \<Rightarrow> (string \<times> node) list) \<Rightarrow>
    ((string \<times> node) list \<Rightarrow> (string \<times> node) list) \<Rightarrow> (errno \<Rightarrow> 'e) \<Rightarrow> ('e, int) wprog" where
  "wcall E c ok bad wrap = (\<lambda>w. let h = calls w @ [c] in case answers E h of
      Inl e \<Rightarrow> (Err (wrap e), w\<lparr>calls := h, files := bad (files w)\<rparr>)
    | Inr v \<Rightarrow> (Ok v, w\<lparr>calls := h, files := ok (files w)\<rparr>))"

text \<open>A program that only makes calls.\<close>

definition on_calls :: "('e, 'a) io \<Rightarrow> ('e, 'a) wprog" where
  "on_calls m = (\<lambda>w. case m (calls w) of (r, h) \<Rightarrow> (r, w\<lparr>calls := h\<rparr>))"

section \<open>Files\<close>

definition file_at :: "string \<Rightarrow> (string \<times> node) list \<Rightarrow> string option" where
  "file_at p fs = (case map_of fs p of Some (File s) \<Rightarrow> Some s | _ \<Rightarrow> None)"

definition make_dir :: "string \<Rightarrow> (string \<times> node) list \<Rightarrow> (string \<times> node) list" where
  "make_dir p fs = (if map_of fs p = None then AList.update p Dir fs else fs)"

definition truncate_file :: "string \<Rightarrow> (string \<times> node) list \<Rightarrow> (string \<times> node) list" where
  "truncate_file p fs = AList.update p (File []) fs"

definition append_to :: "string \<Rightarrow> string \<Rightarrow> (string \<times> node) list \<Rightarrow> (string \<times> node) list" where
  "append_to p s fs = (case map_of fs p of
      Some (File old) \<Rightarrow> AList.update p (File (old @ s)) fs
    | Some (Fifo n old) \<Rightarrow> AList.update p (Fifo n (old @ s)) fs
    | Some Dir \<Rightarrow> fs
    | None \<Rightarrow> AList.update p (File s) fs)"

definition write_all :: "env \<Rightarrow> string \<Rightarrow> string \<Rightarrow> (errno \<Rightarrow> 'e) \<Rightarrow> ('e, unit) wprog" where
  "write_all E p s wrap = bind (gets calls) (\<lambda>h.
    bind (wcall E (WriteAll p s) (append_to p s) (append_to p (take (torn E h) s)) wrap) (\<lambda>_. ret ()))"

definition ENOENT :: errno where "ENOENT = 2"

text \<open>A call that creates or opens an entry of the directory \<open>d\<close> fails when \<open>d\<close> is gone.\<close>

definition wcall_in ::
  "env \<Rightarrow> string \<Rightarrow> call \<Rightarrow> ((string \<times> node) list \<Rightarrow> (string \<times> node) list) \<Rightarrow> (errno \<Rightarrow> 'e) \<Rightarrow> ('e, int) wprog"
where
  "wcall_in E d c ok wrap = (\<lambda>w.
    if map_of (files w) d = None then (Err (wrap ENOENT), w\<lparr>calls := calls w @ [c]\<rparr>)
    else wcall E c ok id wrap w)"

text \<open>\<open>fs::read_to_string\<close>: what the store holds, unless the system refuses.\<close>

definition read_to_string :: "env \<Rightarrow> string \<Rightarrow> (errno, string) wprog" where
  "read_to_string E p = (\<lambda>w. let h = calls w @ [ReadFile p]; w' = w\<lparr>calls := h\<rparr> in
    case file_at p (files w) of
      None \<Rightarrow> (Err ENOENT, w')
    | Some s \<Rightarrow> (case answers E h of Inl e \<Rightarrow> (Err e, w') | Inr _ \<Rightarrow> (Ok s, w')))"

section \<open>Paths\<close>

text \<open>\<open>Path::join\<close>: an absolute second path replaces the first.\<close>

definition path_join :: "string \<Rightarrow> string \<Rightarrow> string" where
  "path_join a b =
    (if starts_with b ''/'' then b
     else if a = [] then b
     else if last a = CHR ''/'' then a @ b
     else a @ ''/'' @ b)"

definition container_dir :: "string \<Rightarrow> string \<Rightarrow> string" where
  "container_dir root i = path_join root i"

definition state_file :: "string \<Rightarrow> string \<Rightarrow> string" where
  "state_file root i = path_join (container_dir root i) ''state.json''"

definition exec_fifo :: "string \<Rightarrow> string \<Rightarrow> string" where
  "exec_fifo root i = path_join (container_dir root i) ''exec.fifo''"

definition trace_file :: "string \<Rightarrow> string \<Rightarrow> string" where
  "trace_file root i = path_join (container_dir root i) ''trace.jsonl''"

section \<open>The timestamp\<close>

text \<open>\<open>{:0w}\<close>: padded with zeros to width \<open>w\<close>, the sign first.\<close>

definition zero_padded :: "nat \<Rightarrow> int \<Rightarrow> string" where
  "zero_padded w i =
    (let sign = (if i < 0 then ''-'' else []); d = show_nat (nat \<bar>i\<bar>) in
     sign @ replicate (w - length sign - length d) (CHR ''0'') @ d)"

definition chrono_like :: "tm \<Rightarrow> string" where
  "chrono_like t = zero_padded 4 (tm_year t + 1900) @ ''-'' @ zero_padded 2 (tm_mon t + 1) @ ''-''
    @ zero_padded 2 (tm_mday t) @ ''T'' @ zero_padded 2 (tm_hour t) @ '':''
    @ zero_padded 2 (tm_min t) @ '':'' @ zero_padded 2 (tm_sec t) @ ''Z''"

definition now_rfc3339 :: "env \<Rightarrow> ('e, string) wprog" where
  "now_rfc3339 E = gets (\<lambda>w. chrono_like (localtime E (calls w)))"

section \<open>Operations on a container's directory\<close>

definition init_container_dir :: "env \<Rightarrow> string \<Rightarrow> string \<Rightarrow> (errno, string) wprog" where
  "init_container_dir E root i =
    (let dir = container_dir root i in
     bind (wcall E (CreateDirAll dir) (make_dir dir) id id) (\<lambda>_. ret dir))"

definition write_state :: "env \<Rightarrow> container_state \<Rightarrow> string \<Rightarrow> (state_error, unit) wprog" where
  "write_state E st root =
    (let p = state_file root (st_id st) in
     case state_to_json E st of
       Inl msg \<Rightarrow> fail (StateParse msg)
     | Inr text \<Rightarrow>
         bind (wcall_in E (container_dir root (st_id st)) (CreateFile p) (truncate_file p) StateIo) (\<lambda>_.
           write_all E p text StateIo))"

definition read_state :: "env \<Rightarrow> string \<Rightarrow> string \<Rightarrow> (state_error, container_state) wprog" where
  "read_state E root i =
    bind (map_err (\<lambda>e. if e = ENOENT then StateMissing else StateIo e)
      (read_to_string E (state_file root i))) (\<lambda>content.
    case state_from_json E content of Inl msg \<Rightarrow> fail (StateParse msg) | Inr st \<Rightarrow> ret st)"

definition under :: "string \<Rightarrow> string \<Rightarrow> bool" where
  "under dir p \<longleftrightarrow> p = dir \<or> starts_with p (path_join dir [])"

definition remove_under :: "string \<Rightarrow> (string \<times> node) list \<Rightarrow> (string \<times> node) list" where
  "remove_under dir fs = filter (\<lambda>(p, _). \<not> under dir p) fs"

text \<open>A failing \<open>remove_dir_all\<close> may have removed some of the entries.\<close>

definition remove_some :: "nat \<Rightarrow> string \<Rightarrow> (string \<times> node) list \<Rightarrow> (string \<times> node) list" where
  "remove_some n dir fs =
    (let gone = take n (filter (under dir) (map fst fs)) in filter (\<lambda>(p, _). p \<notin> set gone) fs)"

definition remove_state :: "env \<Rightarrow> string \<Rightarrow> string \<Rightarrow> (state_error, unit) wprog" where
  "remove_state E root i =
    (let dir = container_dir root i in
     bind (gets calls) (\<lambda>h.
     bind (wcall E (RemoveDirAll dir) (remove_under dir) (remove_some (torn E h) dir) StateIo) (\<lambda>_.
       ret ())))"

text \<open>The names of a directory's entries, from the paths below it.\<close>

definition entry_name :: "string \<Rightarrow> string \<Rightarrow> string option" where
  "entry_name dir p = (case strip_prefix (path_join dir []) p of
      None \<Rightarrow> None
    | Some rest \<Rightarrow> (let n = takeWhile (\<lambda>c. c \<noteq> CHR ''/'') rest in if n = [] then None else Some n))"

definition entries :: "string \<Rightarrow> (string \<times> node) list \<Rightarrow> string list" where
  "entries dir fs = remdups (List.map_filter (entry_name dir) (map fst fs))"

definition list_ids :: "env \<Rightarrow> string \<Rightarrow> ('e, string list) wprog" where
  "list_ids E root = (\<lambda>w. let h = calls w @ [ReadDir root]; w' = w\<lparr>calls := h\<rparr> in
    case answers E h of
      Inl _ \<Rightarrow> (Ok [], w')
    | Inr _ \<Rightarrow> (Ok (sort (filter (\<lambda>i. map_of (files w) (state_file root i) \<noteq> None)
        (entries root (files w)))), w'))"

definition reset_trace :: "env \<Rightarrow> string \<Rightarrow> string \<Rightarrow> ('e, unit) wprog" where
  "reset_trace E root i =
    (let p = trace_file root i in
     bind (attempt (wcall_in E (container_dir root i) (OpenTrunc p) (truncate_file p) id)) (\<lambda>_. ret ()))"

definition trace_event :: "env \<Rightarrow> string \<Rightarrow> string \<Rightarrow> json \<Rightarrow> ('e, unit) wprog" where
  "trace_event E root i event =
    (let p = trace_file root i in
     bind (attempt (wcall_in E (container_dir root i) (OpenAppend p) (append_to p []) id)) (\<lambda>f. case f of
         None \<Rightarrow> ret ()
       | Some _ \<Rightarrow> bind (attempt (write_all E p (json_to_string E event @ [CHR 0x0A]) id)) (\<lambda>_. ret ())))"

section \<open>Reading back\<close>

lemma file_at_truncate [simp]: "file_at p (truncate_file p fs) = Some []"
  by (simp add: file_at_def truncate_file_def)

lemma file_at_append [simp]: "file_at p fs = Some old \<Longrightarrow> file_at p (append_to p s fs) = Some (old @ s)"
  by (auto simp: file_at_def append_to_def split: option.splits node.splits)

lemma other_paths [simp]:
  "q \<noteq> p \<Longrightarrow> map_of (make_dir p fs) q = map_of fs q"
  "q \<noteq> p \<Longrightarrow> map_of (truncate_file p fs) q = map_of fs q"
  "q \<noteq> p \<Longrightarrow> map_of (append_to p s fs) q = map_of fs q"
  by (simp_all add: make_dir_def truncate_file_def append_to_def split: option.split node.split)

lemma file_at_cong: "map_of fs p = map_of gs p \<Longrightarrow> file_at p fs = file_at p gs"
  by (simp add: file_at_def)

lemma wcall_Ok:
  "wcall E c ok bad wrap w = (Ok v, w') \<longleftrightarrow>
    answers E (calls w @ [c]) = Inr v \<and> w' = w\<lparr>calls := calls w @ [c], files := ok (files w)\<rparr>"
  by (auto simp: wcall_def Let_def split: sum.split)

lemma wcall_in_Ok:
  "wcall_in E d c ok wrap w = (Ok v, w') \<longleftrightarrow> map_of (files w) d \<noteq> None
    \<and> answers E (calls w @ [c]) = Inr v \<and> w' = w\<lparr>calls := calls w @ [c], files := ok (files w)\<rparr>"
  by (simp add: wcall_in_def wcall_Ok)

lemma write_all_Ok:
  "write_all E p s wrap w = (Ok u, w') \<longleftrightarrow>
    (\<exists>v. answers E (calls w @ [WriteAll p s]) = Inr v)
    \<and> w' = w\<lparr>calls := calls w @ [WriteAll p s], files := append_to p s (files w)\<rparr>"
  by (auto simp: write_all_def bind_eq_Ok gets_def wcall_Ok ret_def)

lemma write_state_Ok:
  assumes "write_state E st root w = (Ok u, w')"
  shows "\<exists>text. state_to_json E st = Inr text
    \<and> file_at (state_file root (st_id st)) (files w') = Some text
    \<and> (\<forall>p. p = state_file root (st_id st) \<or> map_of (files w') p = map_of (files w) p)"
  using assms
  by (auto simp: write_state_def Let_def bind_eq_Ok wcall_in_Ok write_all_Ok fail_def split: sum.splits)
    (metis other_paths(2,3))

section \<open>Paths of different containers\<close>

text \<open>A plain id is a non-empty path component.\<close>

definition plain_id :: "string \<Rightarrow> bool" where
  "plain_id i \<longleftrightarrow> i \<noteq> [] \<and> CHR ''/'' \<notin> set i"

lemma plain_not_absolute: "plain_id i \<Longrightarrow> \<not> starts_with i ''/''"
  by (auto simp: plain_id_def starts_with_iff)

lemma join_slash: "path_join a [] = a \<or> path_join a [] = a @ ''/''"
  by (auto simp: path_join_def starts_with_def)

lemma path_join_relative: "\<not> starts_with b ''/'' \<Longrightarrow> path_join a b = path_join a [] @ b"
  by (cases b) (auto simp: path_join_def starts_with_def)

lemma path_join_closed: "\<not> starts_with b ''/'' \<Longrightarrow> b \<noteq> [] \<Longrightarrow> last b \<noteq> CHR ''/'' \<Longrightarrow>
    path_join (path_join a b) [] = path_join a b @ ''/''"
  by (auto simp: path_join_def starts_with_def)

lemma under_join: "\<not> starts_with b ''/'' \<Longrightarrow> under dir (path_join dir b)"
  using path_join_relative [of b dir] by (auto simp: under_def starts_with_iff)

lemma plain_last: "plain_id i \<Longrightarrow> last i \<noteq> CHR ''/''"
  by (metis last_in_set plain_id_def)

lemma container_dir_plain: "plain_id i \<Longrightarrow> path_join (container_dir root i) [] = path_join root [] @ i @ ''/''"
  unfolding container_dir_def
  using path_join_closed [of i root] path_join_relative [of i root]
  by (simp add: plain_not_absolute plain_last plain_id_def)

lemma container_file_plain:
  assumes "plain_id i" and "\<not> starts_with f ''/''"
  shows "path_join (container_dir root i) f = path_join root [] @ i @ ''/'' @ f"
  using path_join_relative [OF assms(2), of "container_dir root i"] container_dir_plain [OF assms(1), of root]
  by simp

lemma split_at_slash: "CHR ''/'' \<notin> set i \<Longrightarrow> CHR ''/'' \<notin> set j \<Longrightarrow> i @ ''/'' @ s = j @ ''/'' @ t \<Longrightarrow> i = j"
  by (induction i arbitrary: j) (auto simp: Cons_eq_append_conv)

lemma files_of_others:
  assumes "plain_id i" "plain_id j" "i \<noteq> j" and "\<not> starts_with f ''/''"
  shows "\<not> under (container_dir root i) (path_join (container_dir root j) f)"
proof
  assume u: "under (container_dir root i) (path_join (container_dir root j) f)"
  have f: "path_join (container_dir root j) f = path_join root [] @ j @ ''/'' @ f"
    by (rule container_file_plain) fact+
  have d: "path_join (container_dir root i) [] = path_join root [] @ i @ ''/''"
    by (rule container_dir_plain) fact
  have i: "container_dir root i = path_join root [] @ i"
    using path_join_relative [of i root] assms(1) by (simp add: container_dir_def plain_not_absolute)
  from u show False
    unfolding under_def
  proof
    assume "path_join (container_dir root j) f = container_dir root i"
    then have "i = j @ ''/'' @ f" unfolding f i by simp
    then show False using assms(1) by (auto simp: plain_id_def)
  next
    assume "starts_with (path_join (container_dir root j) f) (path_join (container_dir root i) [])"
    then obtain t where "path_join root [] @ j @ ''/'' @ f = (path_join root [] @ i @ ''/'') @ t"
      unfolding f d starts_with_iff by blast
    then have "i @ ''/'' @ t = j @ ''/'' @ f" by simp
    then show False using split_at_slash [of i j t f] assms by (simp add: plain_id_def)
  qed
qed

end
