(* ===== verification/Ops.thy ===== *)
theory Ops
  imports StateStore Supervisor
begin

text \<open>
  Lifecycle commands on an existing container (\<open>src/runtime/ops.rs\<close>): \<open>start\<close>, \<open>kill\<close>, \<open>delete\<close>,
  \<open>state\<close> and \<open>list\<close>, with the errors of the runtime host and how they are displayed. What the
  commands print goes to the log; here it is the value they return.
\<close>

section \<open>Errors\<close>

datatype host_error =
    HConfig string
  | HState state_error
  | HIo errno
  | HErrno string errno
  | HClone errno
  | HWait errno
  | HSupervise supervise_error
  | HNotFound
  | HNotCreated
  | HBadSignal string

text \<open>\<open>es\<close> displays an \<open>errno\<close>.\<close>

definition show_state_error :: "(errno \<Rightarrow> string) \<Rightarrow> state_error \<Rightarrow> string" where
  "show_state_error es e = (case e of
      StateIo n \<Rightarrow> ''state io error: '' @ es n
    | StateParse msg \<Rightarrow> ''state parse error: '' @ msg
    | StateMissing \<Rightarrow> ''container not found'')"

definition show_supervise_error :: "(errno \<Rightarrow> string) \<Rightarrow> supervise_error \<Rightarrow> string" where
  "show_supervise_error es e = (case e of
      Ptrace n \<Rightarrow> ''ptrace failed: '' @ es n
    | Wait n \<Rightarrow> ''waitpid failed: '' @ es n
    | Io n \<Rightarrow> ''io failed: '' @ es n
    | Deadlock \<Rightarrow> ''all threads are parked on futex waits (deadlock)'')"

definition show_signal_error :: "signal_error \<Rightarrow> string" where
  "show_signal_error e = (case e of BadSignal s \<Rightarrow> ''unknown signal '' @ quoted s)"

definition show_host_error :: "(errno \<Rightarrow> string) \<Rightarrow> host_error \<Rightarrow> string" where
  "show_host_error es e = (case e of
      HConfig msg \<Rightarrow> ''invalid config: '' @ msg
    | HState s \<Rightarrow> show_state_error es s
    | HIo n \<Rightarrow> ''io error: '' @ es n
    | HErrno op n \<Rightarrow> op @ '' failed: '' @ es n
    | HClone n \<Rightarrow> ''clone failed: '' @ es n
    | HWait n \<Rightarrow> ''wait failed: '' @ es n
    | HSupervise s \<Rightarrow> ''supervisor error: '' @ show_supervise_error es s
    | HNotFound \<Rightarrow> ''container not found''
    | HNotCreated \<Rightarrow> ''container is not in the created state''
    | HBadSignal s \<Rightarrow> ''unknown signal '' @ quoted s)"

section \<open>The exec FIFO\<close>

definition fifo_opened :: "string \<Rightarrow> (string \<times> node) list \<Rightarrow> (string \<times> node) list" where
  "fifo_opened p fs = (case map_of fs p of
      Some (Fifo n s) \<Rightarrow> AList.update p (Fifo (Suc n) s) fs | _ \<Rightarrow> fs)"

definition fifo_closed :: "string \<Rightarrow> (string \<times> node) list \<Rightarrow> (string \<times> node) list" where
  "fifo_closed p fs = (case map_of fs p of
      Some (Fifo n s) \<Rightarrow> AList.update p (Fifo (n - 1) (if n \<le> 1 then [] else s)) fs | _ \<Rightarrow> fs)"

text \<open>Opening for reading and writing does not block and does not create the FIFO.\<close>

definition open_fifo :: "env \<Rightarrow> string \<Rightarrow> (host_error, unit) wprog" where
  "open_fifo E p =
    bind (gets (\<lambda>w. map_of (files w) p = None)) (\<lambda>missing.
      if missing then fail (HIo ENOENT)
      else bind (wcall E (OpenRw p) (fifo_opened p) id HIo) (\<lambda>_. ret ()))"

definition close_fifo :: "string \<Rightarrow> ('e, unit) wprog" where
  "close_fifo p = modify (\<lambda>w. w\<lparr>files := fifo_closed p (files w)\<rparr>)"

text \<open>Run \<open>m\<close>, then the destructor \<open>n\<close>, whatever the outcome of \<open>m\<close>.\<close>

definition and_drop :: "('s, 'e, 'a) prog \<Rightarrow> ('s, 'e, unit) prog \<Rightarrow> ('s, 'e, 'a) prog" where
  "and_drop m n = (\<lambda>s. case m s of (r, s') \<Rightarrow> (r, snd (n s')))"

section \<open>The commands\<close>

definition lift_state :: "(state_error, 'a) wprog \<Rightarrow> (host_error, 'a) wprog" where
  "lift_state m = map_err HState m"

definition start_container :: "env \<Rightarrow> string \<Rightarrow> string \<Rightarrow> (host_error, unit) wprog" where
  "start_container E root i =
    bind (lift_state (read_state E root i)) (\<lambda>st.
      if st_status st \<noteq> Created then fail HNotCreated
      else let fifo = exec_fifo root i in
        andthen (open_fifo E fifo)
          (and_drop (write_all E fifo ''x'' HIo) (close_fifo fifo)))"

definition kill_call :: "env \<Rightarrow> pid \<Rightarrow> signal \<Rightarrow> (host_error, unit) wprog" where
  "kill_call E p sig =
    bind (wcall E (Kill p (signal_number sig)) id id (HErrno ''kill'')) (\<lambda>_. ret ())"

definition kill_container :: "env \<Rightarrow> string \<Rightarrow> string \<Rightarrow> string \<Rightarrow> (host_error, unit) wprog" where
  "kill_container E root i sig =
    bind (lift_state (read_state E root i)) (\<lambda>st.
      if st_pid st \<le> 0 then fail HNotFound
      else case parse_signal sig of
          Inl e \<Rightarrow> fail (HBadSignal (show_signal_error e))
        | Inr s \<Rightarrow> kill_call E (st_pid st) s)"

definition delete_container :: "env \<Rightarrow> string \<Rightarrow> string \<Rightarrow> bool \<Rightarrow> (host_error, unit) wprog" where
  "delete_container E root i force =
    bind (lift_state (read_state E root i)) (\<lambda>st.
      if st_status st \<noteq> StoppedStatus \<and> \<not> force
      then fail (HConfig (''container '' @ quoted i @ '' is still running (use --force)''))
      else andthen (if force \<and> 0 < st_pid st
                    then bind (attempt (kill_call E (st_pid st) SIGKILL)) (\<lambda>_. ret ()) else ret ())
        (lift_state (remove_state E root i)))"

definition print_container_state :: "env \<Rightarrow> string \<Rightarrow> string \<Rightarrow> (host_error, string) wprog" where
  "print_container_state E root i =
    bind (lift_state (read_state E root i)) (\<lambda>st. case state_to_json E st of
        Inl msg \<Rightarrow> fail (HConfig msg) | Inr s \<Rightarrow> ret s)"

definition row :: "container_state \<Rightarrow> json" where
  "row st = JObj [(''id'', JStr (st_id st)), (''pid'', JNum (st_pid st)),
    (''status'', JStr (status_as_str (st_status st))), (''bundle'', JStr (st_bundle st)),
    (''rootfs'', JStr (st_rootfs st)), (''seed'', JNum (uint (st_seed st)))]"

fun read_states :: "env \<Rightarrow> string \<Rightarrow> string list \<Rightarrow> ('e, container_state list) wprog" where
  "read_states E root [] = ret []"
| "read_states E root (i # ids) =
    bind (attempt (read_state E root i)) (\<lambda>st.
    bind (read_states E root ids) (\<lambda>sts. ret (case st of None \<Rightarrow> sts | Some s \<Rightarrow> s # sts)))"

text \<open>\<open>{:<w}\<close>: padded with spaces on the right.\<close>

definition left_aligned :: "nat \<Rightarrow> string \<Rightarrow> string" where
  "left_aligned w s = s @ replicate (w - length s) (CHR '' '')"

definition table_line :: "string \<Rightarrow> string \<Rightarrow> string \<Rightarrow> string \<Rightarrow> string" where
  "table_line i s p d = left_aligned 24 i @ '' '' @ left_aligned 9 s @ '' '' @ left_aligned 8 p @ '' ''
    @ left_aligned 6 d @ [CHR 0x0A]"

text \<open>\<open>as_i64().unwrap_or(0)\<close>: a seed beyond the range of an \<open>i64\<close> is shown as 0.\<close>

definition seed_column :: "u64 \<Rightarrow> string" where
  "seed_column seed = show_int (if uint seed < 2 ^ 63 then uint seed else 0)"

definition list_containers :: "env \<Rightarrow> string \<Rightarrow> string \<Rightarrow> (host_error, string) wprog" where
  "list_containers E root format =
    bind (list_ids E root) (\<lambda>ids.
    bind (read_states E root ids) (\<lambda>sts.
      if format = ''json'' then ret (json_to_string_pretty E (JArr (map row sts)))
      else ret (table_line ''ID'' ''STATUS'' ''PID'' ''SEED'' @ concat (map (\<lambda>st.
        table_line (st_id st) (status_as_str (st_status st)) (show_int (st_pid st))
          (seed_column (st_seed st))) sts))))"

end
