(* ===== verification/Cgroup.thy ===== *)
theory Cgroup
  imports StateStore
begin

text \<open>
  Best-effort cgroup v2 limits (\<open>src/runtime/cgroup.rs\<close>): the limits of \<open>linux.resources\<close> as values for
  the control files, and the writes that set them. Logging is not modelled. JSON numbers are integers.
\<close>

datatype cgroup_error = CgroupIo errno | NotV2

section \<open>Reading the limits\<close>

text \<open>\<open>Value::get\<close>, \<open>as_u64\<close> and \<open>as_i64\<close> of \<open>serde_json\<close>.\<close>

definition json_get :: "string \<Rightarrow> json \<Rightarrow> json option" where
  "json_get k v = (case v of JObj kvs \<Rightarrow> map_of kvs k | _ \<Rightarrow> None)"

definition as_u64 :: "json \<Rightarrow> u64 option" where
  "as_u64 v = (case v of JNum n \<Rightarrow> if 0 \<le> n \<and> n < 2 ^ 64 then Some (of_int n) else None | _ \<Rightarrow> None)"

definition as_i64 :: "json \<Rightarrow> int option" where
  "as_i64 v = (case v of JNum n \<Rightarrow> if - (2 ^ 63) \<le> n \<and> n < 2 ^ 63 then Some n else None | _ \<Rightarrow> None)"

definition show_u64 :: "u64 \<Rightarrow> string" where
  "show_u64 w = show_nat (unat w)"

definition get_u64 :: "string \<Rightarrow> json \<Rightarrow> u64 option" where
  "get_u64 k v = Option.bind (json_get k v) as_u64"

definition extra_value :: "linux_resources \<Rightarrow> string \<Rightarrow> json" where
  "extra_value res k = (case map_of (resources_extra res) k of None \<Rightarrow> JNull | Some v \<Rightarrow> v)"

text \<open>
  \<open>1 + shares.saturating_sub(2) * 9999 / 262_142\<close> on \<open>u64\<close>; the product wraps as in a release build.
\<close>

definition saturating_sub :: "u64 \<Rightarrow> u64 \<Rightarrow> u64" where
  "saturating_sub x y = (if x < y then 0 else x - y)"

definition cpu_weight :: "u64 \<Rightarrow> u64" where
  "cpu_weight shares = 1 + saturating_sub shares 2 * 9999 div 262142"

section \<open>Writing the limits\<close>

definition CGROUP_ROOT :: string where "CGROUP_ROOT = ''/sys/fs/cgroup''"

definition sanitize_id :: "string \<Rightarrow> string" where
  "sanitize_id i =
    map (\<lambda>c. if is_ascii_alphanumeric c \<or> c = CHR ''.'' \<or> c = CHR ''-'' then c else CHR ''_'') i"

definition cgroup_dir :: "string \<Rightarrow> string" where
  "cgroup_dir i = path_join (path_join CGROUP_ROOT ''dtrun'') (sanitize_id i)"

definition setup_cgroup :: "os \<Rightarrow> string \<Rightarrow> (errno, string) io" where
  "setup_cgroup os i =
    bind (sys os (CreateDirAll (path_join CGROUP_ROOT ''dtrun'')) id) (\<lambda>_.
    bind (sys os (CreateDirAll (cgroup_dir i)) id) (\<lambda>_. ret (cgroup_dir i)))"

definition cg_write :: "os \<Rightarrow> string \<Rightarrow> string \<Rightarrow> (errno, unit) io" where
  "cg_write os p v =
    bind (sys os (OpenTrunc p) id) (\<lambda>_. bind (sys os (WriteAll p v) id) (\<lambda>_. ret ()))"

definition write_limit :: "os \<Rightarrow> string \<Rightarrow> string \<Rightarrow> string option \<Rightarrow> ('e, unit) io" where
  "write_limit os dir file v = (case v of
      None \<Rightarrow> ret ()
    | Some s \<Rightarrow> bind (attempt (cg_write os (path_join dir file) s)) (\<lambda>_. ret ()))"

text \<open>The control files and the values written into them, in order; \<open>None\<close> is not written.\<close>

definition limits :: "linux_resources \<Rightarrow> (string \<times> string option) list" where
  "limits res =
    (let cpu = extra_value res ''cpu''; mem = extra_value res ''memory''; pids = extra_value res ''pids'' in
     [(''pids.max'', map_option show_u64 (get_u64 ''limit'' pids)),
      (''memory.max'', map_option show_u64 (get_u64 ''limit'' mem)),
      (''memory.swap.max'', map_option show_u64 (get_u64 ''swap'' mem)),
      (''cpu.max'', case (get_u64 ''period'' cpu, Option.bind (json_get ''quota'' cpu) as_i64) of
         (Some p, Some q) \<Rightarrow> Some (show_int q @ '' '' @ show_u64 p) | _ \<Rightarrow> None),
      (''cpu.weight'', map_option (\<lambda>shares. show_u64 (cpu_weight shares)) (get_u64 ''shares'' cpu))])"

definition apply_limits :: "os \<Rightarrow> pid \<Rightarrow> string \<Rightarrow> oci_config \<Rightarrow> (cgroup_error, unit) io" where
  "apply_limits os p i c = (case Option.bind (cfg_linux c) resources of
      None \<Rightarrow> ret ()
    | Some res \<Rightarrow>
        bind (sys_test os (Exists (path_join CGROUP_ROOT ''cgroup.controllers''))) (\<lambda>v2.
          if \<not> v2 then fail NotV2
          else bind (attempt (setup_cgroup os i)) (\<lambda>d. case d of
              None \<Rightarrow> ret ()
            | Some dir \<Rightarrow>
                andthen (each (\<lambda>(file, v). write_limit os dir file v) (limits res))
                  (bind (attempt (cg_write os (path_join dir ''cgroup.procs'') (show_int p))) (\<lambda>_. ret ())))))"

section \<open>Properties\<close>

lemma cpu_weight_nat:
  assumes "2 \<le> shares" and "shares \<le> 1844858893260283"
  shows "unat (cpu_weight shares) = 1 + (unat shares - 2) * 9999 div 262142"
proof -
  have s: "2 \<le> unat shares" "unat shares \<le> 1844858893260283"
    using assms by (simp_all add: word_le_nat_alt)
  have ss: "unat (saturating_sub shares 2) = unat shares - 2"
    using assms by (simp add: saturating_sub_def not_less unat_sub)
  have "unat (saturating_sub shares 2 * 9999) = (unat shares - 2) * 9999"
    using s by (simp add: unat_word_ariths ss)
  moreover have "(unat shares - 2) * 9999 div 262142 < 2 ^ 64 - 1" using s by simp
  ultimately show ?thesis
    unfolding cpu_weight_def by (simp add: unat_word_ariths unat_div)
qed

text \<open>
  C20. OCI CPU shares become a cgroup weight: the admissible shares 2 to 262144 are mapped
  monotonically onto the admissible weights 1 to 10000, with both ends met, and the product of the
  conversion does not overflow below 1844858893260284 shares.
\<close>

theorem cpu_weight_range:
  assumes "2 \<le> a" and "a \<le> b" and "b \<le> 262144"
  shows "1 \<le> cpu_weight a \<and> cpu_weight a \<le> cpu_weight b \<and> cpu_weight b \<le> 10000
    \<and> cpu_weight 2 = 1 \<and> cpu_weight 262144 = 10000
    \<and> unat (cpu_weight a) = 1 + (unat a - 2) * 9999 div 262142"
proof -
  have ab: "unat a \<le> unat b" "unat b \<le> 262144" using assms by (simp_all add: word_le_nat_alt)
  have le: "b \<le> 1844858893260283" using assms(3) by (rule order_trans) simp
  have a: "unat (cpu_weight a) = 1 + (unat a - 2) * 9999 div 262142"
    using cpu_weight_nat [of a] assms le by (meson order_trans)
  have b: "unat (cpu_weight b) = 1 + (unat b - 2) * 9999 div 262142"
    using cpu_weight_nat [of b] assms le by (meson order_trans)
  have "(unat a - 2) * 9999 div 262142 \<le> (unat b - 2) * 9999 div 262142"
    using ab by (intro div_le_mono mult_le_mono1 diff_le_mono)
  moreover have "(unat b - 2) * 9999 div 262142 \<le> 9999"
    using ab div_le_mono [of "(unat b - 2) * 9999" "262142 * 9999" 262142] by simp
  ultimately have "1 \<le> cpu_weight a" "cpu_weight a \<le> cpu_weight b" "cpu_weight b \<le> 10000"
    using a b by (simp_all add: word_le_nat_alt)
  moreover have "cpu_weight 2 = 1" "cpu_weight 262144 = 10000"
    by (simp_all add: cpu_weight_def saturating_sub_def)
  ultimately show ?thesis using a by simp
qed

theorem cpu_weight_range_witness:
  "(2 :: u64) \<le> 1024 \<and> (1024 :: u64) \<le> 2048 \<and> (2048 :: u64) \<le> 262144
    \<and> cpu_weight 1024 \<le> cpu_weight 2048 \<and> cpu_weight 2048 \<le> 10000"
  using cpu_weight_range [of 1024 2048] by simp

end
