(* ===== verification/Mounts.thy ===== *)
theory Mounts
  imports Effects
begin

text \<open>
  Mount handling (\<open>src/runtime/mounts.rs\<close>): the translation of OCI mount options into \<open>MS_*\<close> flags and
  a data string, the \<open>mount(2)\<close> calls of the configured mounts, and the storage isolation of the
  container root: private propagation, read-only root, default devices, masked and read-only paths.
\<close>

unbundle bit_operations_syntax

section \<open>Flags\<close>

definition MS_RDONLY :: u64 where "MS_RDONLY = 0x1"
definition MS_NOSUID :: u64 where "MS_NOSUID = 0x2"
definition MS_NODEV :: u64 where "MS_NODEV = 0x4"
definition MS_NOEXEC :: u64 where "MS_NOEXEC = 0x8"
definition MS_REMOUNT :: u64 where "MS_REMOUNT = 0x20"
definition MS_BIND :: u64 where "MS_BIND = 0x1000"
definition MS_REC :: u64 where "MS_REC = 0x4000"
definition MS_UNBINDABLE :: u64 where "MS_UNBINDABLE = 0x20000"
definition MS_PRIVATE :: u64 where "MS_PRIVATE = 0x40000"
definition MS_SLAVE :: u64 where "MS_SLAVE = 0x80000"
definition MS_SHARED :: u64 where "MS_SHARED = 0x100000"

lemmas ms_flags = MS_RDONLY_def MS_NOSUID_def MS_NODEV_def MS_NOEXEC_def MS_REMOUNT_def MS_BIND_def
  MS_REC_def MS_UNBINDABLE_def MS_PRIVATE_def MS_SLAVE_def MS_SHARED_def

text \<open>The \<open>match\<close> on one option, in its order.\<close>

definition apply_option :: "string \<Rightarrow> u64 \<Rightarrow> u64" where
  "apply_option opt flags =
    (if opt = ''nosuid'' then flags OR MS_NOSUID
     else if opt = ''noexec'' then flags OR MS_NOEXEC
     else if opt = ''nodev'' then flags OR MS_NODEV
     else if opt = ''ro'' then flags OR MS_RDONLY
     else if opt = ''rbind'' then flags OR (MS_BIND OR MS_REC)
     else if opt = ''bind'' then flags OR MS_BIND
     else if opt = ''remount'' then flags OR MS_REMOUNT
     else if opt = ''suid'' then flags AND NOT MS_NOSUID
     else if opt = ''exec'' then flags AND NOT MS_NOEXEC
     else if opt = ''dev'' then flags AND NOT MS_NODEV
     else if opt = ''private'' then flags OR MS_PRIVATE
     else if opt = ''rprivate'' then flags OR (MS_REC OR MS_PRIVATE)
     else if opt = ''shared'' then flags OR MS_SHARED
     else if opt = ''rshared'' then flags OR (MS_REC OR MS_SHARED)
     else if opt = ''slave'' then flags OR MS_SLAVE
     else if opt = ''rslave'' then flags OR (MS_REC OR MS_SLAVE)
     else if opt = ''unbindable'' then flags OR MS_UNBINDABLE
     else if opt = ''runbindable'' then flags OR (MS_REC OR MS_UNBINDABLE)
     else flags)"

definition parse_mount_flags :: "mount \<Rightarrow> u64" where
  "parse_mount_flags m =
    (case mount_options m of None \<Rightarrow> 0 | Some opts \<Rightarrow> fold apply_option opts 0)"

text \<open>The options that are not data, in the order of the \<open>matches!\<close>.\<close>

definition flag_options :: "string list" where
  "flag_options =
    [''nosuid'', ''noexec'', ''nodev'', ''ro'', ''rw'', ''rbind'', ''bind'', ''remount'', ''suid'',
     ''exec'', ''dev'', ''nosymfollow'', ''private'', ''rprivate'', ''shared'', ''rshared'', ''slave'',
     ''rslave'', ''unbindable'', ''runbindable'', ''relatime'', ''norelatime'', ''strictatime'',
     ''nostrictatime'', ''lazytime'', ''nolazytime'']"

definition parse_mount_data :: "mount \<Rightarrow> string option" where
  "parse_mount_data m = (case mount_options m of
      None \<Rightarrow> None
    | Some opts \<Rightarrow>
        (let dat = filter (\<lambda>o'. o' \<notin> set flag_options) opts
         in if dat = [] then None else Some (join '','' dat)))"

section \<open>One mount\<close>

datatype mount_error = Mkdir errno | MountFailed errno

definition or_empty :: "string option \<Rightarrow> string" where
  "or_empty x = (case x of None \<Rightarrow> [] | Some s \<Rightarrow> s)"

text \<open>The flags \<open>apply_mount\<close> uses: procfs is read-only unless the options say \<open>rw\<close>.\<close>

definition effective_flags :: "mount \<Rightarrow> u64" where
  "effective_flags m =
    (let flags = parse_mount_flags m in
     if fstype m = Some ''proc'' \<and> flags AND MS_RDONLY = 0
        \<and> \<not> (case mount_options m of None \<Rightarrow> False | Some opts \<Rightarrow> ''rw'' \<in> set opts)
     then flags OR MS_RDONLY else flags)"

definition mount_call :: "mount \<Rightarrow> call" where
  "mount_call m = Mount (Some (or_empty (mount_source m))) (destination m) (fstype m)
    (effective_flags m) (parse_mount_data m)"

definition apply_mount :: "os \<Rightarrow> mount \<Rightarrow> (mount_error, unit) io" where
  "apply_mount os m =
    bind (sys_test os (Exists (destination m))) (\<lambda>there.
      andthen (if \<not> there then bind (sys os (CreateDirAll (destination m)) Mkdir) (\<lambda>_. ret ())
               else ret ())
        (bind (sys os (mount_call m) MountFailed) (\<lambda>_. ret ())))"

section \<open>The container root\<close>

definition private_root_call :: call where
  "private_root_call = Mount None ''/'' None (MS_REC OR MS_PRIVATE) None"

definition make_root_private :: "os \<Rightarrow> (errno, unit) io" where
  "make_root_private os = bind (sys os private_root_call id) (\<lambda>_. ret ())"

definition readonly_root_call :: call where
  "readonly_root_call = Mount None ''/'' None (MS_BIND OR MS_REMOUNT OR MS_RDONLY) None"

definition make_root_readonly :: "os \<Rightarrow> (errno, unit) io" where
  "make_root_readonly os = bind (sys os readonly_root_call id) (\<lambda>_. ret ())"

definition bind_mount_call :: "string \<Rightarrow> string \<Rightarrow> call" where
  "bind_mount_call src dest = Mount (Some src) dest None (MS_BIND OR MS_REC) None"

text \<open>The bind mounts of devices and the symlinks log their failures and go on.\<close>

definition bind_devices :: "os \<Rightarrow> (string \<times> int) list \<Rightarrow> ('e, unit) io" where
  "bind_devices os = each (\<lambda>(dest, fd).
    andthen (sys_ignore os (CreateFile dest))
      (sys_ignore os (bind_mount_call (''/proc/self/fd/'' @ show_int fd) dest)))"

definition device_links :: "(string \<times> string) list" where
  "device_links =
    [(''/dev/fd'', ''/proc/self/fd''), (''/dev/stdin'', ''/proc/self/fd/0''),
     (''/dev/stdout'', ''/proc/self/fd/1''), (''/dev/stderr'', ''/proc/self/fd/2''),
     (''/dev/ptmx'', ''pts/ptmx'')]"

definition setup_default_devices :: "os \<Rightarrow> (string \<times> int) list \<Rightarrow> ('e, unit) io" where
  "setup_default_devices os host_devices =
    andthen (bind_devices os host_devices)
      (each (\<lambda>(link, target). sys_ignore os (Symlink target link)) device_links)"

section \<open>Masked and read-only paths\<close>

text \<open>
  \<open>Path::parent\<close> removes the last component: \<open>None\<close> for the empty path and for the root. Separators
  and \<open>.\<close> components behind the last one that counts are dropped.
\<close>

fun trim_rev :: "string \<Rightarrow> string" where
  "trim_rev [] = []"
| "trim_rev (c # cs) =
    (if c = CHR ''/'' \<or> (c = CHR ''.'' \<and> cs \<noteq> [] \<and> hd cs = CHR ''/'') then trim_rev cs else c # cs)"

definition parent :: "string \<Rightarrow> string option" where
  "parent p =
    (let s = trim_rev (rev p); d = dropWhile (\<lambda>c. c \<noteq> CHR ''/'') s in
     if s = [] then None
     else if d = [] then Some []
     else if trim_rev d = [] then Some ''/''
     else Some (rev (trim_rev d)))"

definition mask_path :: "os \<Rightarrow> string \<Rightarrow> ('e, unit) io" where
  "mask_path os p =
    bind (sys_test os (Exists p)) (\<lambda>there.
    bind (if there then ret False
          else case parent p of
            None \<Rightarrow> ret False
          | Some d \<Rightarrow>
              bind (sys_ok os (CreateDirAll d)) (\<lambda>made.
                if made then bind (sys_ok os (CreateFile p)) (\<lambda>ok. ret (\<not> ok)) else ret False))
      (\<lambda>skip.
        if skip then ret ()
        else bind (sys_test os (IsDir p)) (\<lambda>dir.
          if dir then sys_ignore os (Mount (Some ''tmpfs'') p (Some ''tmpfs'')
            (MS_NOSUID OR MS_NOEXEC OR MS_NODEV) None)
          else sys_ignore os (bind_mount_call ''/dev/null'' p))))"

definition apply_masked_paths :: "os \<Rightarrow> string list \<Rightarrow> ('e, unit) io" where
  "apply_masked_paths os = each (mask_path os)"

definition readonly_path :: "os \<Rightarrow> string \<Rightarrow> ('e, unit) io" where
  "readonly_path os p =
    bind (sys_test os (Exists p)) (\<lambda>there.
    bind (if there then ret True
          else andthen (sys_ignore os (CreateDirAll p)) (sys_test os (Exists p))) (\<lambda>go.
      if \<not> go then ret ()
      else bind (sys_ok os (Mount (Some p) p None (MS_BIND OR MS_REC) None)) (\<lambda>bound.
        if bound then sys_ignore os (Mount None p None (MS_BIND OR MS_REMOUNT OR MS_RDONLY) None)
        else ret ())))"

definition apply_readonly_paths :: "os \<Rightarrow> string list \<Rightarrow> ('e, unit) io" where
  "apply_readonly_paths os = each (readonly_path os)"

section \<open>What the set-up programs achieve\<close>

lemma mount_progs_grow [grow_intros]:
  "moves (grows os) (grows os) (bind_devices os ds)"
  "moves (grows os) (grows os) (apply_masked_paths os ps)"
  "moves (grows os) (grows os) (apply_readonly_paths os ps)"
  unfolding bind_devices_def apply_masked_paths_def mask_path_def apply_readonly_paths_def
    readonly_path_def case_prod_beta'
  by (intro grow_intros gr.moves_intros)+

lemma setup_default_devices_grows [grow_intros]:
  "moves (grows os) (grows os) (setup_default_devices os ds)"
  unfolding setup_default_devices_def case_prod_beta' by (intro grow_intros gr.moves_intros)

lemma achieves_done: "achieves os cs m \<Longrightarrow> achieves os cs (bind m (\<lambda>_. ret ()))"
  using achieves_bind [of os cs m "[]" "\<lambda>_. ret ()"] by (simp add: achieves_nothing gr.moves_ret)

lemma apply_mount_achieves: "achieves os [mount_call m] (apply_mount os m)"
proof -
  have "achieves os ([] @ [] @ [mount_call m]) (apply_mount os m)"
    unfolding apply_mount_def
    by (intro achieves_bind achieves_andthen achieves_done achieves_sys achieves_nothing
        gr.moves_intros grow_intros)
  then show ?thesis by simp
qed

lemma root_calls_achieve:
  "achieves os [private_root_call] (make_root_private os)"
  "achieves os [readonly_root_call] (make_root_readonly os)"
  unfolding make_root_private_def make_root_readonly_def by (intro achieves_done achieves_sys)+

section \<open>What the options mean\<close>

lemma ms_flag_bits:
  "bit MS_RDONLY n \<longleftrightarrow> n = 0" "bit MS_NOSUID n \<longleftrightarrow> n = 1" "bit MS_NODEV n \<longleftrightarrow> n = 2"
  "bit MS_NOEXEC n \<longleftrightarrow> n = 3" "bit MS_REMOUNT n \<longleftrightarrow> n = 5" "bit MS_BIND n \<longleftrightarrow> n = 12"
  "bit MS_REC n \<longleftrightarrow> n = 14" "bit MS_UNBINDABLE n \<longleftrightarrow> n = 17" "bit MS_PRIVATE n \<longleftrightarrow> n = 18"
  "bit MS_SLAVE n \<longleftrightarrow> n = 19" "bit MS_SHARED n \<longleftrightarrow> n = 20"
proof -
  have e: "bit (2 ^ k :: u64) n \<longleftrightarrow> n = k" if "k < 64" for k
    using that by (auto simp: bit_exp_iff)
  show "bit MS_RDONLY n \<longleftrightarrow> n = 0" "bit MS_NOSUID n \<longleftrightarrow> n = 1" "bit MS_NODEV n \<longleftrightarrow> n = 2"
    "bit MS_NOEXEC n \<longleftrightarrow> n = 3" "bit MS_REMOUNT n \<longleftrightarrow> n = 5" "bit MS_BIND n \<longleftrightarrow> n = 12"
    "bit MS_REC n \<longleftrightarrow> n = 14" "bit MS_UNBINDABLE n \<longleftrightarrow> n = 17" "bit MS_PRIVATE n \<longleftrightarrow> n = 18"
    "bit MS_SLAVE n \<longleftrightarrow> n = 19" "bit MS_SHARED n \<longleftrightarrow> n = 20"
    using e [of 0] e [of 1] e [of 2] e [of 3] e [of 5] e [of 12] e [of 14] e [of 17] e [of 18]
      e [of 19] e [of 20]
    by (simp_all add: ms_flags)
qed

lemma flag_set_iff:
  "f AND MS_RDONLY \<noteq> 0 \<longleftrightarrow> bit f 0" "f AND MS_NOSUID \<noteq> 0 \<longleftrightarrow> bit f 1"
  "f AND MS_NODEV \<noteq> 0 \<longleftrightarrow> bit f 2" "f AND MS_NOEXEC \<noteq> 0 \<longleftrightarrow> bit f 3"
  "f AND MS_REMOUNT \<noteq> 0 \<longleftrightarrow> bit f 5" "f AND MS_BIND \<noteq> 0 \<longleftrightarrow> bit f 12"
  "f AND MS_REC \<noteq> 0 \<longleftrightarrow> bit f 14" "f AND MS_PRIVATE \<noteq> 0 \<longleftrightarrow> bit f 18"
proof -
  have "f AND m \<noteq> 0 \<longleftrightarrow> bit f k" if "\<And>n. bit m n \<longleftrightarrow> n = k" for m and k :: nat
  proof -
    have small: "n < 64" if "bit f n" for n using bit_imp_le_length [OF that] by simp
    have "f AND m = 0 \<longleftrightarrow> (\<forall>n. \<not> (bit f n \<and> bit m n))"
      using bit_eq_iff [of "f AND m" 0] small by (auto simp: bit_and_iff)
    then show ?thesis using that by auto
  qed
  then show "f AND MS_RDONLY \<noteq> 0 \<longleftrightarrow> bit f 0" "f AND MS_NOSUID \<noteq> 0 \<longleftrightarrow> bit f 1"
    "f AND MS_NODEV \<noteq> 0 \<longleftrightarrow> bit f 2" "f AND MS_NOEXEC \<noteq> 0 \<longleftrightarrow> bit f 3"
    "f AND MS_REMOUNT \<noteq> 0 \<longleftrightarrow> bit f 5" "f AND MS_BIND \<noteq> 0 \<longleftrightarrow> bit f 12"
    "f AND MS_REC \<noteq> 0 \<longleftrightarrow> bit f 14" "f AND MS_PRIVATE \<noteq> 0 \<longleftrightarrow> bit f 18"
    by (metis ms_flag_bits)+
qed

text \<open>
  A flag that options set and clear has the value of the last option that mentions it; a flag that
  options only set is set when one of them occurs.
\<close>

definition last_says :: "string \<Rightarrow> string \<Rightarrow> string list \<Rightarrow> bool" where
  "last_says yes no opts =
    (let r = filter (\<lambda>x. x = yes \<or> x = no) opts in r \<noteq> [] \<and> last r = yes)"

lemma last_says_snoc:
  "last_says y n (opts @ [x]) = (if x = y then True else if x = n then False else last_says y n opts)"
  by (simp add: last_says_def Let_def)

lemma last_says_Nil: "\<not> last_says y n []"
  by (simp add: last_says_def)

lemma fold_last_says:
  assumes "\<And>x f. bit (g x f) k = (if x = y then True else if x = n then False else bit f k)"
  shows "bit (fold g opts (0 :: u64)) k = last_says y n opts"
  by (induction opts rule: rev_induct) (simp_all add: last_says_snoc last_says_Nil assms del: if_True)

lemma fold_mentions:
  assumes "\<And>x f. bit (g x f) k = (x \<in> A \<or> bit f k)"
  shows "bit (fold g opts (0 :: u64)) k = (set opts \<inter> A \<noteq> {})"
  by (induction opts rule: rev_induct) (auto simp: assms)

lemmas option_bits = apply_option_def ms_flag_bits bit_or_iff bit_and_iff bit_not_iff

lemma apply_option_toggles:
  "bit (apply_option x f) 1 = (if x = ''nosuid'' then True else if x = ''suid'' then False else bit f 1)"
  "bit (apply_option x f) 3 = (if x = ''noexec'' then True else if x = ''exec'' then False else bit f 3)"
  "bit (apply_option x f) 2 = (if x = ''nodev'' then True else if x = ''dev'' then False else bit f 2)"
  by (simp_all add: option_bits)

lemma apply_option_sets:
  "bit (apply_option x f) 0 = (x \<in> {''ro''} \<or> bit f 0)"
  "bit (apply_option x f) 12 = (x \<in> {''bind'', ''rbind''} \<or> bit f 12)"
  "bit (apply_option x f) 18 = (x \<in> {''private'', ''rprivate''} \<or> bit f 18)"
  "bit (apply_option x f) 14 =
    (x \<in> {''rbind'', ''rprivate'', ''rshared'', ''rslave'', ''runbindable''} \<or> bit f 14)"
  by (simp_all add: option_bits)


end
