(* ===== verification/Credentials.thy ===== *)
theory Credentials
  imports Effects
begin

text \<open>
  Process credentials (\<open>src/runtime/credentials.rs\<close>): capability names, the masks of the five sets of
  \<open>process.capabilities\<close>, the calls that install them, and the OOM score adjustment.
\<close>

unbundle bit_operations_syntax

section \<open>Names and masks\<close>

definition CAP_NAMES :: "(string \<times> nat) list" where
  "CAP_NAMES =
    [(''CAP_CHOWN'', 0), (''CAP_DAC_OVERRIDE'', 1), (''CAP_DAC_READ_SEARCH'', 2), (''CAP_FOWNER'', 3),
     (''CAP_FSETID'', 4), (''CAP_KILL'', 5), (''CAP_SETGID'', 6), (''CAP_SETUID'', 7),
     (''CAP_SETPCAP'', 8), (''CAP_LINUX_IMMUTABLE'', 9), (''CAP_NET_BIND_SERVICE'', 10),
     (''CAP_NET_BROADCAST'', 11), (''CAP_NET_ADMIN'', 12), (''CAP_NET_RAW'', 13),
     (''CAP_IPC_LOCK'', 14), (''CAP_IPC_OWNER'', 15), (''CAP_SYS_MODULE'', 16),
     (''CAP_SYS_RAWIO'', 17), (''CAP_SYS_CHROOT'', 18), (''CAP_SYS_PTRACE'', 19),
     (''CAP_SYS_PACCT'', 20), (''CAP_SYS_ADMIN'', 21), (''CAP_SYS_BOOT'', 22), (''CAP_SYS_NICE'', 23),
     (''CAP_SYS_RESOURCE'', 24), (''CAP_SYS_TIME'', 25), (''CAP_SYS_TTY_CONFIG'', 26),
     (''CAP_MKNOD'', 27), (''CAP_LEASE'', 28), (''CAP_AUDIT_WRITE'', 29), (''CAP_AUDIT_CONTROL'', 30),
     (''CAP_SETFCAP'', 31), (''CAP_MAC_OVERRIDE'', 32), (''CAP_MAC_ADMIN'', 33), (''CAP_SYSLOG'', 34),
     (''CAP_WAKE_ALARM'', 35), (''CAP_BLOCK_SUSPEND'', 36), (''CAP_AUDIT_READ'', 37),
     (''CAP_PERFMON'', 38), (''CAP_BPF'', 39), (''CAP_CHECKPOINT_RESTORE'', 40)]"

definition MAX_CAP :: nat where "MAX_CAP = 40"

definition cap_index :: "string \<Rightarrow> nat option" where
  "cap_index name = map_of CAP_NAMES name"

fun cap_mask_from :: "u64 \<Rightarrow> string list \<Rightarrow> errno + u64" where
  "cap_mask_from acc [] = Inr acc"
| "cap_mask_from acc (name # names) =
    (case cap_index name of
      None \<Rightarrow> Inl EINVAL
    | Some idx \<Rightarrow> cap_mask_from (acc OR push_bit idx 1) names)"

definition cap_mask :: "string list \<Rightarrow> errno + u64" where
  "cap_mask names = cap_mask_from 0 names"

text \<open>A set missing from the configuration is empty.\<close>

definition set_mask :: "string list option \<Rightarrow> errno + u64" where
  "set_mask s = (case s of None \<Rightarrow> Inr 0 | Some names \<Rightarrow> cap_mask names)"

section \<open>Installing the sets\<close>

definition set_cap_sets :: "os \<Rightarrow> u64 \<Rightarrow> u64 \<Rightarrow> u64 \<Rightarrow> (errno, unit) io" where
  "set_cap_sets os eff perm inh =
    bind (sys os (CapSet (ucast eff, ucast perm, ucast inh)
      (ucast (drop_bit 32 eff), ucast (drop_bit 32 perm), ucast (drop_bit 32 inh))) id) (\<lambda>_. ret ())"

definition drop_bounding :: "os \<Rightarrow> u64 \<Rightarrow> nat \<Rightarrow> (errno, unit) io" where
  "drop_bounding os bound idx =
    (if bound AND push_bit idx 1 = 0 then
       bind (sys_try os (CapBsetDrop idx)) (\<lambda>r. case r of
           Inl err \<Rightarrow> if err \<noteq> EINVAL then fail err else ret ()
         | Inr _ \<Rightarrow> ret ())
     else ret ())"

definition raise_ambient :: "os \<Rightarrow> u64 \<Rightarrow> u64 \<Rightarrow> u64 \<Rightarrow> nat \<Rightarrow> (errno, unit) io" where
  "raise_ambient os amb perm inh idx =
    (if amb AND push_bit idx 1 \<noteq> 0 \<and> perm AND push_bit idx 1 \<noteq> 0 \<and> inh AND push_bit idx 1 \<noteq> 0
     then bind (sys os (CapAmbientRaise idx) id) (\<lambda>_. ret ()) else ret ())"

definition of_sum :: "'e + 'a \<Rightarrow> ('s, 'e, 'a) prog" where
  "of_sum r = (case r of Inl e \<Rightarrow> fail e | Inr a \<Rightarrow> ret a)"

definition apply_capabilities :: "os \<Rightarrow> capabilities \<Rightarrow> (errno, unit) io" where
  "apply_capabilities os caps =
    bind (of_sum (set_mask (bounding caps))) (\<lambda>bound.
    bind (of_sum (set_mask (effective caps))) (\<lambda>eff.
    bind (of_sum (set_mask (permitted caps))) (\<lambda>perm.
    bind (of_sum (set_mask (inheritable caps))) (\<lambda>inh.
    bind (of_sum (set_mask (ambient caps))) (\<lambda>amb.
    andthen (each (drop_bounding os bound) [0..<Suc MAX_CAP])
      (andthen (sys_ignore os CapAmbientClear)
        (andthen (set_cap_sets os eff perm inh)
          (each (raise_ambient os amb perm inh) [0..<Suc MAX_CAP]))))))))"

definition apply_oom_score_adj :: "os \<Rightarrow> int \<Rightarrow> (errno, unit) io" where
  "apply_oom_score_adj os adj =
    bind (sys os (OpenWrite ''/proc/self/oom_score_adj'') id) (\<lambda>_.
    bind (sys os (WriteAll ''/proc/self/oom_score_adj'' (show_int adj @ [CHR 0x0A])) id) (\<lambda>_. ret ()))"

section \<open>The masks are the named sets\<close>

definition granted :: "string list option \<Rightarrow> nat \<Rightarrow> bool" where
  "granted s i \<longleftrightarrow> (case s of None \<Rightarrow> False | Some names \<Rightarrow> Some i \<in> set (map cap_index names))"

definition known :: "string list option \<Rightarrow> bool" where
  "known s \<longleftrightarrow> (case s of None \<Rightarrow> True | Some names \<Rightarrow> None \<notin> set (map cap_index names))"

lemma cap_index_bound: "cap_index n = Some i \<Longrightarrow> i \<le> 40"
proof -
  assume "cap_index n = Some i"
  then have "(n, i) \<in> set CAP_NAMES" unfolding cap_index_def by (rule map_of_SomeD)
  moreover have "list_all (\<lambda>(_, k). k \<le> 40) CAP_NAMES" by (simp add: CAP_NAMES_def)
  ultimately show "i \<le> 40" by (auto simp: list_all_iff)
qed

lemma cap_mask_from_Inr:
  "cap_mask_from m names = Inr w \<Longrightarrow>
    None \<notin> set (map cap_index names) \<and> (\<forall>i. bit w i = (bit m i \<or> Some i \<in> set (map cap_index names)))"
proof (induction m names rule: cap_mask_from.induct)
  case (2 m name names)
  then obtain k where k: "cap_index name = Some k"
    and w: "cap_mask_from (m OR push_bit k 1) names = Inr w"
    by (auto split: option.splits)
  have "bit (push_bit k (1 :: u64)) i \<longleftrightarrow> i = k" for i
    using cap_index_bound [OF k] by (auto simp: bit_exp_iff)
  then show ?case using 2 k w by (auto simp: bit_or_iff)
qed simp

lemma cap_mask_from_Inl:
  "cap_mask_from m names = Inl e \<Longrightarrow> e = EINVAL \<and> None \<in> set (map cap_index names)"
  by (induction m names rule: cap_mask_from.induct) (auto split: option.splits)

lemma set_mask_Inr: "set_mask s = Inr w \<Longrightarrow> known s \<and> (\<forall>i. bit w i = granted s i)"
  using cap_mask_from_Inr [of 0]
  by (auto simp: set_mask_def cap_mask_def known_def granted_def split: option.splits)

lemma set_mask_Inl: "set_mask s = Inl e \<Longrightarrow> e = EINVAL \<and> \<not> known s"
  using cap_mask_from_Inl [of 0]
  by (auto simp: set_mask_def cap_mask_def known_def split: option.splits)

lemma mask_bit: "(w :: u64) AND 2 ^ i = 0 \<longleftrightarrow> \<not> bit w i"
  by (rule and_exp_eq_0_iff_not_bit)

section \<open>The calls that are made\<close>

definition cap_calls :: "capabilities \<Rightarrow> u64 \<Rightarrow> u64 \<Rightarrow> u64 \<Rightarrow> call list" where
  "cap_calls caps eff perm inh =
    map CapBsetDrop (filter (\<lambda>i. \<not> granted (bounding caps) i) [0..<41])
    @ [CapAmbientClear,
       CapSet (ucast eff, ucast perm, ucast inh)
         (ucast (drop_bit 32 eff), ucast (drop_bit 32 perm), ucast (drop_bit 32 inh))]
    @ map CapAmbientRaise (filter (\<lambda>i. granted (ambient caps) i \<and> granted (permitted caps) i
        \<and> granted (inheritable caps) i) [0..<41])"

lemma concat_map_if: "concat (map (\<lambda>x. if P x then [f x] else []) xs) = map f (filter P xs)"
  by (induction xs) auto

lemma plays_sum:
  "(\<And>e. plays cs (f e)) \<Longrightarrow> (\<And>a. plays cs (g a)) \<Longrightarrow>
    plays cs (case r of Inl e \<Rightarrow> f e | Inr a \<Rightarrow> g a)"
  by (cases r) auto

lemma drop_bounding_plays:
  "plays (if \<not> bit bound i then [CapBsetDrop i] else []) (drop_bounding os bound i)"
proof -
  have "plays ([CapBsetDrop i] @ []) (bind (sys_try os (CapBsetDrop i)) (\<lambda>r. case r of
      Inl err \<Rightarrow> if err \<noteq> EINVAL then fail err else ret () | Inr _ \<Rightarrow> ret ()))"
    by (intro plays_bind plays_sum plays_intros) (simp add: plays_ret plays_fail)
  then show ?thesis by (simp add: drop_bounding_def mask_bit plays_ret)
qed

lemma raise_ambient_plays:
  "plays (if bit amb i \<and> bit perm i \<and> bit inh i then [CapAmbientRaise i] else [])
    (raise_ambient os amb perm inh i)"
  by (simp add: raise_ambient_def mask_bit plays_unit plays_sys plays_ret)

lemma install_plays:
  assumes "\<And>i. bit bound i = granted (bounding caps) i" and "\<And>i. bit perm i = granted (permitted caps) i"
    and "\<And>i. bit inh i = granted (inheritable caps) i" and "\<And>i. bit amb i = granted (ambient caps) i"
  shows "plays (cap_calls caps eff perm inh)
    (andthen (each (drop_bounding os bound) [0..<Suc MAX_CAP])
      (andthen (sys_ignore os CapAmbientClear)
        (andthen (set_cap_sets os eff perm inh)
          (each (raise_ambient os amb perm inh) [0..<Suc MAX_CAP]))))"
proof -
  have m: "Suc MAX_CAP = 41" by (simp add: MAX_CAP_def)
  note d = plays_each [where xs = "[0..<41]", OF drop_bounding_plays [of bound _ os], unfolded concat_map_if]
  note r = plays_each [where xs = "[0..<41]", OF raise_ambient_plays [of amb _ perm inh os], unfolded concat_map_if]
  have s: "plays [CapSet (ucast eff, ucast perm, ucast inh) (ucast (drop_bit 32 eff),
      ucast (drop_bit 32 perm), ucast (drop_bit 32 inh))] (set_cap_sets os eff perm inh)"
    unfolding set_cap_sets_def by (rule plays_unit) (rule plays_sys)
  have "plays (map CapBsetDrop (filter (\<lambda>i. \<not> bit bound i) [0..<41]) @ [CapAmbientClear]
      @ [CapSet (ucast eff, ucast perm, ucast inh) (ucast (drop_bit 32 eff),
      ucast (drop_bit 32 perm), ucast (drop_bit 32 inh))]
      @ map CapAmbientRaise (filter (\<lambda>i. bit amb i \<and> bit perm i \<and> bit inh i) [0..<41]))
    (andthen (each (drop_bounding os bound) [0..<Suc MAX_CAP])
      (andthen (sys_ignore os CapAmbientClear)
        (andthen (set_cap_sets os eff perm inh)
          (each (raise_ambient os amb perm inh) [0..<Suc MAX_CAP]))))"
    unfolding m by (intro plays_andthen d r s plays_sys)
  then show ?thesis by (simp add: cap_calls_def assms)
qed

text \<open>All five sets are resolved before the first call.\<close>

definition all_known :: "capabilities \<Rightarrow> bool" where
  "all_known caps \<longleftrightarrow> known (bounding caps) \<and> known (effective caps) \<and> known (permitted caps)
    \<and> known (inheritable caps) \<and> known (ambient caps)"

lemma bind_of_sum: "bind (of_sum r) f = (case r of Inl e \<Rightarrow> fail e | Inr a \<Rightarrow> f a)"
  by (auto simp: bind_def of_sum_def ret_def fail_def fun_eq_iff split: sum.split)

lemma apply_capabilities_cases:
  obtains (known) perm eff inh where "all_known caps" "plays (cap_calls caps eff perm inh) (apply_capabilities os caps)"
      "\<And>i. bit eff i = granted (effective caps) i" "\<And>i. bit perm i = granted (permitted caps) i"
      "\<And>i. bit inh i = granted (inheritable caps) i"
  | (unknown) "\<not> all_known caps" "apply_capabilities os caps = fail EINVAL"
proof (cases "\<exists>b e p i a. set_mask (bounding caps) = Inr b \<and> set_mask (effective caps) = Inr e
    \<and> set_mask (permitted caps) = Inr p \<and> set_mask (inheritable caps) = Inr i
    \<and> set_mask (ambient caps) = Inr a")
  case True
  then obtain b e p i a where m: "set_mask (bounding caps) = Inr b" "set_mask (effective caps) = Inr e"
    "set_mask (permitted caps) = Inr p" "set_mask (inheritable caps) = Inr i"
    "set_mask (ambient caps) = Inr a" by blast
  note g = m [THEN set_mask_Inr]
  have "plays (cap_calls caps e p i) (apply_capabilities os caps)"
    unfolding apply_capabilities_def bind_of_sum m sum.case
    by (rule install_plays) (use g in auto)
  then show thesis using g by (intro known [of e p i]) (auto simp: all_known_def)
next
  case False
  then have "\<not> all_known caps \<and> apply_capabilities os caps = fail EINVAL"
    unfolding apply_capabilities_def bind_of_sum all_known_def
    by (auto split: sum.split dest!: set_mask_Inl)
  then show thesis using unknown by blast
qed

text \<open>
  C35. Installing the capabilities makes exactly these calls, in this order: every capability outside
  the bounding set is dropped, the ambient set is cleared, the three traditional sets are installed
  with the named bits (the lower 32 in the first data slot, the upper in the second), and the ambient
  capabilities that are permitted and inheritable are raised. A failing call ends the sequence, and an
  unknown capability name is refused before any call is made.
\<close>

theorem capabilities_exact:
  "if all_known caps then
     \<exists>eff perm inh.
       (\<forall>i. bit eff i = granted (effective caps) i) \<and> (\<forall>i. bit perm i = granted (permitted caps) i)
       \<and> (\<forall>i. bit inh i = granted (inheritable caps) i)
       \<and> (case apply_capabilities os caps h of
           (Ok _, h') \<Rightarrow> h' = h @ cap_calls caps eff perm inh
         | (Err _, h') \<Rightarrow> prefix h h' \<and> prefix h' (h @ cap_calls caps eff perm inh)
         | (More, _) \<Rightarrow> False)
   else apply_capabilities os caps h = (Err EINVAL, h)"
proof (cases rule: apply_capabilities_cases [of caps os])
  case (known perm eff inh)
  show ?thesis
    unfolding if_P [OF known(1)]
    by (intro exI [of _ eff] exI [of _ perm] exI [of _ inh] conjI allI known(3,4,5))
      (rule known(2) [unfolded plays_def, rule_format])
next
  case unknown
  then show ?thesis by (simp add: fail_def)
qed

end
