(* ===== verification/Namespaces.thy ===== *)
theory Namespaces
  imports Effects
begin

text \<open>
  What the parent sets up for the cloned child: the id mappings of its user namespace
  (\<open>src/runtime/namespaces.rs\<close>), and what the child sets up in its network namespace
  (\<open>src/runtime/net.rs\<close>).
\<close>

unbundle bit_operations_syntax

section \<open>Id mappings\<close>

datatype namespace_error = IdMap string errno | Credential string errno

definition id_map_path :: "pid \<Rightarrow> string \<Rightarrow> string" where
  "id_map_path p entry = ''/proc/'' @ show_int p @ ''/'' @ entry"

definition write_id_map :: "os \<Rightarrow> pid \<Rightarrow> string \<Rightarrow> string \<Rightarrow> (errno, unit) io" where
  "write_id_map os p entry contents =
    bind (sys os (CreateFile (id_map_path p entry)) id) (\<lambda>_.
    bind (sys os (WriteAll (id_map_path p entry) contents) id) (\<lambda>_. ret ()))"

definition show_u32 :: "u32 \<Rightarrow> string" where
  "show_u32 w = show_nat (unat w)"

definition format_mapping :: "linux_id_mapping \<Rightarrow> string" where
  "format_mapping m = show_u32 (map_container_id m) @ '' '' @ show_u32 (map_host_id m) @ '' ''
    @ show_u32 (map_size m) @ [CHR 0x0A]"

definition format_mappings :: "linux_id_mapping list \<Rightarrow> string" where
  "format_mappings ms = concat (map format_mapping ms)"

definition id_map :: "u32 \<Rightarrow> linux_id_mapping list \<Rightarrow> linux_id_mapping list" where
  "id_map own ms =
    (if ms = [] then [\<lparr>map_container_id = 0, map_host_id = own, map_size = 1\<rparr>] else ms)"

text \<open>\<open>uid\<close> and \<open>gid\<close> are the answers of \<open>getuid\<close> and \<open>getgid\<close>, which cannot fail.\<close>

definition map_root_user ::
  "os \<Rightarrow> u32 \<Rightarrow> u32 \<Rightarrow> pid \<Rightarrow> linux_id_mapping list \<Rightarrow> linux_id_mapping list \<Rightarrow>
    (namespace_error, unit) io" where
  "map_root_user os uid gid child uid_ms gid_ms =
    (let uid_map = id_map uid uid_ms; gid_map = id_map gid gid_ms in
     andthen (map_err (IdMap ''setgroups'') (write_id_map os child ''setgroups'' (''deny'' @ [CHR 0x0A])))
       (andthen (map_err (IdMap ''gid_map'') (write_id_map os child ''gid_map'' (format_mappings gid_map)))
         (map_err (IdMap ''uid_map'') (write_id_map os child ''uid_map'' (format_mappings uid_map)))))"

section \<open>The loopback interface\<close>

datatype net_error = SocketFailed errno | Ioctl errno

definition IFF_UP :: u16 where "IFF_UP = 1"

text \<open>
  \<open>Errno::last\<close> is read after the socket has been closed, so a failing \<open>close\<close> replaces the error.
\<close>

definition close_and_fail :: "os \<Rightarrow> int \<Rightarrow> errno \<Rightarrow> (net_error, unit) io" where
  "close_and_fail os fd e =
    bind (sys_try os (CloseFd fd)) (\<lambda>r. fail (Ioctl (case r of Inl e' \<Rightarrow> e' | Inr _ \<Rightarrow> e)))"

definition bring_up_loopback :: "os \<Rightarrow> (net_error, unit) io" where
  "bring_up_loopback os =
    bind (sys os Socket SocketFailed) (\<lambda>fd.
    bind (sys_try os (GetIfFlags fd)) (\<lambda>r. case r of
        Inl e \<Rightarrow> close_and_fail os fd e
      | Inr v \<Rightarrow>
          bind (sys_try os (SetIfFlags fd (of_int v OR IFF_UP))) (\<lambda>r. case r of
              Inl e \<Rightarrow> close_and_fail os fd e
            | Inr _ \<Rightarrow> sys_ignore os (CloseFd fd))))"

lemma bring_up_loopback_grows [grow_intros]: "moves (grows os) (grows os) (bring_up_loopback os)"
proof -
  have s: "moves (grows os) (grows os) (case r of Inl e \<Rightarrow> f e | Inr v \<Rightarrow> g v)"
    if "\<And>e. moves (grows os) (grows os) (f e)" and "\<And>v. moves (grows os) (grows os) (g v)"
    for r :: "errno + int" and f :: "errno \<Rightarrow> (net_error, unit) io" and g
    using that by (cases r) auto
  show ?thesis
    unfolding bring_up_loopback_def close_and_fail_def
    by (intro s grow_intros gr.moves_intros)
qed

section \<open>Properties\<close>

definition id_map_calls :: "pid \<Rightarrow> string \<Rightarrow> string \<Rightarrow> call list" where
  "id_map_calls p entry contents =
    [CreateFile (id_map_path p entry), WriteAll (id_map_path p entry) contents]"

lemma write_id_map_plays: "plays (id_map_calls p entry c) (write_id_map os p entry c)"
proof -
  have "plays ([CreateFile (id_map_path p entry)] @ [WriteAll (id_map_path p entry) c])
      (write_id_map os p entry c)"
    unfolding write_id_map_def by (intro plays_bind plays_unit plays_sys)
  then show ?thesis by (simp add: id_map_calls_def)
qed

text \<open>
  C40. The id mappings of a child are written in the only order the kernel accepts, \<open>setgroups\<close> before
  \<open>gid_map\<close> before \<open>uid_map\<close>, each file once, with the configured mappings or a single mapping of
  root to the caller; a failure stops the sequence and is reported with the file it was about.
\<close>

theorem id_maps_in_order:
  "let p = (\<lambda>e. id_map_path child e);
       gids = format_mappings (id_map gid gms); uids = format_mappings (id_map uid ums);
       script = [CreateFile (p ''setgroups''), WriteAll (p ''setgroups'') (''deny'' @ [CHR 0x0A]),
         CreateFile (p ''gid_map''), WriteAll (p ''gid_map'') gids,
         CreateFile (p ''uid_map''), WriteAll (p ''uid_map'') uids]
   in case map_root_user os uid gid child ums gms h of
      (Ok _, h') \<Rightarrow> h' = h @ script
    | (Err (IdMap entry e), h') \<Rightarrow> (\<exists>k. h' = h @ take (Suc k) script \<and> k < 6
        \<and> entry = [''setgroups'', ''gid_map'', ''uid_map''] ! (k div 2) \<and> os h' = Inl e)
    | (_, _) \<Rightarrow> False"
proof -
  have sys: "sys os c w g = (case os (g @ [c]) of Inl e \<Rightarrow> (Err (w e), g @ [c]) | Inr v \<Rightarrow> (Ok v, g @ [c]))"
    for c w g by (simp add: sys_def Let_def)
  show ?thesis
    by (simp add: map_root_user_def write_id_map_def Let_def prog_simps map_err_def sys split: sum.split;
        intro conjI impI;
        ((rule exI [of _ 0], simp; fail) | (rule exI [of _ 1], simp; fail) | (rule exI [of _ 2], simp; fail)
        | (rule exI [of _ 3], simp; fail) | (rule exI [of _ 4], simp; fail) | (rule exI [of _ 5], simp)))
qed

text \<open>
  Bringing up the loopback interface adds \<open>IFF_UP\<close> to the flags it read and keeps the others, and
  on every path, errors included, the socket is closed exactly once after its last use.
\<close>

theorem loopback_up_and_closed:
  "case bring_up_loopback os h of
      (Ok _, h') \<Rightarrow> (\<exists>fd flags. os (h @ [Socket, GetIfFlags fd]) = Inr flags
        \<and> h' = h @ [Socket, GetIfFlags fd, SetIfFlags fd (of_int flags OR 1), CloseFd fd])
    | (Err (SocketFailed e), h') \<Rightarrow> h' = h @ [Socket] \<and> os h' = Inl e
    | (Err (Ioctl e), h') \<Rightarrow> (\<exists>fd ioctls. os (h @ [Socket]) = Inr fd
        \<and> h' = h @ [Socket] @ ioctls @ [CloseFd fd] \<and> CloseFd fd \<notin> set ioctls
        \<and> (\<exists>e'. os (h @ [Socket] @ ioctls) = Inl e'))
    | (More, _) \<Rightarrow> False"
proof (cases "os (h @ [Socket])")
  case (Inl e)
  then show ?thesis by (simp add: bring_up_loopback_def sys_def prog_simps)
next
  case (Inr fd)
  show ?thesis
  proof (cases "os (h @ [Socket, GetIfFlags fd])")
    case (Inl e)
    then show ?thesis
      using Inr by (auto simp: bring_up_loopback_def close_and_fail_def sys_def sys_try_def prog_simps
          Let_def intro!: exI [of _ "[GetIfFlags fd]"])
  next
    case flags: (Inr flags)
    show ?thesis
    proof (cases "os (h @ [Socket, GetIfFlags fd, SetIfFlags fd (of_int flags OR 1)])")
      case (Inl e)
      then show ?thesis
        using Inr flags by (auto simp: bring_up_loopback_def close_and_fail_def sys_def sys_try_def
            prog_simps Let_def IFF_UP_def
            intro!: exI [of _ "[GetIfFlags fd, SetIfFlags fd (of_int flags OR 1)]"])
    next
      case (Inr u)
      then show ?thesis
        using \<open>os (h @ [Socket]) = Inr fd\<close> flags
        by (simp add: bring_up_loopback_def sys_def sys_try_def sys_ignore_def prog_simps Let_def
            IFF_UP_def)
    qed
  qed
qed

end
