(* ===== verification/Child.thy ===== *)
theory Child
  imports Mounts Credentials Namespaces
begin

text \<open>
  The set-up of the container process (\<open>src/runtime/child.rs\<close>) up to the \<open>execvpe\<close> of its entrypoint
  (\<open>src/runtime/exec.rs\<close>). The function returns an exit code on every failure and does not return at
  all when the entrypoint replaces the process, so its programs end with \<open>Err code\<close> when the Rust
  function returns \<open>code\<close> and with \<open>Ok ()\<close> when the process image has been replaced.
\<close>

section \<open>The entrypoint\<close>

definition has_nul :: "string \<Rightarrow> bool" where
  "has_nul s \<longleftrightarrow> CHR 0x00 \<in> set s"

definition build_c_args :: "string \<Rightarrow> string list \<Rightarrow> string list option" where
  "build_c_args command args =
    (if has_nul command \<or> list_ex has_nul args then None else Some (command # args))"

definition exec_entrypoint :: "os \<Rightarrow> string \<Rightarrow> string list \<Rightarrow> string list \<Rightarrow> (int, unit) io" where
  "exec_entrypoint os command args env = (case build_c_args command args of
      None \<Rightarrow> fail 1
    | Some c_args \<Rightarrow>
        bind (sys os (Execvpe c_args (filter (\<lambda>kv. \<not> has_nul kv) env)) (\<lambda>_. 1)) (\<lambda>_. ret ()))"

section \<open>Devices opened before the root changes\<close>

datatype net_mode = NetNone | NetHost

definition default_devices :: "string list" where
  "default_devices = map (\<lambda>n. ''/dev/'' @ n)
    [''null'', ''zero'', ''full'', ''random'', ''urandom'', ''tty'']"

definition open_device :: "os \<Rightarrow> string \<Rightarrow> ('e, int option) io" where
  "open_device os p =
    (if has_nul p then ret None
     else bind (sys_try os (OpenPath p)) (\<lambda>r. case r of
         Inl _ \<Rightarrow> ret None | Inr fd \<Rightarrow> ret (if fd < 0 then None else Some fd)))"

fun open_devices :: "os \<Rightarrow> string list \<Rightarrow> ('e, (string \<times> int) list) io" where
  "open_devices os [] = ret []"
| "open_devices os (p # ps) =
    bind (open_device os p) (\<lambda>fd.
    bind (open_devices os ps) (\<lambda>ds. ret (case fd of None \<Rightarrow> ds | Some n \<Rightarrow> (p, n) # ds)))"

section \<open>The configuration the child reads\<close>

abbreviation of_process :: "oci_config \<Rightarrow> (process \<Rightarrow> 'a option) \<Rightarrow> 'a option" where
  "of_process c f \<equiv> Option.bind (cfg_process c) f"

abbreviation of_linux :: "oci_config \<Rightarrow> (linux_config \<Rightarrow> 'a option) \<Rightarrow> 'a option" where
  "of_linux c f \<equiv> Option.bind (cfg_linux c) f"

definition or_else :: "'a option \<Rightarrow> 'a \<Rightarrow> 'a" where
  "or_else x d = (case x of None \<Rightarrow> d | Some a \<Rightarrow> a)"

definition the_cwd :: "oci_config \<Rightarrow> string" where
  "the_cwd c = or_else (of_process c proc_cwd) ''/''"

definition the_mounts :: "oci_config \<Rightarrow> mount list" where
  "the_mounts c = or_else (cfg_mounts c) []"

definition the_devices :: "oci_config \<Rightarrow> string list" where
  "the_devices c = map dev_path (or_else (of_linux c devices) [])"

text \<open>A \<open>HashMap\<close> is iterated in the order of the association list.\<close>

definition the_sysctls :: "net_mode \<Rightarrow> oci_config \<Rightarrow> (string \<times> string) list" where
  "the_sysctls nm c = (if nm = NetHost then [] else or_else (of_linux c sysctl) [])"

definition the_env :: "oci_config \<Rightarrow> string list" where
  "the_env c = or_else (of_process c proc_env) []"

section \<open>The steps\<close>

definition or_1 :: "('s, 'e, 'a) prog \<Rightarrow> ('s, int, 'a) prog" where
  "or_1 m = map_err (\<lambda>_. 1) m"

definition call_1 :: "os \<Rightarrow> call \<Rightarrow> (int, unit) io" where
  "call_1 os c = bind (sys os c (\<lambda>_. 1)) (\<lambda>_. ret ())"

definition when_some :: "'x option \<Rightarrow> ('x \<Rightarrow> ('s, 'e, unit) prog) \<Rightarrow> ('s, 'e, unit) prog" where
  "when_some x f = (case x of None \<Rightarrow> ret () | Some a \<Rightarrow> f a)"

definition sysctl_path :: "string \<Rightarrow> string" where
  "sysctl_path key = ''/proc/sys/'' @ map (\<lambda>c. if c = CHR ''.'' then CHR ''/'' else c) key"

definition write_sysctl :: "os \<Rightarrow> string \<times> string \<Rightarrow> (int, unit) io" where
  "write_sysctl os kv =
    andthen (call_1 os (CreateFile (sysctl_path (fst kv))))
      (call_1 os (WriteAll (sysctl_path (fst kv)) (snd kv)))"

definition ADDR_NO_RANDOMIZE :: u64 where "ADDR_NO_RANDOMIZE = 0x0040000"

definition disable_aslr :: "os \<Rightarrow> ('e, unit) io" where
  "disable_aslr os = bind (sys_try os GetPersonality) (\<lambda>r. case r of
      Inl _ \<Rightarrow> ret ()
    | Inr pers \<Rightarrow> sys_ignore os (SetPersonality (of_int pers OR ADDR_NO_RANDOMIZE)))"

definition run_entrypoint :: "os \<Rightarrow> oci_config \<Rightarrow> (int, unit) io" where
  "run_entrypoint os c = (case of_process c proc_args of
      None \<Rightarrow> fail 1
    | Some [] \<Rightarrow> fail 1
    | Some (command # args) \<Rightarrow> exec_entrypoint os command args (the_env c))"

text \<open>Isolation first, then the new root and its mounts, then privileges and stdio.\<close>

definition enter_isolation :: "os \<Rightarrow> oci_config \<Rightarrow> net_mode \<Rightarrow> (int, unit) io" where
  "enter_isolation os c nm =
    andthen (call_1 os SignalReady)
   (andthen (call_1 os AwaitMaps)
   (andthen (or_1 (make_root_private os))
   (andthen (when_some (cfg_hostname c) (\<lambda>name. call_1 os (SetHostname name)))
            (if nm = NetNone then or_1 (bring_up_loopback os) else ret ()))))"

definition enter_root :: "os \<Rightarrow> oci_config \<Rightarrow> string \<Rightarrow> net_mode \<Rightarrow> (int, unit) io" where
  "enter_root os c rootfs nm =
    bind (open_devices os (default_devices @ the_devices c)) (\<lambda>host_devices.
    andthen (call_1 os (Chroot rootfs))
   (andthen (call_1 os (Chdir (the_cwd c)))
   (andthen (each (\<lambda>m. or_1 (apply_mount os m)) (the_mounts c))
   (andthen (setup_default_devices os host_devices)
   (andthen (each (write_sysctl os) (the_sysctls nm c))
   (andthen (apply_masked_paths os (or_else (of_linux c masked_paths) []))
            (apply_readonly_paths os (or_else (of_linux c readonly_paths) []))))))))"

definition drop_privileges :: "os \<Rightarrow> oci_config \<Rightarrow> (int, unit) io" where
  "drop_privileges os c =
    andthen (when_some (of_process c oom_score_adj) (\<lambda>adj. or_1 (apply_oom_score_adj os adj)))
   (andthen (when_some (of_process c proc_capabilities) (\<lambda>caps. or_1 (apply_capabilities os caps)))
            (if root_readonly (cfg_root c) = Some True then or_1 (make_root_readonly os) else ret ()))"

definition setup_and_exec_child ::
  "os \<Rightarrow> oci_config \<Rightarrow> string \<Rightarrow> net_mode \<Rightarrow> (int, unit) io" where
  "setup_and_exec_child os c rootfs nm =
    andthen (enter_isolation os c nm)
   (andthen (enter_root os c rootfs nm)
   (andthen (drop_privileges os c)
   (andthen (call_1 os Dup2Stdout)
   (andthen (call_1 os Dup2Stderr)
   (andthen (call_1 os TraceMe)
   (andthen (sys_ignore os RaiseSigstop)
   (andthen (disable_aslr os)
            (run_entrypoint os c))))))))"

section \<open>What has been achieved when the entrypoint runs\<close>

lemma map_err_Ok: "map_err g m s = (Ok a, s') \<longleftrightarrow> m s = (Ok a, s')"
  by (auto simp: map_err_def split: prod.splits outcome.splits)

lemma achieves_map_err:
  assumes "achieves os cs m"
  shows "achieves os cs (map_err g m)"
  unfolding achieves_def
  by (intro allI tripleI) (auto simp: map_err_Ok dest: triple_Ok [OF assms [unfolded achieves_def, rule_format]])

lemma achieves_or_1: "achieves os cs m \<Longrightarrow> achieves os cs (or_1 m)"
  unfolding or_1_def by (rule achieves_map_err)

lemma achieves_call_1: "achieves os [c] (call_1 os c)"
  unfolding call_1_def by (intro achieves_done achieves_sys)

lemma achieves_when_some:
  "(\<And>a. achieves os (cs a) (f a)) \<Longrightarrow> achieves os (case x of None \<Rightarrow> [] | Some a \<Rightarrow> cs a) (when_some x f)"
  by (cases x) (simp_all add: when_some_def achieves_nothing gr.moves_ret)

lemma achieves_when: "achieves os cs m \<Longrightarrow> achieves os (if b then cs else []) (if b then m else ret ())"
  by (simp add: achieves_nothing gr.moves_ret)

lemma open_device_grows [grow_intros]: "moves (grows os) (grows os) (open_device os p)"
proof -
  have "moves (grows os) (grows os) (case r of Inl e \<Rightarrow> ret None
      | Inr fd \<Rightarrow> ret (if fd < 0 then None else Some fd))" for r :: "errno + int"
    by (cases r) (simp_all add: gr.moves_ret)
  then show ?thesis unfolding open_device_def by (intro grow_intros gr.moves_intros)
qed

lemma open_devices_grows [grow_intros]: "moves (grows os) (grows os) (open_devices os ps)"
  by (induction ps) (auto intro: grow_intros gr.moves_intros)

lemma disable_aslr_grows [grow_intros]: "moves (grows os) (grows os) (disable_aslr os)"
proof -
  have "moves (grows os) (grows os) (case r of Inl e \<Rightarrow> ret ()
      | Inr pers \<Rightarrow> sys_ignore os (SetPersonality (of_int pers OR ADDR_NO_RANDOMIZE)))" for r :: "errno + int"
    by (cases r) (simp_all add: gr.moves_ret small_grow)
  then show ?thesis unfolding disable_aslr_def by (intro grow_intros gr.moves_intros)
qed

text \<open>The capability calls that cannot be skipped: \<open>EINVAL\<close> of a dropped bound is tolerated.\<close>

definition mask_or_0 :: "string list option \<Rightarrow> u64" where
  "mask_or_0 s = (case set_mask s of Inl _ \<Rightarrow> 0 | Inr w \<Rightarrow> w)"

definition cap_must :: "capabilities \<Rightarrow> call list" where
  "cap_must caps =
    (let e = mask_or_0 (effective caps); p = mask_or_0 (permitted caps);
         i = mask_or_0 (inheritable caps); a = mask_or_0 (ambient caps) in
     CapSet (ucast e, ucast p, ucast i)
       (ucast (drop_bit 32 e), ucast (drop_bit 32 p), ucast (drop_bit 32 i))
     # map CapAmbientRaise (filter (\<lambda>k. bit a k \<and> bit p k \<and> bit i k) [0..<Suc MAX_CAP]))"

lemma drop_bounding_grows [grow_intros]: "moves (grows os) (grows os) (drop_bounding os b i)"
proof -
  have "moves (grows os) (grows os) (case r of Inl err \<Rightarrow> if err \<noteq> EINVAL then fail err else ret ()
      | Inr v \<Rightarrow> ret ())" for r :: "errno + int"
    by (cases r) (simp_all add: gr.moves_ret gr.moves_fail)
  then show ?thesis unfolding drop_bounding_def by (intro grow_intros gr.moves_intros)
qed

lemma raise_ambient_achieves:
  "achieves os (if bit a k \<and> bit p k \<and> bit i k then [CapAmbientRaise k] else [])
    (raise_ambient os a p i k)"
  by (simp add: raise_ambient_def mask_bit achieves_done achieves_sys achieves_nothing gr.moves_ret)

lemma install_achieves:
  "achieves os (CapSet (ucast e, ucast p, ucast i)
      (ucast (drop_bit 32 e), ucast (drop_bit 32 p), ucast (drop_bit 32 i))
      # map CapAmbientRaise (filter (\<lambda>k. bit a k \<and> bit p k \<and> bit i k) [0..<Suc MAX_CAP]))
    (andthen (each (drop_bounding os b) [0..<Suc MAX_CAP])
      (andthen (sys_ignore os CapAmbientClear)
        (andthen (set_cap_sets os e p i) (each (raise_ambient os a p i) [0..<Suc MAX_CAP]))))"
    (is "achieves os (?c # ?r) ?m")
proof -
  note r = achieves_each [OF raise_ambient_achieves, unfolded concat_map_if]
  have "achieves os ([] @ [] @ [?c] @ ?r) ?m"
    unfolding set_cap_sets_def
    by (intro achieves_andthen achieves_done achieves_sys r achieves_nothing grow_intros)
  then show ?thesis by simp
qed

lemma apply_capabilities_achieves: "achieves os (cap_must caps) (apply_capabilities os caps)"
  unfolding apply_capabilities_def bind_of_sum cap_must_def mask_or_0_def Let_def
  by (auto split: sum.split intro: achieves_fail install_achieves simp del: upt_Suc)

lemma enter_isolation_achieves:
  "achieves os ([SignalReady, AwaitMaps, private_root_call]
      @ (case cfg_hostname c of None \<Rightarrow> [] | Some name \<Rightarrow> [SetHostname name]))
    (enter_isolation os c nm)"
proof -
  have l: "achieves os [] (if nm = NetNone then or_1 (bring_up_loopback os) else ret ())"
    unfolding or_1_def by (intro achieves_nothing grow_intros gr.moves_intros)
  have "achieves os ([SignalReady] @ [AwaitMaps] @ [private_root_call]
      @ (case cfg_hostname c of None \<Rightarrow> [] | Some name \<Rightarrow> [SetHostname name]) @ [])
    (enter_isolation os c nm)"
    unfolding enter_isolation_def
    by (intro achieves_andthen achieves_call_1 achieves_or_1 root_calls_achieve achieves_when_some l)
  then show ?thesis by simp
qed

definition sysctl_calls :: "string \<times> string \<Rightarrow> call list" where
  "sysctl_calls kv = [CreateFile (sysctl_path (fst kv)), WriteAll (sysctl_path (fst kv)) (snd kv)]"

lemma write_sysctl_achieves: "achieves os (sysctl_calls kv) (write_sysctl os kv)"
  using achieves_andthen [OF achieves_call_1 achieves_call_1]
  by (simp add: write_sysctl_def sysctl_calls_def)

lemma enter_root_achieves:
  "achieves os ([Chroot rootfs, Chdir (the_cwd c)] @ map mount_call (the_mounts c)
      @ concat (map sysctl_calls (the_sysctls nm c)))
    (enter_root os c rootfs nm)"
proof -
  have m: "achieves os (map mount_call ms) (each (\<lambda>m. or_1 (apply_mount os m)) ms)" for ms
    using achieves_each [of os "\<lambda>m. [mount_call m]" "\<lambda>m. or_1 (apply_mount os m)" ms]
      achieves_or_1 [OF apply_mount_achieves] by simp
  have "achieves os ([] @ [Chroot rootfs] @ [Chdir (the_cwd c)] @ map mount_call (the_mounts c)
      @ [] @ concat (map sysctl_calls (the_sysctls nm c)) @ [] @ []) (enter_root os c rootfs nm)"
    unfolding enter_root_def
    by (intro achieves_bind achieves_andthen achieves_call_1 m achieves_each write_sysctl_achieves
        achieves_nothing grow_intros)
  then show ?thesis by simp
qed

definition oom_calls :: "int \<Rightarrow> call list" where
  "oom_calls adj = [OpenWrite ''/proc/self/oom_score_adj'',
    WriteAll ''/proc/self/oom_score_adj'' (show_int adj @ [CHR 0x0A])]"

lemma oom_achieves: "achieves os (oom_calls adj) (apply_oom_score_adj os adj)"
proof -
  have "achieves os ([OpenWrite ''/proc/self/oom_score_adj'']
      @ [WriteAll ''/proc/self/oom_score_adj'' (show_int adj @ [CHR 0x0A])]) (apply_oom_score_adj os adj)"
    unfolding apply_oom_score_adj_def by (intro achieves_bind achieves_done achieves_sys)
  then show ?thesis by (simp add: oom_calls_def)
qed

lemma drop_privileges_achieves:
  "achieves os ((case of_process c oom_score_adj of None \<Rightarrow> [] | Some adj \<Rightarrow> oom_calls adj)
      @ (case of_process c proc_capabilities of None \<Rightarrow> [] | Some caps \<Rightarrow> cap_must caps)
      @ (if root_readonly (cfg_root c) = Some True then [readonly_root_call] else []))
    (drop_privileges os c)"
  unfolding drop_privileges_def
  by (intro achieves_andthen achieves_when_some achieves_when achieves_or_1 oom_achieves
      apply_capabilities_achieves root_calls_achieve)

definition exec_calls :: "oci_config \<Rightarrow> call list" where
  "exec_calls c = (case of_process c proc_args of
      None \<Rightarrow> [] | Some args \<Rightarrow> [Execvpe args (filter (\<lambda>kv. \<not> has_nul kv) (the_env c))])"

lemma run_entrypoint_achieves: "achieves os (exec_calls c) (run_entrypoint os c)"
  unfolding run_entrypoint_def exec_calls_def exec_entrypoint_def build_c_args_def
  by (auto split: option.split list.split intro: achieves_fail achieves_done achieves_sys)

text \<open>The calls a container's entrypoint may rely on, in order.\<close>

definition setup_script :: "oci_config \<Rightarrow> string \<Rightarrow> net_mode \<Rightarrow> call list" where
  "setup_script c rootfs nm =
    [SignalReady, AwaitMaps, private_root_call]
    @ (case cfg_hostname c of None \<Rightarrow> [] | Some name \<Rightarrow> [SetHostname name])
    @ [Chroot rootfs, Chdir (the_cwd c)] @ map mount_call (the_mounts c)
    @ concat (map sysctl_calls (the_sysctls nm c))
    @ (case of_process c oom_score_adj of None \<Rightarrow> [] | Some adj \<Rightarrow> oom_calls adj)
    @ (case of_process c proc_capabilities of None \<Rightarrow> [] | Some caps \<Rightarrow> cap_must caps)
    @ (if root_readonly (cfg_root c) = Some True then [readonly_root_call] else [])
    @ [Dup2Stdout, Dup2Stderr, TraceMe] @ exec_calls c"

lemma setup_achieves: "achieves os (setup_script c rootfs nm) (setup_and_exec_child os c rootfs nm)"
proof -
  have "achieves os
      (([SignalReady, AwaitMaps, private_root_call]
        @ (case cfg_hostname c of None \<Rightarrow> [] | Some name \<Rightarrow> [SetHostname name]))
      @ ([Chroot rootfs, Chdir (the_cwd c)] @ map mount_call (the_mounts c)
        @ concat (map sysctl_calls (the_sysctls nm c)))
      @ ((case of_process c oom_score_adj of None \<Rightarrow> [] | Some adj \<Rightarrow> oom_calls adj)
        @ (case of_process c proc_capabilities of None \<Rightarrow> [] | Some caps \<Rightarrow> cap_must caps)
        @ (if root_readonly (cfg_root c) = Some True then [readonly_root_call] else []))
      @ [Dup2Stdout] @ [Dup2Stderr] @ [TraceMe] @ [] @ [] @ exec_calls c)
    (setup_and_exec_child os c rootfs nm)"
    unfolding setup_and_exec_child_def
    by (intro achieves_andthen achieves_call_1 enter_isolation_achieves enter_root_achieves
        drop_privileges_achieves run_entrypoint_achieves achieves_nothing grow_intros)
  then show ?thesis by (simp add: setup_script_def)
qed

section \<open>Failures\<close>

text \<open>\<open>fails_1 m\<close>: the only code \<open>m\<close> returns early with is 1, and it always returns.\<close>

definition fails_1 :: "('s, int, 'a) prog \<Rightarrow> bool" where
  "fails_1 m \<longleftrightarrow> (\<forall>s. fst (m s) \<noteq> More \<and> (\<forall>e. fst (m s) = Err e \<longrightarrow> e = 1))"

named_theorems fails_1_intros \<open>programs that fail with code 1\<close>

lemma fails_1_prims [fails_1_intros]: "fails_1 (ret a)" "fails_1 (fail 1)"
  "fails_1 (sys_ignore os c)" "fails_1 (sys_ok os c)" "fails_1 (sys_test os c)" "fails_1 (sys_try os c)"
  "fails_1 (sys os c (\<lambda>_. 1))"
  by (simp_all add: fails_1_def ret_def fail_def sys_ignore_def sys_ok_def sys_test_def sys_try_def
      sys_def Let_def split: sum.split)

lemma fails_1_bind [fails_1_intros]:
  assumes "fails_1 m" and "\<And>a. fails_1 (f a)"
  shows "fails_1 (bind m f)"
  unfolding fails_1_def
proof
  fix s
  obtain r t where m: "m s = (r, t)" by (cases "m s")
  show "fst (bind m f s) \<noteq> More \<and> (\<forall>e. fst (bind m f s) = Err e \<longrightarrow> e = 1)"
    using assms(1) [unfolded fails_1_def, rule_format, of s]
      assms(2) [unfolded fails_1_def, rule_format, of _ t]
    by (cases r) (simp_all add: bind_def m)
qed

lemma fails_1_andthen [fails_1_intros]: "fails_1 m \<Longrightarrow> fails_1 n \<Longrightarrow> fails_1 (andthen m n)"
  unfolding andthen_def by (rule fails_1_bind)

lemma fails_1_each [fails_1_intros]: "(\<And>x. fails_1 (f x)) \<Longrightarrow> fails_1 (each f xs)"
  by (induction xs) (auto intro: fails_1_intros)

lemma fails_1_if [fails_1_intros]: "fails_1 m \<Longrightarrow> fails_1 n \<Longrightarrow> fails_1 (if b then m else n)"
  by simp

lemma fails_1_option [fails_1_intros]:
  "fails_1 m \<Longrightarrow> (\<And>a. fails_1 (f a)) \<Longrightarrow> fails_1 (case x of None \<Rightarrow> m | Some a \<Rightarrow> f a)"
  by (cases x) auto

lemma fails_1_sum [fails_1_intros]:
  "(\<And>a. fails_1 (f a)) \<Longrightarrow> (\<And>a. fails_1 (g a)) \<Longrightarrow> fails_1 (case x of Inl a \<Rightarrow> f a | Inr a \<Rightarrow> g a)"
  by (cases x) auto

lemma fails_1_list [fails_1_intros]:
  "fails_1 m \<Longrightarrow> (\<And>a as. fails_1 (f a as)) \<Longrightarrow> fails_1 (case x of [] \<Rightarrow> m | a # as \<Rightarrow> f a as)"
  by (cases x) auto

lemma fails_1_or_1 [fails_1_intros]: "returns m \<Longrightarrow> fails_1 (or_1 m)"
  unfolding fails_1_def or_1_def map_err_def returns_def
  by (auto split: prod.splits outcome.splits) (metis fst_conv)

lemma returns_calls [returns_intros]: "returns (sys os c w)" "returns (sys_ignore os c)"
  "returns (sys_ok os c)" "returns (sys_test os c)" "returns (sys_try os c)"
  by (simp_all add: returns_def sys_def sys_ignore_def sys_ok_def sys_test_def sys_try_def Let_def
      split: sum.split)

lemma returns_each [returns_intros]: "(\<And>x. returns (f x)) \<Longrightarrow> returns (each f xs)"
  by (induction xs) (auto intro: returns_intros)

lemma returns_sum [returns_intros]:
  "(\<And>a. returns (f a)) \<Longrightarrow> (\<And>a. returns (g a)) \<Longrightarrow> returns (case x of Inl a \<Rightarrow> f a | Inr a \<Rightarrow> g a)"
  by (cases x) auto

lemma returns_steps [returns_intros]:
  "returns (make_root_private os)" "returns (make_root_readonly os)" "returns (bring_up_loopback os)"
  "returns (apply_mount os m)" "returns (apply_oom_score_adj os adj)" "returns (apply_capabilities os caps)"
  unfolding make_root_private_def make_root_readonly_def bring_up_loopback_def close_and_fail_def
    apply_mount_def apply_oom_score_adj_def apply_capabilities_def drop_bounding_def raise_ambient_def
    set_cap_sets_def of_sum_def
  by (intro returns_intros)+

lemma fails_1_call_1 [fails_1_intros]: "fails_1 (call_1 os c)"
  unfolding call_1_def by (intro fails_1_intros)

lemma fails_1_open_devices [fails_1_intros]: "fails_1 (open_devices os ps)"
  by (induction ps) (auto simp: open_device_def intro!: fails_1_intros)

lemma fails_1_setup: "fails_1 (setup_and_exec_child os c rootfs nm)"
  unfolding setup_and_exec_child_def enter_isolation_def enter_root_def drop_privileges_def
    when_some_def write_sysctl_def setup_default_devices_def bind_devices_def apply_masked_paths_def
    mask_path_def apply_readonly_paths_def readonly_path_def disable_aslr_def run_entrypoint_def
    exec_entrypoint_def case_prod_beta'
  by (intro fails_1_intros returns_intros)

section \<open>Properties\<close>


end
