(* ===== verification/Host.thy ===== *)
theory Host
  imports Ops Cgroup Child Dispatch
begin

text \<open>
  The runtime host (\<open>src/runtime/host.rs\<close>): from a configuration to a supervised container. A machine
  is what the host runs on: the environment of the state store, the ptrace kernel with its state when
  supervision begins, the fuel of the event loop, the answers of \<open>getuid\<close>, \<open>getgid\<close> and of the first
  \<open>waitpid\<close>, and what the relay threads read from the container's output pipes.
\<close>

unbundle bit_operations_syntax

record 'k machine =
  outside :: env
  kernel_ops :: "'k kernel"
  kernel_state :: 'k
  loop_fuel :: nat
  own_uid :: u32
  own_gid :: u32
  setup_status :: "call list \<Rightarrow> errno + wait_status"
  stdout_reads :: "(errno + string) list"
  stderr_reads :: "(errno + string) list"
  show_errno :: "errno \<Rightarrow> string"
  show_status :: "wait_status \<Rightarrow> string"

record host =
  host_config :: oci_config
  host_bundle :: string
  host_seed :: u64
  host_net :: net_mode

section \<open>Accessors\<close>

definition net_mode_parse :: "string \<Rightarrow> host_error + net_mode" where
  "net_mode_parse value =
    (if value = ''none'' then Inr NetNone
     else if value = ''host'' then Inr NetHost
     else Inl (HConfig (''unknown network mode '' @ quoted value @ '' (expected '' @ quoted ''none''
       @ '' or '' @ quoted ''host'' @ '')'')))"

definition with_net :: "oci_config \<Rightarrow> string \<Rightarrow> u64 \<Rightarrow> net_mode \<Rightarrow> host" where
  "with_net c b s nm = \<lparr>host_config = c, host_bundle = b, host_seed = s, host_net = nm\<rparr>"

definition host_new :: "oci_config \<Rightarrow> string \<Rightarrow> u64 \<Rightarrow> host" where
  "host_new c b s = with_net c b s NetNone"

definition host_rootfs :: "host \<Rightarrow> string" where
  "host_rootfs h =
    (let p = root_path (cfg_root (host_config h)) in
     if starts_with p ''/'' then p else path_join (host_bundle h) p)"

definition entrypoint :: "host \<Rightarrow> (string \<times> string list) option" where
  "entrypoint h = (case of_process (host_config h) proc_args of
      None \<Rightarrow> None | Some [] \<Rightarrow> None | Some (command # rest) \<Rightarrow> Some (command, rest))"

definition host_env :: "host \<Rightarrow> string list" where
  "host_env h = the_env (host_config h)"

definition host_mounts :: "host \<Rightarrow> mount list" where
  "host_mounts h = the_mounts (host_config h)"

section \<open>Validation\<close>

definition host_call :: "'k machine \<Rightarrow> call \<Rightarrow> (errno \<Rightarrow> host_error) \<Rightarrow> (host_error, int) wprog" where
  "host_call M c wrap = on_calls (sys (answers (outside M)) c wrap)"

definition host_test :: "'k machine \<Rightarrow> call \<Rightarrow> (host_error, bool) wprog" where
  "host_test M c = on_calls (sys_test (answers (outside M)) c)"

definition host_ignore :: "'k machine \<Rightarrow> call \<Rightarrow> (host_error, unit) wprog" where
  "host_ignore M c = on_calls (sys_ignore (answers (outside M)) c)"

definition host_validate :: "'k machine \<Rightarrow> host \<Rightarrow> (host_error, unit) wprog" where
  "host_validate M h =
    (if entrypoint h = None
     then fail (HConfig ''no entrypoint: config process.args is missing or empty'')
     else bind (host_test M (Exists (host_rootfs h))) (\<lambda>there.
       if \<not> there then fail (HConfig (''rootfs '' @ quoted (host_rootfs h) @ '' does not exist''))
       else bind (host_test M (IsDir (host_rootfs h))) (\<lambda>dir.
         if \<not> dir then fail (HConfig (''rootfs '' @ quoted (host_rootfs h) @ '' is not a directory''))
         else ret ())))"

section \<open>Spawning the container\<close>

definition CLONE_NEWNET :: u64 where "CLONE_NEWNET = 0x40000000"

definition NAMESPACE_FLAGS :: u64 where
  "NAMESPACE_FLAGS = 0x10000000 OR 0x20000000 OR 0x04000000 OR 0x08000000 OR 0x00020000 OR CLONE_NEWNET"

definition clone_flags :: "net_mode \<Rightarrow> u64" where
  "clone_flags nm = (if nm = NetHost then NAMESPACE_FLAGS AND NOT CLONE_NEWNET else NAMESPACE_FLAGS)"

definition show_namespace_error :: "(errno \<Rightarrow> string) \<Rightarrow> namespace_error \<Rightarrow> string" where
  "show_namespace_error es e = (case e of
      IdMap entry n \<Rightarrow> ''write '' @ entry @ '' failed: '' @ es n
    | Credential op n \<Rightarrow> op @ '' failed: '' @ es n)"

definition wait_setup :: "'k machine \<Rightarrow> pid \<Rightarrow> (host_error, wait_status) wprog" where
  "wait_setup M child = (\<lambda>w. let h = calls w @ [WaitChild child]; w' = w\<lparr>calls := h\<rparr> in
    case setup_status M h of Inl e \<Rightarrow> (Err (HWait e), w') | Inr st \<Rightarrow> (Ok st, w'))"

definition setup_result :: "'k machine \<Rightarrow> wait_status \<Rightarrow> (host_error, pid) wprog" where
  "setup_result M st =
    (let unexpected = fail (HConfig (''unexpected container setup result: '' @ show_status M st)) in
     case st of
       Stopped p sig \<Rightarrow>
         if sig = SIGSTOP then
           bind (host_call M (PtraceSetOptions p) (HErrno ''ptrace setoptions'')) (\<lambda>_. ret p)
         else unexpected
     | Exited _ code \<Rightarrow>
         fail (HConfig (''container init exited during setup with code '' @ show_int code))
     | _ \<Rightarrow> unexpected)"

text \<open>
  The parent's side of the set-up; the cloned child runs \<open>setup_and_exec_child\<close> of \<open>Child\<close>, and the two
  meet in the calls \<open>ReadReady\<close>/\<open>SignalReady\<close>, \<open>ReleaseChild\<close>/\<open>AwaitMaps\<close> and in the first stop.
\<close>

definition spawn_created :: "'k machine \<Rightarrow> host \<Rightarrow> (host_error, pid) wprog" where
  "spawn_created M h =
    (if entrypoint h = None then fail (HConfig ''no entrypoint'')
     else let c = host_config h in
       bind (host_call M Pipe (HErrno ''child_ready pipe'')) (\<lambda>_.
       bind (host_call M Pipe (HErrno ''maps_done pipe'')) (\<lambda>_.
       bind (host_call M Pipe (HErrno ''stdout pipe'')) (\<lambda>_.
       bind (host_call M Pipe (HErrno ''stderr pipe'')) (\<lambda>_.
       bind (host_call M (CloneChild (clone_flags (host_net h))) HClone) (\<lambda>child.
       andthen (host_ignore M ReadReady)
      (andthen (map_err (\<lambda>e. HConfig (''user namespace setup failed: ''
            @ show_namespace_error (show_errno M) e))
          (on_calls (map_root_user (answers (outside M)) (own_uid M) (own_gid M) child
            (or_else (of_linux c uid_mappings) []) (or_else (of_linux c gid_mappings) []))))
      (andthen (host_ignore M ReleaseChild)
      (bind (wait_setup M child) (setup_result M)))))))))) "

section \<open>State and output\<close>

definition mk_state ::
  "'k machine \<Rightarrow> host \<Rightarrow> string \<Rightarrow> status \<Rightarrow> pid \<Rightarrow> int option \<Rightarrow> (host_error, container_state) wprog" where
  "mk_state M h i status p code =
    bind (now_rfc3339 (outside M)) (\<lambda>now. ret
      \<lparr>st_oci_version = oci_version (host_config h), st_id = i, st_status = status, st_pid = p,
       st_bundle = host_bundle h, st_rootfs = host_rootfs h, st_seed = host_seed h,
       st_exit_code = code, st_created = now\<rparr>)"

text \<open>
  A relay thread: lines until the end of the stream or an error. A read that returns no bytes is the
  end; what follows it is not read.
\<close>

fun relay_lines :: "(errno + string) list \<Rightarrow> string list" where
  "relay_lines [] = []"
| "relay_lines (Inl e # reads) = []"
| "relay_lines (Inr line # reads) = (if line = [] then [] else trim_end line # relay_lines reads)"

definition output_event :: "string \<Rightarrow> string \<Rightarrow> json" where
  "output_event stream line = JObj [(''event'', JStr stream), (''line'', JStr line)]"

definition record_json :: "trace_rec \<Rightarrow> json" where
  "record_json r = JObj [(''seq'', json_u64 (tr_seq r)), (''event'', JStr (tr_event r)),
    (''detail'', tr_detail r)]"

definition trace_all :: "'k machine \<Rightarrow> string \<Rightarrow> string \<Rightarrow> json list \<Rightarrow> (host_error, unit) wprog" where
  "trace_all M root i = each (trace_event (outside M) root i)"

section \<open>Supervision\<close>

text \<open>
  \<open>supervise\<close> writes its records while it runs; nothing else touches the trace file meanwhile, so they
  are appended here in one go, whatever its outcome.
\<close>

definition supervise_and_finish ::
  "'k machine \<Rightarrow> host \<Rightarrow> string \<Rightarrow> string \<Rightarrow> pid \<Rightarrow> container_state \<Rightarrow> (host_error, int) wprog" where
  "supervise_and_finish M h root i child st =
    (case supervise (kernel_ops M) (loop_fuel M) child (host_seed h) root i (kernel_state M) of
      (r, sv) \<Rightarrow>
        andthen (trace_all M root i (map record_json (events sv)))
          (case r of
            Err e \<Rightarrow> fail (HSupervise e)
          | More \<Rightarrow> out_of_fuel
          | Ok code \<Rightarrow>
              bind (attempt (write_state (outside M)
                (st\<lparr>st_status := StoppedStatus, st_exit_code := Some code\<rparr>) root)) (\<lambda>_.
              andthen (trace_all M root i (map (output_event ''stdout'') (relay_lines (stdout_reads M))))
             (andthen (trace_all M root i (map (output_event ''stderr'') (relay_lines (stderr_reads M))))
               (ret code)))))"

definition limit_child :: "'k machine \<Rightarrow> host \<Rightarrow> string \<Rightarrow> pid \<Rightarrow> (host_error, unit) wprog" where
  "limit_child M h i child =
    bind (attempt (on_calls (apply_limits (answers (outside M)) child i (host_config h)))) (\<lambda>_. ret ())"

definition run_begins ::
  "'k machine \<Rightarrow> host \<Rightarrow> string \<Rightarrow> string \<Rightarrow> (host_error, pid \<times> container_state) wprog" where
  "run_begins M h root i =
    andthen (host_validate M h)
   (bind (map_err HIo (init_container_dir (outside M) root i)) (\<lambda>_.
    andthen (reset_trace (outside M) root i)
   (bind (spawn_created M h) (\<lambda>child.
    andthen (limit_child M h i child)
   (bind (mk_state M h i Running child None) (\<lambda>st.
    andthen (lift_state (write_state (outside M) st root)) (ret (child, st))))))))"

definition host_run :: "'k machine \<Rightarrow> host \<Rightarrow> string \<Rightarrow> string \<Rightarrow> (host_error, int) wprog" where
  "host_run M h root i =
    bind (run_begins M h root i) (\<lambda>(child, st). supervise_and_finish M h root i child st)"

lemma host_run_flat: "host_run M h root i =
    andthen (host_validate M h)
   (bind (map_err HIo (init_container_dir (outside M) root i)) (\<lambda>_.
    andthen (reset_trace (outside M) root i)
   (bind (spawn_created M h) (\<lambda>child.
    andthen (limit_child M h i child)
   (bind (mk_state M h i Running child None) (\<lambda>st.
    andthen (lift_state (write_state (outside M) st root))
      (supervise_and_finish M h root i child st)))))))"
  by (simp add: host_run_def run_begins_def andthen_def bind_assoc bind_ret)

section \<open>Create and start\<close>

definition make_fifo :: "'k machine \<Rightarrow> string \<Rightarrow> string \<Rightarrow> (errno, unit) wprog" where
  "make_fifo M root i =
    (let p = exec_fifo root i in
    bind (gets (\<lambda>w. map_of (files w) p \<noteq> None)) (\<lambda>there.
      if there then fail EEXIST
      else bind (wcall_in (outside M) (container_dir root i) (MkFifo p) (AList.update p (Fifo 0 [])) id) (\<lambda>_.
        ret ())))"

text \<open>What a write to the ready pipe delivers; its failure is ignored.\<close>

definition report :: "'k machine \<Rightarrow> string \<Rightarrow> ('e, string) wprog" where
  "report M s = bind (on_calls (sys_ok (answers (outside M)) (Report s))) (\<lambda>ok. ret (if ok then s else []))"

definition supervisor_created ::
  "'k machine \<Rightarrow> host \<Rightarrow> string \<Rightarrow> string \<Rightarrow> (host_error, pid \<times> string) wprog" where
  "supervisor_created M h root i =
    bind (spawn_created M h) (\<lambda>child.
    bind (mk_state M h i Created child None) (\<lambda>st.
    andthen (lift_state (write_state (outside M) st root))
   (bind (report M (show_int child @ [CHR 0x0A])) (\<lambda>line. ret (child, line)))))"

text \<open>The forked supervisor detaches itself from the terminal.\<close>

definition daemonize :: "'k machine \<Rightarrow> (host_error, unit) wprog" where
  "daemonize M =
    andthen (host_ignore M Setsid)
   (bind (on_calls (sys_ok (answers (outside M)) (OpenRw ''/dev/null''))) (\<lambda>ok.
      if ok then each (\<lambda>n. host_ignore M (DupNull n)) [0, 1, 2] else ret ()))"

text \<open>What \<open>create\<close> makes of what it reads: the first line is a pid, or an error message.\<close>

definition report_line :: "string \<Rightarrow> string" where
  "report_line reported = trim (takeWhile (\<lambda>c. c \<noteq> CHR 0x0A) reported)"

definition create_result :: "string \<Rightarrow> host_error + pid" where
  "create_result line = (case parse_i32 line of
      None \<Rightarrow> Inl (HConfig (''supervisor error: '' @ line)) | Some p \<Rightarrow> Inr p)"

definition try_result :: "('s, 'e, 'a) prog \<Rightarrow> ('s, 'f, 'e + 'a) prog" where
  "try_result m = (\<lambda>s. case m s of
      (Ok a, s') \<Rightarrow> (Ok (Inr a), s') | (Err e, s') \<Rightarrow> (Ok (Inl e), s') | (More, s') \<Rightarrow> (More, s'))"

text \<open>
  \<open>create\<close> and the supervisor it forks, until the supervisor has reported: the parent only waits for
  that line, so the supervisor's steps come first. \<open>supervisor_reports\<close> is the forked side, up to its
  reports: what the pipe delivers and the container it now holds, if it got that far. What it does
  afterwards is \<open>supervisor_wait_and_run\<close>, a program of its own. Without a line the parent waits for
  the supervisor to exit; it does when it could not set up the container.
\<close>

definition supervisor_reports ::
  "'k machine \<Rightarrow> host \<Rightarrow> string \<Rightarrow> string \<Rightarrow> (host_error, string \<times> pid option) wprog" where
  "supervisor_reports M h root i =
    andthen (daemonize M)
   (bind (try_result (supervisor_created M h root i)) (\<lambda>r. case r of
        Inr (p, line) \<Rightarrow> bind (report M (show_int p @ [CHR 0x0A])) (\<lambda>again. ret (line @ again, Some p))
      | Inl e \<Rightarrow> bind (report M (show_host_error (show_errno M) e @ [CHR 0x0A])) (\<lambda>line. ret (line, None))))"

definition create_waits :: "'k machine \<Rightarrow> pid \<Rightarrow> string \<Rightarrow> (host_error, pid) wprog" where
  "create_waits M forked reported =
    (let line = report_line reported in
     if line = [] then andthen (host_ignore M (WaitChild forked))
       (fail (HConfig ''supervisor failed during create''))
     else of_sum (create_result line))"

definition fork_supervisor :: "'k machine \<Rightarrow> (host_error, pid) wprog" where
  "fork_supervisor M =
    bind (host_call M Pipe (HErrno ''pipe2'')) (\<lambda>_. host_call M Fork (HErrno ''fork''))"

definition create_detached :: "'k machine \<Rightarrow> host \<Rightarrow> string \<Rightarrow> string \<Rightarrow> (host_error, pid) wprog" where
  "create_detached M h root i =
    bind (fork_supervisor M) (\<lambda>forked.
    bind (supervisor_reports M h root i) (\<lambda>(reported, _). create_waits M forked reported))"

definition create_prepare :: "'k machine \<Rightarrow> host \<Rightarrow> string \<Rightarrow> string \<Rightarrow> (host_error, unit) wprog" where
  "create_prepare M h root i =
    andthen (host_validate M h)
   (bind (map_err HIo (init_container_dir (outside M) root i)) (\<lambda>_.
    andthen (reset_trace (outside M) root i)
   (bind (try_result (make_fifo M root i)) (\<lambda>r. case r of
        Inl e \<Rightarrow> if e = EEXIST then ret () else fail (HErrno ''mkfifo'' e)
      | Inr _ \<Rightarrow> ret ()))))"

definition host_create :: "'k machine \<Rightarrow> host \<Rightarrow> string \<Rightarrow> string \<Rightarrow> (host_error, pid) wprog" where
  "host_create M h root i = andthen (create_prepare M h root i) (create_detached M h root i)"

text \<open>
  Waiting for \<open>start\<close>: one byte of the FIFO, then the reader and with it all it has buffered is
  dropped. \<open>More\<close> stands for still waiting, with or without the FIFO in the store: one that has been
  unlinked can no longer be opened by a writer.
\<close>

definition read_start :: "string \<Rightarrow> ('e, unit) wprog" where
  "read_start p = (\<lambda>w. case map_of (files w) p of
      Some (Fifo n s) \<Rightarrow>
        if s = [] then (More, w)
        else (Ok (), w\<lparr>files := fifo_closed p (AList.update p (Fifo n []) (files w))\<rparr>)
    | None \<Rightarrow> (More, w)
    | Some _ \<Rightarrow> (Ok (), w))"

definition supervisor_opens :: "env \<Rightarrow> string \<Rightarrow> string \<Rightarrow> (host_error, unit) wprog" where
  "supervisor_opens E root i = open_fifo E (exec_fifo root i)"

text \<open>The container is marked as running, then supervised to its end.\<close>

definition mark_running ::
  "'k machine \<Rightarrow> host \<Rightarrow> string \<Rightarrow> string \<Rightarrow> pid \<Rightarrow> (host_error, container_state) wprog" where
  "mark_running M h root i child =
    andthen (limit_child M h i child)
   (bind (attempt (read_state (outside M) root i)) (\<lambda>old.
    bind (case old of Some st \<Rightarrow> ret st | None \<Rightarrow> mk_state M h i Created child None) (\<lambda>st.
    let st' = st\<lparr>st_status := Running, st_pid := child\<rparr> in
    andthen (lift_state (write_state (outside M) st' root)) (ret st'))))"

definition supervisor_runs ::
  "'k machine \<Rightarrow> host \<Rightarrow> string \<Rightarrow> string \<Rightarrow> pid \<Rightarrow> (host_error, int) wprog" where
  "supervisor_runs M h root i child =
    bind (mark_running M h root i child) (supervise_and_finish M h root i child)"

definition supervisor_wait_and_run ::
  "'k machine \<Rightarrow> host \<Rightarrow> string \<Rightarrow> string \<Rightarrow> pid \<Rightarrow> (host_error, int) wprog" where
  "supervisor_wait_and_run M h root i child =
    andthen (supervisor_opens (outside M) root i)
   (andthen (read_start (exec_fifo root i))
      (supervisor_runs M h root i child))"

end
