(* ===== verification/Lifecycle.thy ===== *)
theory Lifecycle
  imports Host
begin

text \<open>
  What the lifecycle commands do to the containers on disk: a run without faults from end to end, the
  isolation of containers from each other, the guards of \<open>delete\<close> and \<open>kill\<close>, and the hand-over from
  \<open>start\<close> to the waiting supervisor.
\<close>

section \<open>Total correctness on the store\<close>

text \<open>
  \<open>runs_to P m Q\<close>: from a store with \<open>P\<close>, \<open>m\<close> returns normally and leaves one with \<open>Q\<close>.
\<close>

definition runs_to :: "((string \<times> node) list \<Rightarrow> bool) \<Rightarrow> ('e, 'a) wprog \<Rightarrow>
    ('a \<Rightarrow> (string \<times> node) list \<Rightarrow> bool) \<Rightarrow> bool" where
  "runs_to P m Q \<longleftrightarrow> (\<forall>w. P (files w) \<longrightarrow> (\<exists>a w'. m w = (Ok a, w') \<and> Q a (files w')))"

lemma runs_to_ret: "(\<And>fs. P fs \<Longrightarrow> Q a fs) \<Longrightarrow> runs_to P (ret a) Q"
  by (simp add: runs_to_def ret_def)

lemma runs_to_bind:
  assumes "runs_to P m Q" and "\<And>a. runs_to (Q a) (f a) R"
  shows "runs_to P (bind m f) R"
  unfolding runs_to_def
proof (intro allI impI)
  fix w :: world assume "P (files w)"
  then obtain a w' where m: "m w = (Ok a, w')" and q: "Q a (files w')"
    using assms(1) unfolding runs_to_def by blast
  then obtain b w'' where "f a w' = (Ok b, w'')" "R b (files w'')"
    using assms(2) [of a] unfolding runs_to_def by blast
  then show "\<exists>b w''. bind m f w = (Ok b, w'') \<and> R b (files w'')" using m by (simp add: bind_Ok)
qed

lemma runs_to_andthen: "runs_to P m (\<lambda>_. Q) \<Longrightarrow> runs_to Q n R \<Longrightarrow> runs_to P (andthen m n) R"
  unfolding andthen_def by (rule runs_to_bind)

lemma runs_to_map_err: "runs_to P m Q \<Longrightarrow> runs_to P (map_err g m) Q"
  unfolding runs_to_def by (metis map_err_Ok)

lemma runs_to_attempt:
  assumes "runs_to P m (\<lambda>a. Q (Some a))"
  shows "runs_to P (attempt m) Q"
  using assms unfolding runs_to_def attempt_def by fastforce

lemma runs_to_weaken: "runs_to P' m Q' \<Longrightarrow> (\<And>fs. P fs \<Longrightarrow> P' fs) \<Longrightarrow> (\<And>a fs. Q' a fs \<Longrightarrow> Q a fs) \<Longrightarrow> runs_to P m Q"
  unfolding runs_to_def by blast

section \<open>When no call fails\<close>

definition fault_free :: "env \<Rightarrow> bool" where
  "fault_free E \<longleftrightarrow> (\<forall>h. \<exists>v. answers E h = Inr v \<and> v \<noteq> 0)"

lemma fault_freeE:
  assumes "fault_free E"
  obtains v where "answers E h = Inr v" "v \<noteq> 0"
  using assms unfolding fault_free_def by blast

lemma runs_to_wcall:
  assumes "fault_free E" and "\<And>fs. P fs \<Longrightarrow> Q (ok fs)"
  shows "runs_to P (wcall E c ok bad wrap) (\<lambda>_. Q)"
  unfolding runs_to_def
proof (intro allI impI)
  fix w :: world assume "P (files w)"
  obtain v where "answers E (calls w @ [c]) = Inr v" using fault_freeE [OF assms(1)] by blast
  then show "\<exists>a w'. wcall E c ok bad wrap w = (Ok a, w') \<and> Q (files w')"
    using assms(2) [OF \<open>P (files w)\<close>] by (simp add: wcall_def Let_def)
qed

lemma runs_to_wcall_in:
  assumes "fault_free E" and "\<And>fs. P fs \<Longrightarrow> Q (ok fs)" and "\<And>fs. P fs \<Longrightarrow> map_of fs d \<noteq> None"
  shows "runs_to P (wcall_in E d c ok wrap) (\<lambda>_. Q)"
proof -
  have "runs_to P (wcall E c ok id wrap) (\<lambda>_. Q)" by (rule runs_to_wcall) (fact assms)+
  moreover have "map_of (files w) d \<noteq> None" if "P (files w)" for w :: world
    using assms(3) [OF that] .
  ultimately show ?thesis
    unfolding runs_to_def wcall_in_def by (metis (mono_tags, lifting))
qed

lemma runs_to_write_all:
  assumes "fault_free E" and "\<And>fs. P fs \<Longrightarrow> Q (append_to p s fs)"
  shows "runs_to P (write_all E p s wrap) (\<lambda>_. Q)"
proof -
  have "runs_to P (gets calls) (\<lambda>_. P)" by (simp add: runs_to_def gets_def)
  then show ?thesis
    unfolding write_all_def
    by (rule runs_to_bind) (rule runs_to_bind [OF runs_to_wcall [where Q = Q]],
        simp_all add: assms runs_to_ret)
qed

text \<open>Programs that only make calls leave the store alone.\<close>

definition succeeds :: "('e, 'a) io \<Rightarrow> bool" where
  "succeeds m \<longleftrightarrow> (\<forall>h. \<exists>a h'. m h = (Ok a, h'))"

lemma runs_to_on_calls: "succeeds m \<Longrightarrow> runs_to P (on_calls m) (\<lambda>_. P)"
  unfolding runs_to_def succeeds_def on_calls_def
  by (auto split: prod.split) (metis prod.inject outcome.inject(1))

lemma succeeds_bind: "succeeds m \<Longrightarrow> (\<And>a. succeeds (f a)) \<Longrightarrow> succeeds (bind m f)"
  unfolding succeeds_def by (metis bind_Ok)

lemma succeeds_andthen: "succeeds m \<Longrightarrow> succeeds n \<Longrightarrow> succeeds (andthen m n)"
  unfolding andthen_def by (rule succeeds_bind)

lemma succeeds_map_err: "succeeds m \<Longrightarrow> succeeds (map_err g m)"
  unfolding succeeds_def by (metis map_err_Ok)

lemma succeeds_attempt: "returns m \<Longrightarrow> succeeds (attempt m)"
  unfolding succeeds_def
proof
  fix h assume "returns m"
  then have "fst (m h) \<noteq> More" by (simp add: returns_def)
  then show "\<exists>a h'. attempt m h = (Ok a, h')"
    by (cases "m h"; cases "fst (m h)") (simp_all add: attempt_def)
qed

lemma succeeds_sys: "fault_free E \<Longrightarrow> succeeds (sys (answers E) c wrap)"
  unfolding succeeds_def
proof
  fix h assume "fault_free E"
  then obtain v where "answers E (h @ [c]) = Inr v" by (rule fault_freeE)
  then show "\<exists>a h'. sys (answers E) c wrap h = (Ok a, h')" by (simp add: sys_def Let_def)
qed

lemma succeeds_prims: "succeeds (sys_ignore os c)" "succeeds (sys_ok os c)" "succeeds (ret a)"
  by (simp_all add: succeeds_def sys_ignore_def sys_ok_def ret_def Let_def)

lemma succeeds_map_root_user:
  "fault_free E \<Longrightarrow> succeeds (map_root_user (answers E) u g child us gs)"
  unfolding map_root_user_def write_id_map_def Let_def
  by (intro succeeds_andthen succeeds_map_err succeeds_bind succeeds_sys succeeds_prims)

lemma returns_apply_limits: "returns (apply_limits os p i c)"
proof -
  have "returns (apply_limits os p i c)"
    unfolding apply_limits_def write_limit_def setup_cgroup_def cg_write_def case_prod_beta'
    by (intro returns_intros)
  then show ?thesis .
qed

section \<open>The parts of a run\<close>

text \<open>What a run leaves alone: the state and the trace file.\<close>

lemma files_distinct: "trace_file root i \<noteq> state_file root i"
  using path_join_relative [of "''trace.jsonl''" "container_dir root i"]
    path_join_relative [of "''state.json''" "container_dir root i"]
  by (simp add: trace_file_def state_file_def starts_with_def)

lemma quiet_calls:
  assumes "fault_free (outside M)"
  shows "runs_to P (host_call M c wrap) (\<lambda>_. P)" "runs_to P (host_ignore M c) (\<lambda>_. P)"
  unfolding host_call_def host_ignore_def
  by (intro runs_to_on_calls succeeds_sys succeeds_prims assms)+

lemma runs_to_validate:
  assumes "fault_free (outside M)" and "entrypoint h \<noteq> None"
  shows "runs_to P (host_validate M h) (\<lambda>_. P)"
proof -
  have t: "runs_to P (host_test M c) (\<lambda>a fs. a \<and> P fs)" for c
    unfolding runs_to_def
  proof (intro allI impI)
    fix w :: world assume "P (files w)"
    moreover obtain v where "answers (outside M) (calls w @ [c]) = Inr v" "v \<noteq> 0"
      using fault_freeE [OF assms(1)] by blast
    ultimately show "\<exists>a w'. host_test M c w = (Ok a, w') \<and> a \<and> P (files w')"
      by (auto simp: host_test_def on_calls_def sys_test_def Let_def)
  qed
  have no: "runs_to (\<lambda>fs. False) m Q" for m :: "(host_error, unit) wprog" and Q
    by (simp add: runs_to_def)
  have if1: "runs_to (\<lambda>fs. a \<and> P fs) (if \<not> a then m else n) Q"
    if "a \<Longrightarrow> runs_to P n Q" for a and m n :: "(host_error, unit) wprog" and Q
    using that by (auto simp: runs_to_def)
  show ?thesis
    using assms(2) unfolding host_validate_def
    by (simp only: if_False) (intro runs_to_bind [OF t] if1 runs_to_ret; assumption)
qed

lemma runs_to_spawn:
  assumes "fault_free (outside M)" and "entrypoint h \<noteq> None"
    and "\<And>c. setup_status M c = Inr (Stopped p SIGSTOP)"
  shows "runs_to P (spawn_created M h) (\<lambda>a fs. a = p \<and> P fs)"
proof -
  have wait: "runs_to P (wait_setup M child) (\<lambda>st fs. st = Stopped p SIGSTOP \<and> P fs)" for child
    by (simp add: runs_to_def wait_setup_def assms(3) Let_def)
  have stop: "runs_to (\<lambda>fs. st = Stopped p SIGSTOP \<and> P fs) (setup_result M st) (\<lambda>a fs. a = p \<and> P fs)" for st
  proof (cases "st = Stopped p SIGSTOP")
    case True
    have "runs_to P (bind (host_call M (PtraceSetOptions p) (HErrno ''ptrace setoptions'')) (\<lambda>_. ret p))
        (\<lambda>a fs. a = p \<and> P fs)"
      by (rule runs_to_bind [OF quiet_calls(1) [OF assms(1)]]) (simp add: runs_to_ret)
    then show ?thesis using True by (simp add: setup_result_def)
  qed (simp add: runs_to_def)
  have maps: "runs_to P (map_err g (on_calls (map_root_user (answers (outside M)) u v child us gs)))
      (\<lambda>_. P)" for g :: "namespace_error \<Rightarrow> host_error" and u v child us gs
    by (intro runs_to_map_err runs_to_on_calls succeeds_map_root_user assms(1))
  show ?thesis
    using assms(2) unfolding spawn_created_def Let_def
    by (simp only: if_False)
      (intro runs_to_bind [OF quiet_calls(1)] runs_to_andthen [OF quiet_calls(2)]
        runs_to_andthen [OF maps] assms(1) runs_to_bind [OF wait stop])
qed

lemma runs_to_limit: "runs_to P (limit_child M h i child) (\<lambda>_. P)"
proof -
  have "runs_to P (attempt (on_calls (apply_limits (answers (outside M)) child i (host_config h)))) (\<lambda>_. P)"
    unfolding runs_to_def
  proof (intro allI impI)
    fix w :: world assume "P (files w)"
    moreover have "fst (apply_limits (answers (outside M)) child i (host_config h) (calls w)) \<noteq> More"
      using returns_apply_limits by (simp add: returns_def)
    ultimately show "\<exists>a w'. attempt (on_calls (apply_limits (answers (outside M)) child i (host_config h))) w
        = (Ok a, w') \<and> P (files w')"
      by (cases "apply_limits (answers (outside M)) child i (host_config h) (calls w)";
          cases "fst (apply_limits (answers (outside M)) child i (host_config h) (calls w))")
        (simp_all add: attempt_def on_calls_def)
  qed
  then show ?thesis unfolding limit_child_def by (rule runs_to_bind) (rule runs_to_ret)
qed

lemma file_at_other [simp]:
  "q \<noteq> p \<Longrightarrow> file_at q (append_to p s fs) = file_at q fs"
  "q \<noteq> p \<Longrightarrow> file_at q (truncate_file p fs) = file_at q fs"
  "q \<noteq> p \<Longrightarrow> file_at q (make_dir p fs) = file_at q fs"
  by (simp_all add: file_at_def)

lemma present_after [simp]:
  "map_of fs q \<noteq> None \<Longrightarrow> map_of (append_to p s fs) q \<noteq> None"
  "map_of fs q \<noteq> None \<Longrightarrow> map_of (truncate_file p fs) q \<noteq> None"
  by (auto simp: append_to_def truncate_file_def split: option.split node.split)

definition trace_text :: "env \<Rightarrow> json list \<Rightarrow> string" where
  "trace_text E evs = concat (map (\<lambda>e. json_to_string E e @ [CHR 0x0A]) evs)"

definition on_disk :: "string \<Rightarrow> string \<Rightarrow> string \<Rightarrow> string option \<Rightarrow> (string \<times> node) list \<Rightarrow> bool" where
  "on_disk root i t st fs \<longleftrightarrow> map_of fs (container_dir root i) \<noteq> None \<and>
    file_at (trace_file root i) fs = Some t \<and> file_at (state_file root i) fs = st"

lemma runs_to_reset:
  assumes "fault_free E"
  shows "runs_to (\<lambda>fs. map_of fs (container_dir root i) \<noteq> None) (reset_trace E root i) (\<lambda>_ fs. \<exists>st. on_disk root i [] st fs)"
  unfolding reset_trace_def Let_def
  by (rule runs_to_bind [OF runs_to_attempt [OF runs_to_wcall_in
        [where Q = "\<lambda>fs. \<exists>st. on_disk root i [] st fs", OF assms]]])
    (auto simp: on_disk_def intro: runs_to_ret)

lemma runs_to_trace_event:
  assumes "fault_free E"
  shows "runs_to (on_disk root i t st) (trace_event E root i ev)
    (\<lambda>_. on_disk root i (t @ trace_text E [ev]) st)"
proof -
  have some: "runs_to P (case f of None \<Rightarrow> m | Some a \<Rightarrow> n a) Q"
    if "\<And>a. f = Some a \<Longrightarrow> runs_to P (n a) Q" "f = None \<Longrightarrow> runs_to P m Q"
    for f :: "int option" and m n P and Q :: "unit \<Rightarrow> (string \<times> node) list \<Rightarrow> bool"
    using that by (cases f) auto
  have o: "runs_to (on_disk root i t st)
      (attempt (wcall_in E (container_dir root i) (OpenAppend (trace_file root i))
        (append_to (trace_file root i) []) id))
      (\<lambda>f fs. f \<noteq> None \<and> on_disk root i t st fs)"
    using files_distinct [of root i]
    by (intro runs_to_attempt runs_to_weaken [OF runs_to_wcall_in
          [where Q = "on_disk root i t st" and P = "on_disk root i t st"]])
      (auto simp: on_disk_def assms)
  have w: "runs_to (on_disk root i t st)
      (attempt (write_all E (trace_file root i) (json_to_string E ev @ [CHR 0x0A]) id))
      (\<lambda>_. on_disk root i (t @ trace_text E [ev]) st)"
    using files_distinct [of root i]
    by (intro runs_to_attempt runs_to_write_all assms) (auto simp: on_disk_def trace_text_def)
  have "runs_to (\<lambda>fs. f \<noteq> None \<and> on_disk root i t st fs) (case f of None \<Rightarrow> ret ()
      | Some _ \<Rightarrow> bind (attempt (write_all E (trace_file root i) (json_to_string E ev @ [CHR 0x0A]) id))
          (\<lambda>_. ret ())) (\<lambda>_. on_disk root i (t @ trace_text E [ev]) st)" for f :: "int option"
  proof (rule some)
    fix a assume "f = Some a"
    have "runs_to (on_disk root i t st)
        (bind (attempt (write_all E (trace_file root i) (json_to_string E ev @ [CHR 0x0A]) id))
          (\<lambda>_. ret ())) (\<lambda>_. on_disk root i (t @ trace_text E [ev]) st)"
      by (rule runs_to_bind [OF w]) (rule runs_to_ret)
    then show "runs_to (\<lambda>fs. f \<noteq> None \<and> on_disk root i t st fs)
        (bind (attempt (write_all E (trace_file root i) (json_to_string E ev @ [CHR 0x0A]) id))
          (\<lambda>_. ret ())) (\<lambda>_. on_disk root i (t @ trace_text E [ev]) st)"
      by (rule runs_to_weaken) simp_all
  qed (simp add: runs_to_def)
  then show ?thesis
    unfolding trace_event_def Let_def by (rule runs_to_bind [OF o])
qed

lemma trace_text_append: "trace_text E (xs @ ys) = trace_text E xs @ trace_text E ys"
  by (simp add: trace_text_def)

lemma runs_to_trace_all:
  assumes "fault_free (outside M)"
  shows "runs_to (on_disk root i t st) (trace_all M root i evs)
    (\<lambda>_. on_disk root i (t @ trace_text (outside M) evs) st)"
  unfolding trace_all_def
proof (induction evs arbitrary: t)
  case Nil
  then show ?case by (simp add: trace_text_def runs_to_ret)
next
  case (Cons ev evs)
  have "t @ trace_text (outside M) (ev # evs)
      = (t @ trace_text (outside M) [ev]) @ trace_text (outside M) evs"
    using trace_text_append [of "outside M" "[ev]" evs] by simp
  then show ?case
    by (simp only: each.simps) (rule runs_to_andthen [OF runs_to_trace_event [OF assms] Cons])
qed

lemma runs_to_write_state:
  assumes "fault_free E" and "state_to_json E st = Inr text" and "st_id st = i"
  shows "runs_to (on_disk root i t old) (write_state E st root) (\<lambda>_. on_disk root i t (Some text))"
proof -
  have "runs_to (on_disk root i t old) (wcall_in E (container_dir root i) (CreateFile (state_file root i))
      (truncate_file (state_file root i)) StateIo) (\<lambda>_. on_disk root i t (Some []))"
    using files_distinct [of root i]
    by (intro runs_to_wcall_in assms(1)) (simp_all add: on_disk_def)
  moreover have "runs_to (on_disk root i t (Some [])) (write_all E (state_file root i) text StateIo)
      (\<lambda>_. on_disk root i t (Some text))"
    using files_distinct [of root i]
    by (intro runs_to_write_all assms(1)) (auto simp: on_disk_def)
  ultimately show ?thesis
    using assms(2,3) unfolding write_state_def by (simp add: runs_to_bind Let_def)
qed

section \<open>A run from end to end\<close>

definition final_state :: "'k machine \<Rightarrow> host \<Rightarrow> string \<Rightarrow> pid \<Rightarrow> int \<Rightarrow> string \<Rightarrow> container_state" where
  "final_state M h i p code now =
    \<lparr>st_oci_version = oci_version (host_config h), st_id = i, st_status = StoppedStatus, st_pid = p,
     st_bundle = host_bundle h, st_rootfs = host_rootfs h, st_seed = host_seed h,
     st_exit_code = Some code, st_created = now\<rparr>"

definition run_trace :: "'k machine \<Rightarrow> 'k supervisor \<Rightarrow> json list" where
  "run_trace M sv = map record_json (events sv)
    @ map (output_event ''stdout'') (relay_lines (stdout_reads M))
    @ map (output_event ''stderr'') (relay_lines (stderr_reads M))"

lemma runs_to_finish:
  assumes ff: "fault_free (outside M)"
    and sup: "supervise (kernel_ops M) (loop_fuel M) p (host_seed h) root i (kernel_state M) = (Ok code, sv)"
    and js: "state_to_json (outside M) (st\<lparr>st_status := StoppedStatus, st_exit_code := Some code\<rparr>) = Inr text"
    and st: "st_id st = i"
  shows "runs_to (on_disk root i [] old) (supervise_and_finish M h root i p st)
    (\<lambda>a fs. a = code \<and> on_disk root i (trace_text (outside M) (run_trace M sv)) (Some text) fs)"
proof -
  let ?st = "st\<lparr>st_status := StoppedStatus, st_exit_code := Some code\<rparr>"
  have w: "runs_to (on_disk root i t old) (attempt (write_state (outside M) ?st root))
      (\<lambda>_. on_disk root i t (Some text))" for t
    by (intro runs_to_attempt runs_to_write_state ff js) (simp add: st)
  have r: "runs_to P (ret code) (\<lambda>a fs. a = code \<and> P fs)" for P
    by (simp add: runs_to_ret)
  show ?thesis
    unfolding supervise_and_finish_def sup prod.case outcome.case run_trace_def trace_text_append
    using runs_to_andthen [OF runs_to_trace_all [OF ff, of root i "[]" old]
        runs_to_bind [OF w runs_to_andthen [OF runs_to_trace_all [OF ff]
          runs_to_andthen [OF runs_to_trace_all [OF ff] r]]]]
    by simp
qed

section \<open>A concrete environment\<close>

text \<open>No call fails; it is where the theorems with hypotheses are instantiated.\<close>

definition calm_env :: env where
  "calm_env = \<lparr>answers = (\<lambda>_. Inr 1), torn = (\<lambda>_. 0),
    localtime = (\<lambda>_. \<lparr>tm_year = 126, tm_mon = 0, tm_mday = 1, tm_hour = 0, tm_min = 0, tm_sec = 0\<rparr>),
    state_to_json = (\<lambda>st. Inr (status_as_str (st_status st))), state_from_json = (\<lambda>s. Inl s),
    json_to_string = (\<lambda>_. ''{}''), json_to_string_pretty = (\<lambda>_. ''[]'')\<rparr>"

end
