(* ===== verification/Footprint.thy ===== *)
theory Footprint
  imports Lifecycle
begin

text \<open>
  Which paths of the store a program can change, errors and torn writes included: rules for every
  construct and every operation of the state store, the lifecycle commands and the host.
\<close>

section \<open>What a program leaves alone\<close>

definition within :: "(string \<Rightarrow> bool) \<Rightarrow> world \<Rightarrow> world \<Rightarrow> bool" where
  "within A w w' \<longleftrightarrow> (\<forall>q. A q \<or> map_of (files w') q = map_of (files w) q)"

interpretation fr: evolution "within A" "within A" for A
  by unfold_locales (auto simp: within_def, metis)

text \<open>\<open>touches A m\<close>: \<open>m\<close> changes no path outside \<open>A\<close>.\<close>

abbreviation touches :: "(string \<Rightarrow> bool) \<Rightarrow> ('e, 'a) wprog \<Rightarrow> bool" where
  "touches A m \<equiv> moves (within A) (within A) m"

named_theorems touch_intros \<open>programs that change nothing outside a set of paths\<close>

lemmas touch_structure = fr.moves_intros fr.moves_attempt

lemma touches_wcall:
  assumes "\<And>fs q. \<not> A q \<Longrightarrow> map_of (ok fs) q = map_of fs q"
    and "\<And>fs q. \<not> A q \<Longrightarrow> map_of (bad fs) q = map_of fs q"
  shows "touches A (wcall E c ok bad wrap)"
  using assms by (auto simp: moves_all wcall_def within_def Let_def split: sum.split)

lemma touches_on_calls [touch_intros]: "touches A (on_calls m)"
  by (auto simp: moves_all on_calls_def within_def split: prod.split)

lemma touches_map_err [touch_intros]:
  assumes "touches A m"
  shows "touches A (map_err g m)"
  unfolding moves_all
proof
  fix w
  have "snd (map_err g m w) = snd (m w)"
    by (simp add: map_err_def split: prod.split outcome.split)
  then show "within A w (snd (map_err g m w))" using assms by (simp add: moves_all)
qed

lemma touches_try [touch_intros]:
  assumes "touches A m"
  shows "touches A (try_result m)"
  unfolding moves_all
proof
  fix w
  have "snd (try_result m w) = snd (m w)"
    by (simp add: try_result_def split: prod.split outcome.split)
  then show "within A w (snd (try_result m w))" using assms unfolding moves_all by metis
qed

lemma touches_each [touch_intros]: "(\<And>x. touches A (f x)) \<Longrightarrow> touches A (each f xs)"
  by (induction xs) (auto intro: touch_structure)

lemma touches_sum [touch_intros]:
  "(\<And>a. touches A (f a)) \<Longrightarrow> (\<And>b. touches A (g b)) \<Longrightarrow> touches A (case x of Inl a \<Rightarrow> f a | Inr b \<Rightarrow> g b)"
  by (cases x) auto

lemma touches_status [touch_intros]:
  assumes "\<And>p c. touches A (f1 p c)" "\<And>p s b. touches A (f2 p s b)" "\<And>p s. touches A (f3 p s)"
    "\<And>p s e. touches A (f4 p s e)" "\<And>p. touches A (f5 p)" "\<And>p. touches A (f6 p)" "touches A f7"
  shows "touches A (case x of Exited p c \<Rightarrow> f1 p c | Signaled p s b \<Rightarrow> f2 p s b | Stopped p s \<Rightarrow> f3 p s
    | PtraceEvent p s e \<Rightarrow> f4 p s e | PtraceSyscall p \<Rightarrow> f5 p | Continued p \<Rightarrow> f6 p | StillAlive \<Rightarrow> f7)"
  using assms by (cases x) auto

lemma touches_outcome [touch_intros]:
  "(\<And>a. touches A (f a)) \<Longrightarrow> (\<And>e. touches A (g e)) \<Longrightarrow> touches A n \<Longrightarrow>
    touches A (case x of Ok a \<Rightarrow> f a | Err e \<Rightarrow> g e | More \<Rightarrow> n)"
  by (cases x) auto

lemma touches_write_all [touch_intros]: "A p \<Longrightarrow> touches A (write_all E p s wrap)"
  unfolding write_all_def by (intro touch_structure touches_wcall) (auto intro: other_paths)

lemma touches_host_call [touch_intros]:
  "touches A (host_call M c wrap)" "touches A (host_test M c)" "touches A (host_ignore M c)"
  unfolding host_call_def host_test_def host_ignore_def by (rule touches_on_calls)+

lemma under_files:
  "under (container_dir root i) (container_dir root i)" "under (container_dir root i) (state_file root i)"
  "under (container_dir root i) (trace_file root i)" "under (container_dir root i) (exec_fifo root i)"
  unfolding state_file_def trace_file_def exec_fifo_def
  by (simp add: under_def, (rule under_join, simp add: starts_with_def)+)

lemma map_of_filter_keys: "P q \<Longrightarrow> map_of (filter (\<lambda>(p, _). P p) fs) q = map_of fs q"
  by (induction fs) auto

lemma other_paths_removed:
  "\<not> under d q \<Longrightarrow> map_of (remove_under d fs) q = map_of fs q"
  "\<not> under d q \<Longrightarrow> map_of (remove_some n d fs) q = map_of fs q"
proof -
  assume q: "\<not> under d q"
  show "map_of (remove_under d fs) q = map_of fs q"
    unfolding remove_under_def using q by (rule map_of_filter_keys)
  have "q \<notin> set (take n (filter (under d) (map fst fs)))"
    using q by (auto dest: in_set_takeD)
  then show "map_of (remove_some n d fs) q = map_of fs q"
    unfolding remove_some_def Let_def by (rule map_of_filter_keys)
qed

lemma other_paths_fifo:
  "q \<noteq> p \<Longrightarrow> map_of (fifo_opened p fs) q = map_of fs q"
  "q \<noteq> p \<Longrightarrow> map_of (fifo_closed p fs) q = map_of fs q"
  by (simp_all add: fifo_opened_def fifo_closed_def split: option.split node.split)

text \<open>One call that changes one path.\<close>

lemma touches_at:
  assumes "A p" and "\<And>fs q. q \<noteq> p \<Longrightarrow> map_of (ok fs) q = map_of fs q"
  shows "touches A (wcall E c ok id wrap)"
  by (intro touches_wcall) (metis assms, simp)

lemma touches_effects [touch_intros]:
  assumes "A p"
  shows "touches A (wcall E c (truncate_file p) id wrap)" "touches A (wcall E c (make_dir p) id wrap)"
    "touches A (wcall E c (append_to p s) id wrap)" "touches A (wcall E c (fifo_opened p) id wrap)"
    "touches A (wcall E c (AList.update p x) id wrap)" "touches A (close_fifo p)"
proof -
  show "touches A (close_fifo p)"
    unfolding close_fifo_def
  proof (rule fr.moves_modify)
    fix w show "within A w (w\<lparr>files := fifo_closed p (files w)\<rparr>)"
      using assms other_paths_fifo(2) [of _ p] unfolding within_def by simp metis
  qed
qed (auto intro: touches_at [where p = p] simp: assms other_paths_fifo)

lemma touches_in [touch_intros]: "touches A (wcall E c ok id wrap) \<Longrightarrow> touches A (wcall_in E d' c ok wrap)"
  by (simp add: moves_all wcall_in_def) (simp add: within_def)

lemma touches_id [touch_intros]: "touches A (wcall E c id id wrap)"
  by (rule touches_wcall) simp_all

lemma touches_remove [touch_intros]:
  assumes "\<And>q. under d q \<Longrightarrow> A q"
  shows "touches A (wcall E c (remove_under d) (remove_some n d) wrap)"
  by (intro touches_wcall other_paths_removed) (use assms in blast)+

lemma touches_read [touch_intros]: "touches A (read_to_string E p)"
  by (auto simp: moves_all read_to_string_def within_def Let_def split: option.split sum.split)

lemma touches_wait [touch_intros]: "touches A (wait_setup M c)"
  by (auto simp: moves_all wait_setup_def within_def Let_def split: sum.split)

lemma touches_of_sum [touch_intros]: "touches A (of_sum r)"
  by (cases r) (simp_all add: of_sum_def fr.moves_ret fr.moves_fail)

lemma touches_drop [touch_intros]:
  assumes "touches A m" and "touches A n"
  shows "touches A (and_drop m n)"
  unfolding moves_all
proof
  fix w
  have "within A w (snd (m w))" "within A (snd (m w)) (snd (n (snd (m w))))"
    using assms by (simp_all add: moves_all)
  moreover have "snd (and_drop m n w) = snd (n (snd (m w)))"
    by (simp add: and_drop_def split: prod.split)
  ultimately show "within A w (snd (and_drop m n w))" by (metis fr.T_trans)
qed

lemma touches_state:
  "A (state_file root (st_id st)) \<Longrightarrow> touches A (write_state E st root)"
  "touches A (read_state E root i)"
  "(\<And>q. under (container_dir root i) q \<Longrightarrow> A q) \<Longrightarrow> touches A (remove_state E root i)"
  "A (trace_file root i) \<Longrightarrow> touches A (trace_event E root i ev)"
  "A (trace_file root i) \<Longrightarrow> touches A (reset_trace E root i)"
  "A (container_dir root i) \<Longrightarrow> touches A (init_container_dir E root i)"
  unfolding write_state_def read_state_def remove_state_def trace_event_def reset_trace_def
    init_container_dir_def Let_def
  by (intro touch_intros touch_structure; simp)+

lemma touches_fifo:
  "A (exec_fifo root i) \<Longrightarrow> touches A (make_fifo M root i)"
  "A (exec_fifo root i) \<Longrightarrow> touches A (start_container E root i)"
  "touches A (kill_container E root i sig)"
  unfolding make_fifo_def start_container_def kill_container_def kill_call_def lift_state_def open_fifo_def Let_def
  by (intro touch_intros touches_state touch_structure; simp)+

lemma touches_mk_state:
  assumes "\<And>st. st_id st = i \<Longrightarrow> touches A (f st)"
  shows "touches A (bind (mk_state M h i status p code) f)"
proof -
  have "bind (mk_state M h i status p code) f = bind (gets (\<lambda>w.
      \<lparr>st_oci_version = oci_version (host_config h), st_id = i, st_status = status, st_pid = p,
       st_bundle = host_bundle h, st_rootfs = host_rootfs h, st_seed = host_seed h,
       st_exit_code = code, st_created = chrono_like (localtime (outside M) (calls w))\<rparr>)) f"
    by (simp add: mk_state_def now_rfc3339_def fun_eq_iff prog_simps)
  then show ?thesis
    using assms by (auto simp: moves_def bind_def gets_def)
qed

lemma touches_spawn [touch_intros]: "touches A (spawn_created M h)" "touches A (host_validate M h)"
  "touches A (limit_child M h i p)" "touches A (daemonize M)" "touches A (report M s)"
  unfolding spawn_created_def setup_result_def host_validate_def limit_child_def daemonize_def
    report_def Let_def
  by (intro touch_intros touch_structure)+

lemma touches_finish:
  "A (trace_file root i) \<Longrightarrow> A (state_file root (st_id st)) \<Longrightarrow> touches A (supervise_and_finish M h root i p st)"
  unfolding supervise_and_finish_def trace_all_def case_prod_beta'
  by (intro touch_intros touches_state touch_structure) simp_all

text \<open>The frame rule: what is at a path the program does not touch is still there.\<close>

lemma runs_to_frame:
  assumes "touches (\<lambda>q. q \<noteq> p) m" and "runs_to P m Q"
  shows "runs_to (\<lambda>fs. P fs \<and> map_of fs p = x) m (\<lambda>a fs. Q a fs \<and> map_of fs p = x)"
  unfolding runs_to_def
proof (intro allI impI)
  fix w :: world assume w: "P (files w) \<and> map_of (files w) p = x"
  then obtain a w' where m: "m w = (Ok a, w')" "Q a (files w')" using assms(2) unfolding runs_to_def by blast
  have "within (\<lambda>q. q \<noteq> p) w (snd (m w))" using assms(1) by (simp add: moves_all)
  then show "\<exists>a w'. m w = (Ok a, w') \<and> Q a (files w') \<and> map_of (files w') p = x"
    using w m by (simp add: within_def)
qed

section \<open>Commands stay in the directory of their container\<close>

text \<open>The directory \<open>container_dir root i\<close> and everything below it.\<close>

abbreviation inside :: "string \<Rightarrow> string \<Rightarrow> string \<Rightarrow> bool" where
  "inside root i \<equiv> under (container_dir root i)"

lemma touches_ops:
  "touches (inside root i) (start_container E root i)"
  "touches (inside root i) (kill_container E root i sig)"
  "touches (inside root i) (delete_container E root i force)"
  by (intro touches_fifo under_files)+
    (unfold delete_container_def lift_state_def kill_call_def, intro touch_intros touches_state touch_structure)

lemma touches_run: "touches (inside root i) (host_run M h root i)"
  unfolding host_run_flat lift_state_def
  by (intro touch_intros touches_state touch_structure touches_mk_state touches_finish; simp add: under_files)

lemma touches_create: "touches (inside root i) (host_create M h root i)"
  unfolding host_create_def create_prepare_def create_detached_def fork_supervisor_def supervisor_reports_def create_waits_def
    supervisor_created_def lift_state_def Let_def case_prod_beta'
  by (intro touch_intros touches_state touches_fifo touch_structure touches_mk_state; simp add: under_files)

end
