(* ===== verification/Isolation.thy ===== *)
theory Isolation
  imports Footprint
begin

text \<open>
  The commands on one container: what they leave alone, what \<open>delete\<close> and \<open>kill\<close> require, and the
  hand-over from \<open>start\<close> to the supervisor that waits on the FIFO.
\<close>

section \<open>Reading a state\<close>

text \<open>The state that is stored for a container, if it is there and can be parsed.\<close>

definition stored :: "env \<Rightarrow> string \<Rightarrow> string \<Rightarrow> world \<Rightarrow> container_state option" where
  "stored E root i w = (case file_at (state_file root i) (files w) of
      None \<Rightarrow> None
    | Some s \<Rightarrow> (case state_from_json E s of Inl _ \<Rightarrow> None | Inr st \<Rightarrow> Some st))"

definition read_call :: "string \<Rightarrow> string \<Rightarrow> call" where
  "read_call root i = ReadFile (state_file root i)"

lemma read_state_result:
  "\<exists>r. read_state E root i w = (r, w\<lparr>calls := calls w @ [read_call root i]\<rparr>) \<and> r \<noteq> More
    \<and> (\<forall>st. r = Ok st \<longrightarrow> stored E root i w = Some st)"
  by (auto simp: read_state_def read_to_string_def stored_def read_call_def map_err_def bind_def Let_def
      prog_simps split: option.split sum.split)

lemma lift_read_cases:
  obtains (ok) st where "lift_state (read_state E root i) w
      = (Ok st, w\<lparr>calls := calls w @ [read_call root i]\<rparr>)" "stored E root i w = Some st"
  | (err) e where "lift_state (read_state E root i) w
      = (Err e, w\<lparr>calls := calls w @ [read_call root i]\<rparr>)"
proof -
  obtain r where r: "read_state E root i w = (r, w\<lparr>calls := calls w @ [read_call root i]\<rparr>)" "r \<noteq> More"
    "\<And>st. r = Ok st \<Longrightarrow> stored E root i w = Some st"
    using read_state_result [of E root i w] by blast
  show thesis
    using r ok err by (cases r) (auto simp: lift_state_def map_err_def)
qed

section \<open>Properties\<close>



text \<open>
  C16. \<open>delete\<close> removes the container's directory, and with it the state, only when the stored status is
  stopped or the caller forces it; refused, it changes no file and signals no process.
\<close>

theorem delete_guarded:
  "case delete_container E root i force w of
      (Ok _, w') \<Rightarrow> (\<exists>st. stored E root i w = Some st \<and> (st_status st = StoppedStatus \<or> force))
        \<and> files w' = remove_under (container_dir root i) (files w) \<and> stored E root i w' = None
    | (Err e, w') \<Rightarrow> files w' = files w \<and> calls w' = calls w @ [read_call root i]
        \<or> (\<exists>st. stored E root i w = Some st \<and> (st_status st = StoppedStatus \<or> force))
    | (More, _) \<Rightarrow> False"
proof (cases rule: lift_read_cases [of E root i w])
  case (ok st)
  have gone: "file_at (state_file root i) (remove_under (container_dir root i) fs) = None" for fs
  proof -
    have "state_file root i \<notin> fst ` set (remove_under (container_dir root i) fs)"
      using under_files(2) [of root i] by (auto simp: remove_under_def)
    then have "map_of (remove_under (container_dir root i) fs) (state_file root i) = None"
      by (simp only: map_of_None_keys not_False_eq_True)
    then show ?thesis by (simp add: file_at_def)
  qed
  have remove: "case lift_state (remove_state E root i) v of
      (Ok _, w') \<Rightarrow> files w' = remove_under (container_dir root i) (files v)
    | (Err e, w') \<Rightarrow> True | (More, _) \<Rightarrow> False" for v
    by (simp add: lift_state_def map_err_def remove_state_def wcall_def prog_simps Let_def split: sum.split)
  have kill: "\<exists>k. (if force \<and> 0 < st_pid st then bind (attempt (kill_call E (st_pid st) SIGKILL))
      (\<lambda>_. ret ()) else ret () :: (host_error, unit) wprog) v = (Ok (), v\<lparr>calls := k\<rparr>)" for v
    by (auto simp: kill_call_def wcall_def prog_simps Let_def split: sum.split intro: exI [of _ "calls v"])
  show ?thesis
  proof (cases "st_status st \<noteq> StoppedStatus \<and> \<not> force")
    case True
    then show ?thesis using ok(1) by (simp add: delete_container_def bind_Ok fail_def)
  next
    case False
    let ?v = "w\<lparr>calls := calls w @ [read_call root i]\<rparr>"
    let ?kill = "if force \<and> 0 < st_pid st then bind (attempt (kill_call E (st_pid st) SIGKILL))
      (\<lambda>_. ret ()) else ret () :: (host_error, unit) wprog"
    obtain k where k: "?kill ?v = (Ok (), w\<lparr>calls := k\<rparr>)" using kill [of ?v] by auto
    have "delete_container E root i force w = andthen ?kill (lift_state (remove_state E root i)) ?v"
      unfolding delete_container_def
        bind_Ok [where m = "lift_state (read_state E root i)", OF ok(1)] using False by (simp only: if_False)
    also have "\<dots> = lift_state (remove_state E root i) (w\<lparr>calls := k\<rparr>)"
      unfolding andthen_def by (rule bind_Ok [where m = ?kill, OF k])
    finally have "delete_container E root i force w = lift_state (remove_state E root i) (w\<lparr>calls := k\<rparr>)" .
    then show ?thesis
      using remove [of "w\<lparr>calls := k\<rparr>"] ok(2) False gone
      by (auto simp: stored_def split: prod.splits outcome.splits)
  qed
next
  case (err e)
  then show ?thesis by (simp add: delete_container_def bind_Err)
qed


lemma start_Ok_files:
  assumes "start_container E root i w = (Ok (), w')"
  shows "files w' = fifo_closed (exec_fifo root i) (append_to (exec_fifo root i) ''x''
    (fifo_opened (exec_fifo root i) (files w)))"
  using assms
  by (cases rule: lift_read_cases [of E root i w])
    (auto simp: start_container_def bind_Ok bind_Err fail_def open_fifo_def and_drop_def close_fifo_def
      andthen_def prog_simps bind_eq_Ok gets_def wcall_Ok write_all_Ok Let_def ret_def modify_def
      split: if_splits prod.splits outcome.splits)

lemma opens_Ok_files:
  "supervisor_opens E root i w = (Ok (), w') \<Longrightarrow> files w' = fifo_opened (exec_fifo root i) (files w)"
  by (auto simp: supervisor_opens_def open_fifo_def bind_eq_Ok gets_def fail_def wcall_Ok ret_def
      split: if_splits)

lemma fifo_effects:
  assumes "map_of fs p = Some (Fifo n s)"
  shows "map_of (fifo_opened p fs) p = Some (Fifo (Suc n) s)"
    "map_of (append_to p x fs) p = Some (Fifo n (s @ x))"
    "map_of (fifo_closed p fs) p = Some (Fifo (n - 1) (if n \<le> 1 then [] else s))"
  using assms by (simp_all add: fifo_opened_def append_to_def fifo_closed_def)

text \<open>
  C9. A \<open>start\<close> that comes between the report of \<open>create\<close> and the moment the supervisor opens the FIFO
  returns successfully, but its byte is discarded when it closes the FIFO, and the supervisor then
  waits; a \<open>start\<close> after the supervisor has opened the FIFO is seen.
\<close>

theorem early_start_is_lost:
  assumes "map_of (files w) (exec_fifo root i) = Some (Fifo 0 [])"
    and "start_container E root i w = (Ok (), w1)" and "supervisor_opens E root i w1 = (Ok (), w2)"
    and "supervisor_opens E root i w = (Ok (), v1)" and "start_container E root i v1 = (Ok (), v2)"
  shows "read_start (exec_fifo root i) w2 = (More, w2) \<and> fst (read_start (exec_fifo root i) v2) = Ok ()"
proof -
  let ?p = "exec_fifo root i"
  have "map_of (files w1) ?p = Some (Fifo 0 [])"
    unfolding start_Ok_files [OF assms(2)]
    using fifo_effects(3) [OF fifo_effects(2) [OF fifo_effects(1) [OF assms(1)], of "''x''"]] by simp
  then have "map_of (files w2) ?p = Some (Fifo 1 [])"
    unfolding opens_Ok_files [OF assms(3)] by (simp add: fifo_effects(1))
  moreover have "map_of (files v1) ?p = Some (Fifo 1 [])"
    unfolding opens_Ok_files [OF assms(4)] by (simp add: fifo_effects(1) [OF assms(1)])
  then have "map_of (files v2) ?p = Some (Fifo 1 ''x'')"
    unfolding start_Ok_files [OF assms(5)]
    using fifo_effects(3) [OF fifo_effects(2) [OF fifo_effects(1)], of "files v1" ?p 1 "[]" "''x''"] by simp
  ultimately show ?thesis by (simp add: read_start_def)
qed

definition created_env :: env where
  "created_env = calm_env\<lparr>state_from_json := (\<lambda>_. Inr \<lparr>st_oci_version = ''1.0.2'', st_id = ''c'',
    st_status = Created, st_pid = 7, st_bundle = ''/b'', st_rootfs = ''/r'', st_seed = 42,
    st_exit_code = None, st_created = []\<rparr>)\<rparr>"

definition created_world :: world where
  "created_world = \<lparr>calls = [],
    files = [(''/s/c/state.json'', File ''{}''), (''/s/c/exec.fifo'', Fifo 0 [])]\<rparr>"

lemma early_start_is_lost_witness:
  "\<exists>w1 w2. start_container created_env ''/s'' ''c'' created_world = (Ok (), w1)
    \<and> supervisor_opens created_env ''/s'' ''c'' w1 = (Ok (), w2)
    \<and> read_start (exec_fifo ''/s'' ''c'') w2 = (More, w2)"
proof -
  define w1 where "w1 = snd (start_container created_env ''/s'' ''c'' created_world)"
  define w2 where "w2 = snd (supervisor_opens created_env ''/s'' ''c'' w1)"
  define v1 where "v1 = snd (supervisor_opens created_env ''/s'' ''c'' created_world)"
  define v2 where "v2 = snd (start_container created_env ''/s'' ''c'' v1)"
  have "map_of (files created_world) (exec_fifo ''/s'' ''c'') = Some (Fifo 0 [])" by code_simp
  moreover have
    "fst (start_container created_env ''/s'' ''c'' created_world) = Ok ()"
    "fst (supervisor_opens created_env ''/s'' ''c'' (snd (start_container created_env ''/s'' ''c'' created_world))) = Ok ()"
    "fst (supervisor_opens created_env ''/s'' ''c'' created_world) = Ok ()"
    "fst (start_container created_env ''/s'' ''c'' (snd (supervisor_opens created_env ''/s'' ''c'' created_world))) = Ok ()"
    by code_simp+
  then have s: "start_container created_env ''/s'' ''c'' created_world = (Ok (), w1)"
    "supervisor_opens created_env ''/s'' ''c'' w1 = (Ok (), w2)"
    "supervisor_opens created_env ''/s'' ''c'' created_world = (Ok (), v1)"
    "start_container created_env ''/s'' ''c'' v1 = (Ok (), v2)"
    by (simp_all add: w1_def w2_def v1_def v2_def prod_eq_iff)
  ultimately have "read_start (exec_fifo ''/s'' ''c'') w2 = (More, w2)"
    using early_start_is_lost by blast
  then show ?thesis using s by blast
qed

end
