(* ===== verification/RunSpec.thy ===== *)
theory RunSpec
  imports Isolation Simulator
begin

text \<open>A whole \<open>dtrun run\<close>, with a concrete instance on the simulated kernel.\<close>

lemma runs_to_host_run:
  assumes "fault_free (outside M)" and "\<And>st. \<exists>s. state_to_json (outside M) st = Inr s"
    and "entrypoint h \<noteq> None" and "\<And>c. setup_status M c = Inr (Stopped p SIGSTOP)"
    and "supervise (kernel_ops M) (loop_fuel M) p (host_seed h) root i (kernel_state M) = (Ok code, sv)"
  shows "runs_to (\<lambda>_. True) (host_run M h root i)
    (\<lambda>a fs. a = code \<and> (\<exists>now s. state_to_json (outside M) (final_state M h i p code now) = Inr s
      \<and> on_disk root i (trace_text (outside M) (run_trace M sv)) (Some s) fs))"
    (is "runs_to _ _ ?Q")
proof -
  note ff = assms(1)
  let ?D = "\<lambda>fs. \<exists>st. on_disk root i [] st fs"
  have ex: "runs_to (\<lambda>fs. \<exists>x. P x fs) m Q" if "\<And>x. runs_to (P x) m Q"
    for P :: "string option \<Rightarrow> _" and m :: "(host_error, 'b) wprog" and Q
    using that unfolding runs_to_def by blast
  have init: "runs_to (\<lambda>_. True) (map_err HIo (init_container_dir (outside M) root i))
      (\<lambda>_ fs. map_of fs (container_dir root i) \<noteq> None)"
    unfolding init_container_dir_def Let_def
    by (intro runs_to_map_err runs_to_bind [OF runs_to_wcall
          [where Q = "\<lambda>fs. map_of fs (container_dir root i) \<noteq> None", OF ff]] runs_to_ret)
      (simp_all add: make_dir_def)
  have mk: "runs_to P (mk_state M h i Running child None) (\<lambda>st fs. P fs \<and> st_id st = i \<and>
      (\<exists>now. st\<lparr>st_status := StoppedStatus, st_exit_code := Some code\<rparr>
        = final_state M h i child code now))" for P child
    by (auto simp: runs_to_def mk_state_def now_rfc3339_def prog_simps final_state_def)
  have fin: "runs_to (\<lambda>fs. ?D fs \<and> st_id st = i \<and>
      (\<exists>now. st\<lparr>st_status := StoppedStatus, st_exit_code := Some code\<rparr>
        = final_state M h i p code now))
    (andthen (lift_state (write_state (outside M) st root)) (supervise_and_finish M h root i p st)) ?Q" for st
  proof -
    have "runs_to (on_disk root i [] old) (andthen (lift_state (write_state (outside M) st root))
        (supervise_and_finish M h root i p st)) ?Q"
      if st: "st_id st = i" and now: "st\<lparr>st_status := StoppedStatus, st_exit_code := Some code\<rparr>
        = final_state M h i p code now" for old now
    proof -
      obtain s1 where "state_to_json (outside M) st = Inr s1" using assms(2) by blast
      then have w: "runs_to (on_disk root i [] old) (lift_state (write_state (outside M) st root))
          (\<lambda>_. on_disk root i [] (Some s1))"
        unfolding lift_state_def by (intro runs_to_map_err runs_to_write_state ff st)
      obtain s2 where s2: "state_to_json (outside M) (final_state M h i p code now) = Inr s2"
        using assms(2) by blast
      have "runs_to (on_disk root i [] (Some s1)) (supervise_and_finish M h root i p st)
          (\<lambda>a fs. a = code \<and> on_disk root i (trace_text (outside M) (run_trace M sv)) (Some s2) fs)"
        by (rule runs_to_finish [OF ff assms(5)]) (simp_all add: now s2 st)
      then show ?thesis
        by (intro runs_to_weaken [OF runs_to_andthen [OF w]]) (use s2 in blast)+
    qed
    then show ?thesis unfolding runs_to_def by blast
  qed
  have "runs_to ?D (andthen (limit_child M h i p) (bind (mk_state M h i Running p None)
      (\<lambda>st. andthen (lift_state (write_state (outside M) st root))
        (supervise_and_finish M h root i p st)))) ?Q"
    by (rule runs_to_andthen [OF runs_to_limit runs_to_bind [OF mk fin]])
  then have "runs_to (\<lambda>fs. child = p \<and> ?D fs) (andthen (limit_child M h i child)
      (bind (mk_state M h i Running child None)
        (\<lambda>st. andthen (lift_state (write_state (outside M) st root))
          (supervise_and_finish M h root i child st)))) ?Q" for child
    by (cases "child = p") (simp_all add: runs_to_def)
  then show ?thesis
    unfolding host_run_flat
    by (intro runs_to_andthen [OF runs_to_validate [OF ff assms(3)]] runs_to_bind [OF init]
        runs_to_andthen [OF runs_to_reset [OF ff]] runs_to_bind [OF runs_to_spawn [OF ff assms(3,4)]])
qed


text \<open>The host of the witness: no faults, and the two threads of the simulated kernel.\<close>

definition calm_machine :: "sim machine" where
  "calm_machine = \<lparr>outside = calm_env, kernel_ops = sim_kernel, kernel_state = sim_start two_threads,
    loop_fuel = 8, own_uid = 1000, own_gid = 1000,
    setup_status = (\<lambda>_. Inr (Stopped 1 SIGSTOP)), stdout_reads = [Inr ''hello''],
    stderr_reads = [], show_errno = (\<lambda>_. ''error''), show_status = (\<lambda>_. ''status'')\<rparr>"

definition shell_config :: oci_config where
  "shell_config = \<lparr>oci_version = ''1.0.2'', cfg_root = \<lparr>root_path = ''/r'', root_readonly = None\<rparr>,
    cfg_process = Some \<lparr>proc_args = Some [''/bin/sh''], proc_env = None, proc_cwd = None,
      proc_user = None, proc_terminal = None, oom_score_adj = None, proc_capabilities = None,
      proc_extra = []\<rparr>,
    cfg_hostname = None, cfg_mounts = None, cfg_linux = None, cfg_windows = None, cfg_freebsd = None,
    cfg_zos = None, cfg_extra = []\<rparr>"

definition shell_host :: host where
  "shell_host = with_net shell_config ''/b'' 42 NetNone"


end
