(* ===== verification/Sessions.thy ===== *)
theory Sessions
  imports RunSpec
begin

text \<open>
  The life of one container as a state machine: the commands of users and the steps of the container's
  supervisor process, in any order, on the shared store. Every command and every stretch of the
  supervisor between two points where it waits is one step; calls may fail and writes may tear in all
  of them. A session follows one container; the id is not created a second time.
\<close>

section \<open>Steps\<close>

text \<open>
  Where the supervisor process is: not yet there; holding the stopped child, before it has opened the
  FIFO; waiting at the FIFO; waiting at a FIFO that was unlinked, with what is still buffered in it;
  past the FIFO; supervising; gone.
\<close>

datatype phase =
    Absent
  | Holding pid
  | Waiting pid
  | Unlinked pid string
  | Begun pid
  | Supervising pid container_state
  | Over

record session =
  disk :: world
  phase :: phase

text \<open>An event is a command or a step of the supervisor, with whether it succeeded.\<close>

fun is_Ok :: "('e, 'a) outcome \<Rightarrow> bool" where
  "is_Ok (Ok _) = True" | "is_Ok (Err _) = False" | "is_Ok More = False"

datatype command =
    Create | RunNow | Start | KillCmd string | DeleteCmd bool
  | Opens | Reads | Marks | Finishes

definition fifo_bytes :: "string \<Rightarrow> (string \<times> node) list \<Rightarrow> string" where
  "fifo_bytes p fs = (case map_of fs p of Some (Fifo _ s) \<Rightarrow> s | _ \<Rightarrow> [])"

text \<open>\<open>delete\<close> can unlink the FIFO under a waiting supervisor, which keeps its descriptor.\<close>

definition after_delete :: "string \<Rightarrow> world \<Rightarrow> world \<Rightarrow> phase \<Rightarrow> phase" where
  "after_delete p w w' ph = (case ph of
      Waiting c \<Rightarrow> if map_of (files w') p = None then Unlinked c (fifo_bytes p (files w)) else Waiting c
    | _ \<Rightarrow> ph)"

inductive step ::
  "'k machine \<Rightarrow> host \<Rightarrow> string \<Rightarrow> string \<Rightarrow> session \<Rightarrow> command \<times> bool \<Rightarrow> session \<Rightarrow> bool"
  for M :: "'k machine" and h root i
where
  create_fails: "andthen (create_prepare M h root i) (fork_supervisor M) w = (Err e, w') \<Longrightarrow>
    step M h root i \<lparr>disk = w, phase = Absent\<rparr> (Create, False) \<lparr>disk = w', phase = Over\<rparr>"
| create: "andthen (create_prepare M h root i) (fork_supervisor M) w = (Ok forked, w1) \<Longrightarrow>
    supervisor_reports M h root i w1 = (Ok (line, p), w2) \<Longrightarrow>
    create_waits M forked line w2 = (r, w') \<Longrightarrow>
    step M h root i \<lparr>disk = w, phase = Absent\<rparr> (Create, is_Ok r)
      \<lparr>disk = w', phase = (case p of None \<Rightarrow> Over | Some c \<Rightarrow> Holding c)\<rparr>"
| run: "run_begins M h root i w = (Ok (c, st), w') \<Longrightarrow>
    step M h root i \<lparr>disk = w, phase = Absent\<rparr> (RunNow, True) \<lparr>disk = w', phase = Supervising c st\<rparr>"
| run_fails: "run_begins M h root i w = (Err e, w') \<Longrightarrow>
    step M h root i \<lparr>disk = w, phase = Absent\<rparr> (RunNow, False) \<lparr>disk = w', phase = Over\<rparr>"
| start: "start_container (outside M) root i w = (r, w') \<Longrightarrow>
    step M h root i \<lparr>disk = w, phase = ph\<rparr> (Start, is_Ok r) \<lparr>disk = w', phase = ph\<rparr>"
| kill: "kill_container (outside M) root i sig w = (r, w') \<Longrightarrow>
    step M h root i \<lparr>disk = w, phase = ph\<rparr> (KillCmd sig, is_Ok r) \<lparr>disk = w', phase = ph\<rparr>"
| delete: "delete_container (outside M) root i force w = (r, w') \<Longrightarrow>
    step M h root i \<lparr>disk = w, phase = ph\<rparr> (DeleteCmd force, is_Ok r)
      \<lparr>disk = w', phase = after_delete (exec_fifo root i) w w' ph\<rparr>"
| opens: "supervisor_opens (outside M) root i w = (r, w') \<Longrightarrow>
    step M h root i \<lparr>disk = w, phase = Holding c\<rparr> (Opens, is_Ok r)
      \<lparr>disk = w', phase = (if is_Ok r then Waiting c else Over)\<rparr>"
| reads: "read_start (exec_fifo root i) w = (Ok () :: (host_error, unit) outcome, w') \<Longrightarrow>
    step M h root i \<lparr>disk = w, phase = Waiting c\<rparr> (Reads, True) \<lparr>disk = w', phase = Begun c\<rparr>"
| reads_unlinked: "b \<noteq> [] \<Longrightarrow>
    step M h root i \<lparr>disk = w, phase = Unlinked c b\<rparr> (Reads, True) \<lparr>disk = w, phase = Begun c\<rparr>"
| marks: "mark_running M h root i c w = (Ok st, w') \<Longrightarrow>
    step M h root i \<lparr>disk = w, phase = Begun c\<rparr> (Marks, True) \<lparr>disk = w', phase = Supervising c st\<rparr>"
| marks_fails: "mark_running M h root i c w = (Err e, w') \<Longrightarrow>
    step M h root i \<lparr>disk = w, phase = Begun c\<rparr> (Marks, False) \<lparr>disk = w', phase = Over\<rparr>"
| finishes: "supervise_and_finish M h root i c st w = (r, w') \<Longrightarrow> r \<noteq> More \<Longrightarrow>
    step M h root i \<lparr>disk = w, phase = Supervising c st\<rparr> (Finishes, is_Ok r) \<lparr>disk = w', phase = Over\<rparr>"

inductive_cases stepE: "step M h root i s e s'"

text \<open>A run of a session, with the events so far.\<close>

inductive session_run ::
  "'k machine \<Rightarrow> host \<Rightarrow> string \<Rightarrow> string \<Rightarrow> session \<Rightarrow> (command \<times> bool) list \<Rightarrow> session \<Rightarrow> bool"
  for M :: "'k machine" and h root i s
where
  none: "session_run M h root i s [] s"
| more: "session_run M h root i s es s' \<Longrightarrow> step M h root i s' e s'' \<Longrightarrow>
    session_run M h root i s (es @ [e]) s''"

lemma step_Ok_iff: "r = Ok () \<longleftrightarrow> is_Ok r"
  by (cases r) auto

text \<open>The two halves of \<open>create\<close> are \<open>host_create\<close>, those of \<open>run\<close> are \<open>host_run\<close>.\<close>

lemma step_create: "step M h root i s (Create, b) s' \<Longrightarrow>
    \<exists>r. host_create M h root i (disk s) = (r, disk s') \<and> is_Ok r = b"
  by (erule stepE)
    (auto simp: host_create_def create_detached_def andthen_def bind_apply split: prod.splits outcome.splits)

lemma step_run:
  assumes "step M h root i s (RunNow, True) s'" and "step M h root i s' (Finishes, b) s''"
  shows "\<exists>r. host_run M h root i (disk s) = (r, disk s'') \<and> is_Ok r = b"
  using assms by (auto elim!: stepE simp: host_run_def bind_apply)

section \<open>Triples on the stored state\<close>

text \<open>Whatever is stored for the container satisfies \<open>B\<close>.\<close>

definition holds :: "env \<Rightarrow> string \<Rightarrow> string \<Rightarrow> (container_state \<Rightarrow> bool) \<Rightarrow> world \<Rightarrow> bool" where
  "holds E root i B w \<longleftrightarrow> (\<forall>st. stored E root i w = Some st \<longrightarrow> B st)"

text \<open>
  serde's contract: what it printed it parses back, and a text that was cut short does not parse (the
  text of an object ends with its closing brace).
\<close>

definition serde_ok :: "env \<Rightarrow> bool" where
  "serde_ok E \<longleftrightarrow> (\<forall>st t. state_to_json E st = Inr t \<longrightarrow>
    state_from_json E t = Inr st \<and> (\<forall>n < length t. \<exists>e. state_from_json E (take n t) = Inl e))"

lemma holds_mono: "holds E root i B w \<Longrightarrow> (\<And>st. B st \<Longrightarrow> C st) \<Longrightarrow> holds E root i C w"
  by (simp add: holds_def)

lemma triple_untouched:
  assumes "touches (\<lambda>q. q \<noteq> state_file root i) m"
  shows "triple (holds E root i B) m (\<lambda>_. holds E root i B) (holds E root i B)"
proof (rule tripleI)
  have same: "holds E root i B w \<Longrightarrow> holds E root i B (snd (m w))" for w
    using assms by (simp add: moves_all within_def holds_def stored_def file_at_def)
  show "holds E root i B w'" if "holds E root i B w" "m w = (Ok a, w')" for w a w'
    using same [OF that(1)] that(2) by simp
  show "holds E root i B w'" if "holds E root i B w" "m w = (Err e, w')" for w e w'
    using same [OF that(1)] that(2) by simp
  show "holds E root i B w'" if "holds E root i B w" "m w = (More, w')" for w w'
    using same [OF that(1)] that(2) by simp
qed

lemma triple_write:
  assumes serde: "serde_ok E" and "st_id st = i" and B: "B st"
  shows "triple (holds E root i B) (write_state E st root) (\<lambda>_ w. stored E root i w = Some st)
    (holds E root i B)"
proof (cases "state_to_json E st")
  case (Inl e)
  then show ?thesis by (simp add: write_state_def Let_def triple_fail)
next
  case (Inr t)
  let ?p = "state_file root i"
  have whole: "stored E root i w = Some st" if "file_at ?p (files w) = Some t" for w
    using serde Inr that by (simp add: stored_def serde_ok_def)
  have part: "holds E root i B w" if "file_at ?p (files w) = Some (take n t)" for w n
  proof (cases "n < length t")
    case True
    then obtain e where "state_from_json E (take n t) = Inl e" using serde Inr unfolding serde_ok_def by blast
    then show ?thesis using that by (simp add: holds_def stored_def)
  next
    case False
    then show ?thesis using whole [of w] that B by (simp add: holds_def)
  qed
  have "triple (holds E root i B) (wcall_in E (container_dir root i) (CreateFile ?p) (truncate_file ?p) StateIo)
      (\<lambda>_ w. file_at ?p (files w) = Some []) (holds E root i B)"
    by (auto simp: triple_def wcall_in_def wcall_def Let_def holds_def stored_def split: sum.splits)
  moreover have "triple (\<lambda>w. file_at ?p (files w) = Some []) (write_all E ?p t StateIo)
      (\<lambda>_ w. file_at ?p (files w) = Some t) (\<lambda>w. \<exists>n. file_at ?p (files w) = Some (take n t))"
    by (auto simp: triple_def write_all_def wcall_def prog_simps Let_def split: sum.splits)
  then have "triple (\<lambda>w. file_at ?p (files w) = Some []) (write_all E ?p t StateIo)
      (\<lambda>_ w. stored E root i w = Some st) (holds E root i B)"
    by (rule triple_weaken) (auto intro: whole part)
  ultimately show ?thesis
    using Inr assms(2) by (simp add: write_state_def Let_def triple_bind)
qed

lemma triple_map_err: "triple P m Q R \<Longrightarrow> triple P (map_err g m) Q R"
  by (auto simp: triple_def map_err_def split: prod.splits outcome.splits)

lemma triple_try:
  assumes "triple P m Q R"
  shows "triple P (try_result m) (\<lambda>r w. case r of Inl _ \<Rightarrow> R w | Inr a \<Rightarrow> Q a w) R"
  using assms by (fastforce simp: triple_def try_result_def split: prod.splits outcome.splits)

lemma triple_lift_write:
  assumes "serde_ok E" and "st_id st = i" and "B st"
  shows "triple (holds E root i B) (lift_state (write_state E st root)) (\<lambda>_ w. stored E root i w = Some st)
    (holds E root i B)"
  unfolding lift_state_def by (intro triple_map_err triple_write assms)

lemma triple_stored_mono:
  assumes "triple (holds E root i B) m Q R"
  shows "triple (\<lambda>w. stored E root i w = Some st \<and> B st) m Q R"
  using assms by (rule triple_weaken) (simp_all add: holds_def)

section \<open>What is written about a container\<close>

text \<open>
  A state of the container with init process \<open>c\<close>: what the host knows of it, and an exit code exactly
  when it is stopped.
\<close>

definition describes :: "host \<Rightarrow> string \<Rightarrow> pid \<Rightarrow> container_state \<Rightarrow> bool" where
  "describes h i c st \<longleftrightarrow> st_id st = i \<and> st_pid st = c \<and> st_seed st = host_seed h
    \<and> st_bundle st = host_bundle h \<and> st_rootfs st = host_rootfs h
    \<and> st_oci_version st = oci_version (host_config h)
    \<and> Creating < st_status st \<and> (st_exit_code st \<noteq> None \<longleftrightarrow> st_status st = StoppedStatus)"

lemmas status_order = less_status_def less_eq_status_def

lemma triple_mk:
  "triple P (mk_state M h i s c code) (\<lambda>st w. P w \<and> st_status st = s \<and> st_exit_code st = code
    \<and> (Creating < s \<and> (code \<noteq> None \<longleftrightarrow> s = StoppedStatus) \<longrightarrow> describes h i c st)) R"
  by (simp add: triple_def mk_state_def now_rfc3339_def prog_simps describes_def)

definition has_status :: "host \<Rightarrow> string \<Rightarrow> pid \<Rightarrow> status \<Rightarrow> container_state \<Rightarrow> bool" where
  "has_status h i c s st \<longleftrightarrow> describes h i c st \<and> st_status st = s"

lemma has_status_id: "has_status h i c s st \<Longrightarrow> st_id st = i"
  by (simp add: has_status_def describes_def)

lemma triple_mk_status:
  assumes "Creating < s" and "s < StoppedStatus"
  shows "triple P (mk_state M h i s c None) (\<lambda>st w. P w \<and> has_status h i c s st) R"
  using assms by (intro triple_weaken [OF triple_mk [where R = R and P = P]]) (auto simp: has_status_def)

lemma touches_own:
  "touches (\<lambda>q. q \<noteq> state_file root i) (spawn_created M h)"
  "touches (\<lambda>q. q \<noteq> state_file root i) (report M s)"
  "touches (\<lambda>q. q \<noteq> state_file root i) (daemonize M)"
  "touches (\<lambda>q. q \<noteq> state_file root i) (limit_child M h i p)"
  by (rule touches_spawn)+

section \<open>One triple per step\<close>

abbreviation running :: "env \<Rightarrow> host \<Rightarrow> string \<Rightarrow> string \<Rightarrow> pid \<Rightarrow> container_state \<Rightarrow> world \<Rightarrow> bool" where
  "running E h root i c st w \<equiv> has_status h i c Running st \<and> holds E root i (\<lambda>x. x = st) w"

lemma dir_not_state: "container_dir root i \<noteq> state_file root i"
  using path_join_relative [of "''state.json''" "container_dir root i"]
  by (auto simp: state_file_def starts_with_def path_join_def split: if_splits)

text \<open>
  While its supervisor works on a container with init \<open>c\<close>, what is stored has one status; between two
  containers nothing is stored.
\<close>

abbreviation empty :: "env \<Rightarrow> string \<Rightarrow> string \<Rightarrow> world \<Rightarrow> bool" where
  "empty E root i \<equiv> holds E root i (\<lambda>_. False)"

abbreviation any_state :: "host \<Rightarrow> string \<Rightarrow> container_state \<Rightarrow> bool" where
  "any_state h i st \<equiv> \<exists>c. describes h i c st"

lemma triple_put:
  assumes "serde_ok (outside M)" and "has_status h i c s st"
  shows "triple (empty (outside M) root i) (lift_state (write_state (outside M) st root))
    (\<lambda>_. holds (outside M) root i (has_status h i c s)) (holds (outside M) root i (any_state h i))"
proof -
  have "triple (holds (outside M) root i (has_status h i c s)) (lift_state (write_state (outside M) st root))
      (\<lambda>_ w. stored (outside M) root i w = Some st) (holds (outside M) root i (has_status h i c s))"
    by (intro triple_lift_write assms has_status_id [OF assms(2)])
  then show ?thesis
    by (rule triple_weaken) (use assms(2) in \<open>auto simp: holds_def has_status_def\<close>)
qed

lemma triple_weak_err:
  "triple P m Q (holds E root i B) \<Longrightarrow> (\<And>st. B st \<Longrightarrow> C st) \<Longrightarrow> triple P m Q (holds E root i C)"
  by (erule triple_weaken) (auto simp: holds_def)

lemma triple_spawn:
  "triple (empty (outside M) root i) (spawn_created M h) (\<lambda>_. empty (outside M) root i)
    (holds (outside M) root i B)"
  by (rule triple_weak_err [OF triple_untouched [OF touches_own(1)]]) simp

lemma triple_created:
  assumes "serde_ok (outside M)"
  shows "triple (empty (outside M) root i) (supervisor_created M h root i)
    (\<lambda>(c, line). holds (outside M) root i (has_status h i c Created)) (holds (outside M) root i (any_state h i))"
proof -
  let ?E = "outside M"
  have rep: "triple (holds ?E root i B)
      (bind (report M l) (\<lambda>line. ret (c, line))) (\<lambda>(d, line) w. d = c \<and> holds ?E root i B w)
      (holds ?E root i (any_state h i))" if "\<And>st. B st \<Longrightarrow> any_state h i st" for B l c
    by (rule triple_bind [OF triple_weak_err [OF triple_untouched [OF touches_own(2)]]])
      (auto intro: triple_ret that)
  have w: "triple (\<lambda>w. empty ?E root i w \<and> has_status h i c Created st)
      (andthen (lift_state (write_state ?E st root)) (bind (report M l) (\<lambda>line. ret (c, line))))
      (\<lambda>(c, line). holds ?E root i (has_status h i c Created)) (holds ?E root i (any_state h i))" for c st l
  proof (cases "has_status h i c Created st")
    case True
    have "triple (holds ?E root i (has_status h i c Created)) (bind (report M l) (\<lambda>line. ret (c, line)))
        (\<lambda>(c, line). holds ?E root i (has_status h i c Created)) (holds ?E root i (any_state h i))"
      by (rule triple_weaken [OF rep]) (auto simp: has_status_def)
    from triple_andthen [OF triple_put [OF assms True] this] show ?thesis
      by (rule triple_weaken) simp_all
  qed (simp add: triple_def)
  show ?thesis
    unfolding supervisor_created_def
    by (intro triple_bind [OF triple_spawn] triple_bind [OF triple_mk_status w])
      (simp_all add: status_order)
qed

lemma triple_reports:
  assumes "serde_ok (outside M)"
  shows "triple (empty (outside M) root i) (supervisor_reports M h root i)
    (\<lambda>(line, p) w. case p of Some c \<Rightarrow> holds (outside M) root i (has_status h i c Created) w
      | None \<Rightarrow> holds (outside M) root i (any_state h i) w) (holds (outside M) root i (any_state h i))"
proof -
  let ?E = "outside M"
  have rep: "triple (holds ?E root i B) (bind (report M l) (\<lambda>line. ret (f line)))
      (\<lambda>r w. (\<exists>line. r = f line) \<and> holds ?E root i B w) (holds ?E root i (any_state h i))"
    if "\<And>st. B st \<Longrightarrow> any_state h i st" for B l and f :: "string \<Rightarrow> string \<times> pid option"
    by (rule triple_bind [OF triple_weak_err [OF triple_untouched [OF touches_own(2)]]])
      (auto intro: triple_ret that)
  show ?thesis
    unfolding supervisor_reports_def
  proof (rule triple_andthen [OF triple_weak_err [OF triple_untouched [OF touches_own(3)]]], simp,
      rule triple_bind [OF triple_try [OF triple_created [OF assms]]])
    fix r :: "host_error + pid \<times> string"
    show "triple (\<lambda>w. case r of Inl _ \<Rightarrow> holds ?E root i (any_state h i) w
        | Inr a \<Rightarrow> (case a of (c, line) \<Rightarrow> holds ?E root i (has_status h i c Created)) w)
      (case r of Inl e \<Rightarrow> bind (report M (show_host_error (show_errno M) e @ [CHR 0x0A])) (\<lambda>line. ret (line, None))
        | Inr (p, line) \<Rightarrow> bind (report M (show_int p @ [CHR 0x0A])) (\<lambda>again. ret (line @ again, Some p)))
      (\<lambda>(line, p) w. case p of Some c \<Rightarrow> holds ?E root i (has_status h i c Created) w
        | None \<Rightarrow> holds ?E root i (any_state h i) w) (holds ?E root i (any_state h i))"
    proof (cases r)
      case (Inl e)
      then show ?thesis by (auto intro!: triple_weaken [OF rep [of "any_state h i"]])
    next
      case (Inr a)
      obtain c line where a: "a = (c, line)" by (cases a)
      show ?thesis
        unfolding Inr a
        by (auto simp: has_status_def intro!: triple_weaken [OF rep [of "has_status h i c Created"]])
    qed
  qed
qed

abbreviation set_running :: "env \<Rightarrow> host \<Rightarrow> string \<Rightarrow> string \<Rightarrow> pid \<Rightarrow> container_state \<Rightarrow> world \<Rightarrow> bool" where
  "set_running E h root i c st w \<equiv> has_status h i c Running st \<and> stored E root i w = Some st"

lemma triple_run_begins:
  assumes "serde_ok (outside M)"
  shows "triple (empty (outside M) root i) (run_begins M h root i)
    (\<lambda>(c, st). set_running (outside M) h root i c st)
    (holds (outside M) root i (any_state h i))"
proof -
  let ?E = "outside M"
  have quiet: "triple (empty ?E root i) m (\<lambda>_. empty ?E root i) (holds ?E root i (any_state h i))"
    if "touches (\<lambda>q. q \<noteq> state_file root i) m" for m :: "(host_error, 'z) wprog"
    by (rule triple_weak_err [OF triple_untouched [OF that]]) simp
  have own: "touches (\<lambda>q. q \<noteq> state_file root i) (map_err HIo (init_container_dir ?E root i))"
    "touches (\<lambda>q. q \<noteq> state_file root i) (reset_trace ?E root i :: (host_error, unit) wprog)"
    by (intro touch_intros touches_state; simp add: files_distinct dir_not_state)+
  have w: "triple (\<lambda>w. empty ?E root i w \<and> has_status h i c Running st)
      (andthen (lift_state (write_state ?E st root)) (ret (c, st)))
      (\<lambda>(c, st). set_running ?E h root i c st) (holds ?E root i (any_state h i))" for c st
  proof (cases "has_status h i c Running st")
    case True
    have "triple (holds ?E root i (\<lambda>x. x = st)) (lift_state (write_state ?E st root))
        (\<lambda>_ w. stored ?E root i w = Some st) (holds ?E root i (\<lambda>x. x = st))"
      by (intro triple_lift_write assms has_status_id [OF True]) simp
    then have "triple (empty ?E root i) (lift_state (write_state ?E st root))
        (\<lambda>_ w. stored ?E root i w = Some st) (holds ?E root i (any_state h i))"
      by (rule triple_weaken) (use True in \<open>auto simp: holds_def has_status_def\<close>)
    then have "triple (empty ?E root i) (andthen (lift_state (write_state ?E st root)) (ret (c, st)))
        (\<lambda>(c, st). set_running ?E h root i c st) (holds ?E root i (any_state h i))"
      by (rule triple_andthen) (rule triple_ret, use True in \<open>simp add: holds_def\<close>)
    then show ?thesis by (rule triple_weaken) simp_all
  qed (simp add: triple_def)
  show ?thesis
    unfolding run_begins_def
    by (intro triple_andthen [OF quiet] triple_bind [OF quiet [OF own(1)]] triple_bind [OF quiet] own touches_spawn
        triple_bind [OF triple_mk_status w]) (simp_all add: status_order)
qed

abbreviation marked :: "host \<Rightarrow> string \<Rightarrow> pid \<Rightarrow> container_state \<Rightarrow> bool" where
  "marked h i c st \<equiv> has_status h i c Created st \<or> has_status h i c Running st"

lemma triple_mark:
  assumes "serde_ok (outside M)"
  shows "triple (holds (outside M) root i (has_status h i c Created)) (mark_running M h root i c)
    (\<lambda>st. running (outside M) h root i c st)
    (holds (outside M) root i (marked h i c))"
proof -
  let ?E = "outside M"
  have lim: "triple (holds ?E root i (has_status h i c Created)) (limit_child M h i c)
      (\<lambda>_. holds ?E root i (has_status h i c Created)) (holds ?E root i (marked h i c))"
    by (rule triple_weak_err [OF triple_untouched [OF touches_own(4)]]) (auto simp: has_status_def)
  have read: "triple (holds ?E root i (has_status h i c Created)) (attempt (read_state ?E root i))
      (\<lambda>old w. holds ?E root i (has_status h i c Created) w \<and> (\<forall>st. old = Some st \<longrightarrow> has_status h i c Created st)) R"
    for R
  proof -
    have "case attempt (read_state ?E root i) w of
        (Ok old, w') \<Rightarrow> holds ?E root i (has_status h i c Created) w'
          \<and> (\<forall>st. old = Some st \<longrightarrow> has_status h i c Created st)
      | (Err e, w') \<Rightarrow> R w' | (More, w') \<Rightarrow> R w'"
      if w: "holds ?E root i (has_status h i c Created) w" for w
    proof -
      obtain r where r: "read_state ?E root i w = (r, w\<lparr>calls := calls w @ [read_call root i]\<rparr>)" "r \<noteq> More"
        "\<And>st. r = Ok st \<Longrightarrow> stored ?E root i w = Some st"
        using read_state_result [of ?E root i w] by blast
      have w': "holds ?E root i (has_status h i c Created) (w\<lparr>calls := cs\<rparr>)" for cs
        using w by (simp add: holds_def stored_def)
      show ?thesis
        using w r w' by (cases r) (auto simp: attempt_def holds_def)
    qed
    then show ?thesis unfolding triple_def by blast
  qed
  have old: "triple (\<lambda>w. holds ?E root i (has_status h i c Created) w \<and> (\<forall>st. old = Some st \<longrightarrow> has_status h i c Created st))
      (case old of None \<Rightarrow> mk_state M h i Created c None | Some st \<Rightarrow> ret st)
      (\<lambda>st w. holds ?E root i (has_status h i c Created) w \<and> has_status h i c Created st) R" for old R
  proof (cases old)
    case None
    have "triple (holds ?E root i (has_status h i c Created)) (mk_state M h i Created c None)
        (\<lambda>st w. holds ?E root i (has_status h i c Created) w \<and> has_status h i c Created st) R"
      by (rule triple_mk_status) (simp_all add: status_order)
    then show ?thesis using None by simp
  qed (simp add: triple_ret)
  have w: "triple (\<lambda>w. holds ?E root i (has_status h i c Created) w \<and> has_status h i c Created st)
      (andthen (lift_state (write_state ?E (st\<lparr>st_status := Running, st_pid := c\<rparr>) root))
        (ret (st\<lparr>st_status := Running, st_pid := c\<rparr>)))
      (\<lambda>st. running ?E h root i c st) (holds ?E root i (marked h i c))" for st
  proof (cases "has_status h i c Created st")
    case True
    let ?st = "st\<lparr>st_status := Running, st_pid := c\<rparr>"
    have st: "has_status h i c Running ?st"
      using True by (simp add: has_status_def describes_def status_order)
    have "triple (holds ?E root i (marked h i c)) (lift_state (write_state ?E ?st root))
        (\<lambda>_ w. stored ?E root i w = Some ?st) (holds ?E root i (marked h i c))"
      by (intro triple_lift_write assms has_status_id [OF st]) (use st in simp)
    then have "triple (holds ?E root i (marked h i c)) (andthen (lift_state (write_state ?E ?st root)) (ret ?st))
        (\<lambda>st. running ?E h root i c st) (holds ?E root i (marked h i c))"
      by (rule triple_andthen) (rule triple_ret, use st in \<open>simp add: holds_def\<close>)
    then show ?thesis by (rule triple_weaken) (auto simp: holds_def has_status_def)
  qed (simp add: triple_def)
  show ?thesis
    unfolding mark_running_def Let_def
    by (rule triple_andthen [OF lim triple_bind [OF read triple_bind [OF old w]]])
qed

lemma triple_finish:
  assumes "serde_ok (outside M)" and st: "has_status h i c Running st"
  shows "triple (holds (outside M) root i (\<lambda>x. x = st)) (supervise_and_finish M h root i c st)
    (\<lambda>_. holds (outside M) root i (\<lambda>x. x = st \<or> has_status h i c StoppedStatus x))
    (holds (outside M) root i (\<lambda>x. x = st \<or> has_status h i c StoppedStatus x))"
proof -
  let ?E = "outside M" and ?B = "\<lambda>x. x = st \<or> has_status h i c StoppedStatus x"
  have tr: "triple (holds ?E root i ?B) (trace_all M root i evs) (\<lambda>_. holds ?E root i ?B) (holds ?E root i ?B)" for evs
    unfolding trace_all_def
    by (intro triple_untouched touch_intros touches_state) (simp add: files_distinct)
  have put: "triple (holds ?E root i ?B) (attempt (write_state ?E
      (st\<lparr>st_status := StoppedStatus, st_exit_code := Some code\<rparr>) root)) (\<lambda>_. holds ?E root i ?B) (holds ?E root i ?B)" for code
  proof -
    have "has_status h i c StoppedStatus (st\<lparr>st_status := StoppedStatus, st_exit_code := Some code\<rparr>)"
      using st by (simp add: has_status_def describes_def status_order)
    then have "triple (holds ?E root i ?B) (write_state ?E (st\<lparr>st_status := StoppedStatus, st_exit_code := Some code\<rparr>) root)
        (\<lambda>_. holds ?E root i ?B) (holds ?E root i ?B)"
      by (intro triple_weaken [OF triple_write [OF assms(1), where B = ?B and root = root and i = i]])
        (use has_status_id in \<open>auto simp: holds_def\<close>)
    then show ?thesis by (rule triple_attempt) simp
  qed
  have "triple (holds ?E root i ?B) (supervise_and_finish M h root i c st) (\<lambda>_. holds ?E root i ?B) (holds ?E root i ?B)"
    unfolding supervise_and_finish_def
    by (simp split: prod.split outcome.split)
      (intro conjI allI impI triple_andthen [OF tr] triple_bind [OF put] triple_ret triple_fail triple_out_of_fuel; assumption)
  then show ?thesis by (rule triple_weaken) (auto simp: holds_def)
qed

lemma fifo_not_state: "exec_fifo root i \<noteq> state_file root i"
  using path_join_relative [of "''exec.fifo''" "container_dir root i"]
    path_join_relative [of "''state.json''" "container_dir root i"]
  by (simp add: exec_fifo_def state_file_def starts_with_def)

lemma fifo_distinct: "trace_file root i \<noteq> exec_fifo root i" "container_dir root i \<noteq> exec_fifo root i"
    "state_file root i \<noteq> exec_fifo root i"
proof -
  show "state_file root i \<noteq> exec_fifo root i" using fifo_not_state by metis
qed (use path_join_relative [of "''exec.fifo''" "container_dir root i"]
    path_join_relative [of "''trace.jsonl''" "container_dir root i"]
    in \<open>auto simp: exec_fifo_def trace_file_def starts_with_def path_join_def split: if_splits\<close>)

lemma filtered_map_of: "map_of (filter (\<lambda>(p, _). P p) fs) q = (if P q then map_of fs q else None)"
  by (induction fs) auto

lemma holds_filter:
  "holds E root i B w \<Longrightarrow> holds E root i B (w\<lparr>calls := cs, files := filter (\<lambda>(p, _). P p) (files w)\<rparr>)"
  by (simp add: holds_def stored_def file_at_def filtered_map_of)

lemma triple_commands:
  "triple (holds E root i B) (start_container E root i) (\<lambda>_. holds E root i B) (holds E root i B)"
  "triple (holds E root i B) (kill_container E root i sig) (\<lambda>_. holds E root i B) (holds E root i B)"
  "triple (holds E root i B) (delete_container E root i force) (\<lambda>_. holds E root i B) (holds E root i B)"
  "triple (holds E root i B) (supervisor_opens E root i) (\<lambda>_. holds E root i B) (holds E root i B)"
  "triple (holds E root i B) (read_start (exec_fifo root i)) (\<lambda>_. holds E root i B) (holds E root i B)"
proof -
  let ?I = "holds E root i B"
  note quiet = triple_untouched [where E = E and B = B and root = root and i = i]
  show "triple ?I (start_container E root i) (\<lambda>_. ?I) ?I" "triple ?I (kill_container E root i sig) (\<lambda>_. ?I) ?I"
    by (intro quiet touches_fifo fifo_not_state)+
  show "triple ?I (supervisor_opens E root i) (\<lambda>_. ?I) ?I"
    unfolding supervisor_opens_def open_fifo_def
    by (intro quiet touch_intros touch_structure fifo_not_state)
  show "triple ?I (read_start (exec_fifo root i)) (\<lambda>_. ?I) ?I"
    using other_paths_fifo(2) [of "state_file root i" "exec_fifo root i"] fifo_not_state [of root i]
    by (auto simp: triple_def read_start_def holds_def stored_def file_at_def split: option.splits node.splits)
  have kill: "touches (\<lambda>q. q \<noteq> state_file root i) (attempt (kill_call E p SIGKILL))" for p
    unfolding kill_call_def by (intro touch_intros touch_structure)
  have "triple ?I (remove_state E root i) (\<lambda>_. ?I) ?I"
    by (auto simp: triple_def remove_state_def wcall_def prog_simps Let_def remove_under_def remove_some_def
        holds_filter split: sum.split)
  then show "triple ?I (delete_container E root i force) (\<lambda>_. ?I) ?I"
    unfolding delete_container_def lift_state_def
    by (intro triple_bind [where Q' = "\<lambda>_. ?I"] triple_if triple_fail triple_ret triple_andthen triple_map_err
        quiet [OF touches_state(2)] quiet [OF kill]) assumption+
qed

section \<open>The invariant of a session\<close>

definition session_ok :: "'k machine \<Rightarrow> host \<Rightarrow> string \<Rightarrow> string \<Rightarrow> session \<Rightarrow> bool" where
  "session_ok M h root i s = (let E = outside M; w = disk s in case phase s of
      Absent \<Rightarrow> empty E root i w
    | Holding c \<Rightarrow> holds E root i (has_status h i c Created) w
    | Waiting c \<Rightarrow> holds E root i (has_status h i c Created) w
    | Unlinked c _ \<Rightarrow> holds E root i (has_status h i c Created) w
    | Begun c \<Rightarrow> holds E root i (has_status h i c Created) w
    | Supervising c st \<Rightarrow> running E h root i c st w
    | Over \<Rightarrow> holds E root i (any_state h i) w)"

lemma phase_only:
  "(\<And>B. holds (outside M) root i B w \<Longrightarrow> holds (outside M) root i B w') \<Longrightarrow>
    session_ok M h root i \<lparr>disk = w, phase = ph\<rparr> \<Longrightarrow> session_ok M h root i \<lparr>disk = w', phase = ph\<rparr>"
  by (cases ph) (simp_all add: session_ok_def)

lemma triple_end: "triple (holds E root i B) m (\<lambda>_. holds E root i B) (holds E root i B) \<Longrightarrow>
    m w = (r, w') \<Longrightarrow> holds E root i B w \<Longrightarrow> holds E root i B w'"
  by (cases r) (auto simp: triple_def)

lemma touches_prepare:
  "touches (\<lambda>q. q \<noteq> state_file root i) (andthen (create_prepare M h root i) (fork_supervisor M))"
  unfolding create_prepare_def fork_supervisor_def Let_def
  by (intro touch_intros touches_state touches_fifo touch_structure;
      simp add: files_distinct dir_not_state fifo_not_state)

lemma touches_waits: "touches A (create_waits M forked line)"
  unfolding create_waits_def Let_def by (intro touch_intros touch_structure)

lemma after_delete_ok:
  "session_ok M h root i \<lparr>disk = w', phase = ph\<rparr> \<Longrightarrow>
    session_ok M h root i \<lparr>disk = w', phase = after_delete p v v' ph\<rparr>"
  by (cases ph) (simp_all add: session_ok_def after_delete_def)

lemma step_ok:
  assumes "serde_ok (outside M)" and "step M h root i s e s'" and "session_ok M h root i s"
  shows "session_ok M h root i s'"
  using assms(2,3)
proof (cases rule: step.cases)
  case (create_fails w err w')
  then show ?thesis
    using triple_end [OF triple_untouched [OF touches_prepare], where w = w and w' = w' and E = "outside M"
        and B = "\<lambda>_. False"] assms(3)
    by (fastforce simp: session_ok_def holds_def)
next
  case (create w forked w1 line p w2 r w')
  have "empty (outside M) root i w1"
    using triple_end [OF triple_untouched [OF touches_prepare] create(4)] assms(3) create(1)
    by (simp add: session_ok_def)
  then have "case p of Some c \<Rightarrow> holds (outside M) root i (has_status h i c Created) w2
      | None \<Rightarrow> holds (outside M) root i (any_state h i) w2"
    using triple_Ok [OF triple_reports [OF assms(1)] _ create(5)] by simp
  then show ?thesis
    using triple_end [OF triple_untouched [OF touches_waits] create(6), where E = "outside M" and root = root and i = i] create(3)
    by (cases p) (simp_all add: session_ok_def)
next
  case (run w c st w')
  then show ?thesis
    using triple_Ok [OF triple_run_begins [OF assms(1)] _ run(4)] assms(3)
    by (simp add: session_ok_def holds_def)
next
  case (run_fails w err w')
  then show ?thesis
    using triple_Err [OF triple_run_begins [OF assms(1)] _ run_fails(4)] assms(3) by (simp add: session_ok_def)
next
  case (start w r w' ph)
  show ?thesis
    using phase_only [OF triple_end [OF triple_commands(1) start(4)]] assms(3) start by simp
next
  case (kill sig w r w' ph)
  show ?thesis
    using phase_only [OF triple_end [OF triple_commands(2) kill(4)]] assms(3) kill by simp
next
  case (delete force w r w' ph)
  show ?thesis
    using after_delete_ok [OF phase_only [OF triple_end [OF triple_commands(3) delete(4)]]] assms(3) delete by simp
next
  case (opens w r w' c)
  have "holds (outside M) root i (has_status h i c Created) w'"
    using triple_end [OF triple_commands(4) opens(4)] assms(3) opens(1) by (simp add: session_ok_def)
  then show ?thesis
    using opens(3) by (cases r) (auto simp: session_ok_def holds_def has_status_def)
next
  case (reads w w' c)
  then show ?thesis
    using triple_end [OF triple_commands(5) reads(4)] assms(3) by (simp add: session_ok_def)
next
  case (reads_unlinked b w c)
  then show ?thesis using assms(3) by (simp add: session_ok_def)
next
  case (marks c w st w')
  then show ?thesis
    using triple_Ok [OF triple_mark [OF assms(1)] _ marks(4)] assms(3) by (simp add: session_ok_def)
next
  case (marks_fails c w err w')
  then show ?thesis
    using triple_Err [OF triple_mark [OF assms(1)] _ marks_fails(4)] assms(3)
    by (auto simp: session_ok_def holds_def has_status_def)
next
  case (finishes c st w r w')
  have st: "has_status h i c Running st" and w: "holds (outside M) root i (\<lambda>x. x = st) w"
    using assms(3) finishes(1) by (simp_all add: session_ok_def)
  have "holds (outside M) root i (\<lambda>x. x = st \<or> has_status h i c StoppedStatus x) w'"
    using triple_finish [OF assms(1) st, of root] w finishes(4,5) by (cases r) (auto simp: triple_def)
  then show ?thesis
    using st finishes(3) by (auto simp: session_ok_def holds_def has_status_def)
qed

definition fresh :: "'k machine \<Rightarrow> string \<Rightarrow> string \<Rightarrow> session \<Rightarrow> bool" where
  "fresh M root i s \<longleftrightarrow> phase s = Absent \<and> stored (outside M) root i (disk s) = None"

lemma session_run_ok:
  assumes "session_run M h root i s es s'" and "serde_ok (outside M)" and "fresh M root i s"
  shows "session_ok M h root i s'"
  using assms(1)
proof (induction rule: session_run.induct)
  case none
  then show ?case using assms(3) by (simp add: fresh_def session_ok_def holds_def)
next
  case (more es s' e s'')
  then show ?case using step_ok [OF assms(2)] by blast
qed

lemma session_ok_any: "session_ok M h root i s \<Longrightarrow> holds (outside M) root i (any_state h i) (disk s)"
  by (cases "phase s") (auto simp: session_ok_def holds_def has_status_def)

end
