(* ===== verification/Codec.thy ===== *)
theory Codec
  imports Sessions
begin

text \<open>
  A concrete codec for container states that satisfies what the lifecycle relies on of serde: it reads
  back what it printed and rejects every truncated text. The theorems about stored states are
  instantiated with it.
\<close>

section \<open>Strings that mark their end\<close>

fun mark :: "string \<Rightarrow> string" where
  "mark [] = ''.''"
| "mark (c # s) = CHR ''x'' # c # mark s"

fun unmark :: "string \<Rightarrow> (string \<times> string) option" where
  "unmark [] = None"
| "unmark (t # s) =
    (if t = CHR ''.'' then Some ([], s)
     else case s of [] \<Rightarrow> None | c # s' \<Rightarrow> map_option (apfst (Cons c)) (unmark s'))"

lemma unmark_mark: "unmark (mark s @ rest) = Some (s, rest)"
  by (induction s) simp_all

lemma unmark_cut: "n < length (mark s) \<Longrightarrow> unmark (take n (mark s)) = None"
proof (induction s arbitrary: n)
  case (Cons c s)
  then show ?case by (cases n; cases "n - 1") (auto simp: take_Cons split: nat.split)
qed simp

fun unmark_all :: "nat \<Rightarrow> string \<Rightarrow> string list option" where
  "unmark_all 0 s = (if s = [] then Some [] else None)"
| "unmark_all (Suc n) s = (case unmark s of None \<Rightarrow> None
    | Some (a, rest) \<Rightarrow> map_option (Cons a) (unmark_all n rest))"

lemma unmark_all_marks: "unmark_all (length xs) (concat (map mark xs)) = Some xs"
  by (induction xs) (simp_all add: unmark_mark)

lemma unmark_all_cut:
  "n < length (concat (map mark xs)) \<Longrightarrow> unmark_all (length xs) (take n (concat (map mark xs))) = None"
proof (induction xs arbitrary: n)
  case (Cons a xs)
  show ?case
  proof (cases "n < length (mark a)")
    case True
    then show ?thesis by (simp add: unmark_cut)
  next
    case False
    then show ?thesis using Cons by (simp add: unmark_mark)
  qed
qed simp

section \<open>Container states\<close>

definition unary :: "int \<Rightarrow> string" where
  "unary i = (if i < 0 then ''-'' else []) @ replicate (nat \<bar>i\<bar>) (CHR ''1'')"

definition of_unary :: "string \<Rightarrow> int" where
  "of_unary s = (case s of CHR ''-'' # t \<Rightarrow> - int (length t) | _ \<Rightarrow> int (length s))"

lemma of_unary_unary: "of_unary (unary i) = i"
  by (cases "nat \<bar>i\<bar>") (auto simp: of_unary_def unary_def)

definition status_of :: "string \<Rightarrow> status" where
  "status_of s = (if s = ''creating'' then Creating else if s = ''created'' then Created
    else if s = ''running'' then Running else StoppedStatus)"

lemma status_of_as_str: "status_of (status_as_str s) = s"
  by (cases s) (simp_all add: status_of_def)

definition state_fields :: "container_state \<Rightarrow> string list" where
  "state_fields st = [st_oci_version st, st_id st, status_as_str (st_status st), unary (st_pid st),
    st_bundle st, st_rootfs st, unary (uint (st_seed st)),
    (case st_exit_code st of None \<Rightarrow> [] | Some c \<Rightarrow> CHR ''c'' # unary c), st_created st]"

definition of_fields :: "string list \<Rightarrow> container_state" where
  "of_fields f = \<lparr>st_oci_version = f ! 0, st_id = f ! 1, st_status = status_of (f ! 2),
    st_pid = of_unary (f ! 3), st_bundle = f ! 4, st_rootfs = f ! 5,
    st_seed = word_of_int (of_unary (f ! 6)),
    st_exit_code = (case f ! 7 of [] \<Rightarrow> None | _ # c \<Rightarrow> Some (of_unary c)), st_created = f ! 8\<rparr>"

lemma of_state_fields: "of_fields (state_fields st) = st"
  by (cases "st_exit_code st")
    (simp_all add: of_fields_def state_fields_def status_of_as_str of_unary_unary eval_nat_numeral)

definition print_fields :: "container_state \<Rightarrow> string" where
  "print_fields st = concat (map mark (state_fields st))"

definition parse_fields :: "string \<Rightarrow> string + container_state" where
  "parse_fields s = (case unmark_all 9 s of None \<Rightarrow> Inl ''cut short'' | Some f \<Rightarrow> Inr (of_fields f))"

lemma fields_length: "length (state_fields st) = 9"
  by (simp add: state_fields_def)

definition codec_env :: env where
  "codec_env = calm_env\<lparr>state_to_json := (\<lambda>st. Inr (print_fields st)), state_from_json := parse_fields\<rparr>"

lemma codec_total: "\<exists>s. state_to_json codec_env st = Inr s"
  by (simp add: codec_env_def)

lemma codec_fault_free: "fault_free codec_env"
  by (simp add: fault_free_def codec_env_def calm_env_def)

lemma codec_serde: "serde_ok codec_env"
  using unmark_all_marks [of "state_fields st" for st] unmark_all_cut [of _ "state_fields st" for st]
  by (simp add: serde_ok_def codec_env_def parse_fields_def print_fields_def fields_length of_state_fields)

text \<open>A machine on which no call fails, with the simulated kernel and this codec.\<close>

definition codec_machine :: "sim machine" where
  "codec_machine = calm_machine\<lparr>outside := codec_env\<rparr>"

lemma codec_run:
  obtains c st w1 w2 where
    "run_begins codec_machine shell_host ''/s'' ''c'' \<lparr>calls = [], files = []\<rparr> = (Ok (c, st), w1)"
    "supervise_and_finish codec_machine shell_host ''/s'' ''c'' c st w1 = (Ok 7, w2)"
    "stored codec_env ''/s'' ''c'' w1 = Some st" "stored codec_env ''/s'' ''c'' w2 \<noteq> None"
proof -
  let ?M = codec_machine and ?w = "\<lparr>calls = [], files = []\<rparr>"
  have o: "outside ?M = codec_env" by (simp add: codec_machine_def)
  have "fst (supervise sim_kernel 8 1 42 ''/s'' ''c'' (sim_start two_threads)) = Ok 7" by code_simp
  then obtain sv where "supervise sim_kernel 8 1 42 ''/s'' ''c'' (sim_start two_threads) = (Ok 7, sv)"
    by (cases "supervise sim_kernel 8 1 42 ''/s'' ''c'' (sim_start two_threads)") auto
  then have sup: "supervise (kernel_ops ?M) (loop_fuel ?M) 1 (host_seed shell_host) ''/s'' ''c'' (kernel_state ?M) = (Ok 7, sv)"
    by (simp add: codec_machine_def calm_machine_def shell_host_def with_net_def)
  have "runs_to (\<lambda>_. True) (host_run ?M shell_host ''/s'' ''c'') (\<lambda>a fs. a = 7 \<and> (\<exists>now s.
      state_to_json (outside ?M) (final_state ?M shell_host ''c'' 1 7 now) = Inr s
      \<and> on_disk ''/s'' ''c'' (trace_text (outside ?M) (run_trace ?M sv)) (Some s) fs))"
    by (rule runs_to_host_run)
      (simp_all add: o codec_total codec_fault_free sup,
       simp_all add: entrypoint_def shell_host_def with_net_def shell_config_def codec_machine_def calm_machine_def)
  then obtain w2 now s where run: "host_run ?M shell_host ''/s'' ''c'' ?w = (Ok 7, w2)"
    and s: "state_to_json codec_env (final_state ?M shell_host ''c'' 1 7 now) = Inr s"
    and disk: "file_at (state_file ''/s'' ''c'') (files w2) = Some s"
    unfolding runs_to_def on_disk_def o by (metis (no_types, lifting))
  have w2: "stored codec_env ''/s'' ''c'' w2 \<noteq> None"
    using codec_serde s disk by (auto simp: stored_def serde_ok_def)
  obtain c st w1 where b: "run_begins ?M shell_host ''/s'' ''c'' ?w = (Ok (c, st), w1)"
    and f: "supervise_and_finish ?M shell_host ''/s'' ''c'' c st w1 = (Ok 7, w2)"
    using run by (auto simp: host_run_def bind_eq_Ok)
  have "set_running (outside ?M) shell_host ''/s'' ''c'' c st w1"
    using triple_Ok [OF triple_run_begins _ b] codec_serde by (simp add: o holds_def stored_def file_at_def)
  then show thesis using that b f w2 by (simp add: o)
qed

end
