(* ===== verification/Reports.thy ===== *)
theory Reports
  imports Sessions
begin

text \<open>
  The line through which the forked supervisor tells \<open>create\<close> how it went: a pid is read back as
  itself and no error message is taken for a pid, so the pid \<open>create\<close> returns is the container's.
\<close>

section \<open>What is read back\<close>

lemma dropWhile_none: "list_all (\<lambda>c. \<not> p c) s \<Longrightarrow> dropWhile p s = s"
  by (cases s) auto

lemma trim_visible: "list_all (\<lambda>c. \<not> is_whitespace c) s \<Longrightarrow> trim s = s"
  by (simp add: trim_def trim_start_def trim_end_def dropWhile_none list_all_rev)

lemma digit_visible: "is_ascii_digit c \<Longrightarrow> \<not> is_whitespace c \<and> c \<noteq> CHR 0x0A"
  by (auto simp: is_ascii_digit_def is_whitespace_def Let_def)

lemma show_int_visible: "list_all (\<lambda>c. \<not> is_whitespace c \<and> c \<noteq> CHR 0x0A) (show_int p)"
proof -
  have "list_all (\<lambda>c. \<not> is_whitespace c \<and> c \<noteq> CHR 0x0A) (show_nat n)" for n
    using show_nat_digits [of n] digit_visible by (simp add: list_all_iff)
  moreover have "\<not> is_whitespace (CHR ''-'')" by (simp add: is_whitespace_def)
  ultimately show ?thesis by (simp add: show_int_def)
qed

lemma report_line_pid: "report_line (show_int p @ CHR 0x0A # rest) = show_int p"
  using show_int_visible [of p]
  by (simp add: report_line_def takeWhile_append list_all_iff trim_visible)

lemma trim_end_Cons:
  assumes "\<not> is_whitespace c"
  shows "\<exists>ys. trim_end (c # xs) = c # ys"
  using assms by (auto simp: trim_end_def dropWhile_append intro: exI [of _ "rev (dropWhile is_whitespace (rev xs))"])

lemma report_line_letter:
  assumes "is_ascii_lower c"
  shows "\<exists>ys. report_line (c # xs) = c # ys"
proof -
  have c: "\<not> is_whitespace c" "c \<noteq> CHR 0x0A"
    using assms by (auto simp: is_ascii_lower_def is_whitespace_def Let_def)
  then show ?thesis
    using trim_end_Cons [OF c(1), of "takeWhile (\<lambda>c. c \<noteq> CHR 0x0A) xs"]
    by (simp add: report_line_def trim_def trim_start_def)
qed

lemma parse_i32_letter: "is_ascii_lower c \<Longrightarrow> parse_i32 (c # ys) = None"
  by (auto simp: parse_i32_def parse_digits_def is_ascii_lower_def is_ascii_digit_def)

lemma parse_i32_own: "parse_i32 (show_int p) = Some q \<Longrightarrow> q = p"
proof (cases "p < 0")
  case False
  obtain c cs where s: "show_nat (nat p) = c # cs" and "is_ascii_digit c"
    using show_nat_head by blast
  then have "c \<noteq> CHR ''+'' \<and> c \<noteq> CHR ''-''" using digit_not_sign by blast
  moreover have "parse_digits (c # cs) = Some (nat p)"
    using parse_digits_show_nat [of "nat p"] s by simp
  moreover assume "parse_i32 (show_int p) = Some q"
  ultimately show ?thesis using False s by (simp add: parse_i32_def show_int_def split: if_splits)
qed (simp add: parse_i32_def show_int_def split: if_splits)

section \<open>How the set-up can fail\<close>

text \<open>\<open>fails_only Q m\<close>: every error of \<open>m\<close> satisfies \<open>Q\<close>.\<close>

definition fails_only :: "('e \<Rightarrow> bool) \<Rightarrow> ('s, 'e, 'a) prog \<Rightarrow> bool" where
  "fails_only Q m \<longleftrightarrow> (\<forall>s e s'. m s = (Err e, s') \<longrightarrow> Q e)"

named_theorems fail_intros \<open>the errors of a program\<close>

lemma fails_bind [fail_intros]: "fails_only Q m \<Longrightarrow> (\<And>a. fails_only Q (f a)) \<Longrightarrow> fails_only Q (bind m f)"
  by (fastforce simp: fails_only_def bind_def split: prod.splits outcome.splits)

lemma fails_andthen [fail_intros]: "fails_only Q m \<Longrightarrow> fails_only Q n \<Longrightarrow> fails_only Q (andthen m n)"
  unfolding andthen_def by (rule fails_bind)

lemma fails_prims [fail_intros]: "fails_only Q (ret a)" "Q e \<Longrightarrow> fails_only Q (fail e)"
  by (simp_all add: fails_only_def ret_def fail_def)

lemma fails_map_err: "(\<And>e. Q (g e)) \<Longrightarrow> fails_only Q (map_err g m)"
  by (auto simp: fails_only_def map_err_def split: prod.splits outcome.splits)

lemma fails_if [fail_intros]:
  "(b \<Longrightarrow> fails_only Q m) \<Longrightarrow> (\<not> b \<Longrightarrow> fails_only Q n) \<Longrightarrow> fails_only Q (if b then m else n)"
  by simp

lemma fails_call [fail_intros]:
  "(\<And>n. Q (wrap n)) \<Longrightarrow> fails_only Q (host_call M c wrap)" "fails_only Q (host_ignore M c)"
  by (auto simp: fails_only_def host_call_def host_ignore_def on_calls_def sys_def sys_ignore_def Let_def
      split: prod.splits sum.splits)

lemma fails_wait [fail_intros]: "(\<And>n. Q (HWait n)) \<Longrightarrow> fails_only Q (wait_setup M c)"
  by (auto simp: fails_only_def wait_setup_def Let_def split: sum.splits)

lemma fails_report [fail_intros]: "fails_only Q (report M s)"
  by (auto simp: fails_only_def report_def on_calls_def sys_ok_def prog_simps Let_def split: sum.splits)

lemma fails_mk [fail_intros]: "fails_only Q (mk_state M h i s c code)"
  by (simp add: fails_only_def mk_state_def now_rfc3339_def prog_simps)

text \<open>A message that starts with a lower-case letter.\<close>

definition worded :: "(errno \<Rightarrow> string) \<Rightarrow> host_error \<Rightarrow> bool" where
  "worded es e \<longleftrightarrow> (\<exists>c rest. show_host_error es e = c # rest \<and> is_ascii_lower c)"

lemma worded_cases:
  "worded es (HConfig msg)" "worded es (HState st)" "worded es (HClone n)" "worded es (HWait n)"
  "is_ascii_lower (hd op) \<Longrightarrow> op \<noteq> [] \<Longrightarrow> worded es (HErrno op n)"
  by (cases st; cases op; simp add: worded_def show_host_error_def show_state_error_def is_ascii_lower_def)+

lemma spawn_worded: "fails_only (worded es) (spawn_created M h)"
proof -
  have result: "fails_only (worded es) (setup_result M st)" for st
    unfolding setup_result_def Let_def
    by (cases st; simp) (intro conjI impI fail_intros worded_cases; simp add: is_ascii_lower_def)+
  show ?thesis
    unfolding spawn_created_def Let_def
    by (intro fail_intros fails_map_err result worded_cases; simp add: is_ascii_lower_def)
qed

lemma created_worded: "fails_only (worded es) (supervisor_created M h root i)"
  unfolding supervisor_created_def lift_state_def
  by (intro fail_intros spawn_worded fails_map_err worded_cases)

section \<open>What \<open>create\<close> has done when it returns a pid\<close>

abbreviation has_stored :: "env \<Rightarrow> host \<Rightarrow> string \<Rightarrow> string \<Rightarrow> pid \<Rightarrow> world \<Rightarrow> bool" where
  "has_stored E h root i c w \<equiv> \<exists>st. stored E root i w = Some st \<and> has_status h i c Created st"

lemma report_Ok:
  assumes "report M s w = (Ok l, w')"
  shows "files w' = files w \<and> (l = [] \<or> l = s)"
  using assms by (auto simp: report_def on_calls_def sys_ok_def prog_simps Let_def split: sum.splits if_splits)

lemma created_stored:
  assumes "serde_ok (outside M)" and "supervisor_created M h root i w = (Ok (c, l), w')"
  shows "has_stored (outside M) h root i c w' \<and> (l = [] \<or> l = show_int c @ [CHR 0x0A])"
proof -
  let ?E = "outside M"
  from assms(2) obtain v st v2 v3 where st: "mk_state M h i Created c None v = (Ok st, v2)"
    and wr: "lift_state (write_state ?E st root) v2 = (Ok (), v3)"
    and rep: "report M (show_int c @ [CHR 0x0A]) v3 = (Ok l :: (host_error, string) outcome, w')"
    unfolding supervisor_created_def andthen_def by (auto simp: bind_eq_Ok ret_def)
  have "has_status h i c Created st"
    using st by (auto simp: mk_state_def now_rfc3339_def prog_simps has_status_def describes_def status_order)
  moreover have "stored ?E root i v3 = Some st"
    using triple_Ok [OF triple_lift_write [OF assms(1), where B = "\<lambda>_. True" and i = i] _ wr]
      has_status_id [OF calculation] by (simp add: holds_def)
  ultimately show ?thesis
    using report_Ok [OF rep] by (auto simp: stored_def)
qed

lemma reports_Ok:
  assumes "supervisor_reports M h root i w = (Ok (line, p), w')"
  obtains (created) v v' c l where "supervisor_created M h root i v = (Ok (c, l), v')" "p = Some c"
      "files w' = files v'" "line = l \<or> line = l @ show_int c @ [CHR 0x0A]"
  | (failed) e where "worded (show_errno M) e" "p = None"
      "line = [] \<or> line = show_host_error (show_errno M) e @ [CHR 0x0A]"
proof -
  from assms obtain v r v' where r: "try_result (supervisor_created M h root i) v
      = (Ok r :: (host_error, host_error + pid \<times> string) outcome, v')"
    and after: "(case r of
        Inr (p, line) \<Rightarrow> bind (report M (show_int p @ [CHR 0x0A])) (\<lambda>again. ret (line @ again, Some p))
      | Inl e \<Rightarrow> bind (report M (show_host_error (show_errno M) e @ [CHR 0x0A])) (\<lambda>line. ret (line, None))) v'
      = (Ok (line, p) :: (host_error, string \<times> pid option) outcome, w')"
    unfolding supervisor_reports_def andthen_def by (simp only: bind_eq_Ok) blast
  show thesis
  proof (cases r)
    case (Inl e)
    have "supervisor_created M h root i v = (Err e, v')"
      using r Inl by (auto simp: try_result_def split: prod.splits outcome.splits)
    then have "worded (show_errno M) e"
      using created_worded unfolding fails_only_def by blast
    with after Inl show thesis
      by (auto simp: bind_eq_Ok ret_def dest!: report_Ok intro: failed)
  next
    case (Inr a)
    obtain c l where a: "a = (c, l)" by (cases a)
    have "supervisor_created M h root i v = (Ok (c, l), v')"
      using r Inr a by (auto simp: try_result_def split: prod.splits outcome.splits)
    with after Inr a show thesis
      by (auto simp: bind_eq_Ok ret_def dest!: report_Ok intro: created)
  qed
qed

lemma worded_result:
  assumes "worded es e" and "line = [] \<or> line = show_host_error es e @ [CHR 0x0A]" and "report_line line \<noteq> []"
  shows "\<exists>e. create_result (report_line line) = Inl e"
proof -
  obtain c rest where e: "show_host_error es e = c # rest" and c: "is_ascii_lower c"
    using assms(1) unfolding worded_def by blast
  have "line \<noteq> []" using assms(3) by (auto simp: report_line_def trim_def trim_start_def trim_end_def)
  then obtain ys where "report_line line = c # ys"
    using assms(2) report_line_letter [OF c, of "rest @ [CHR 0x0A]"] e by auto
  then show ?thesis using parse_i32_letter [OF c, of ys] by (simp add: create_result_def)
qed

lemma create_Ok:
  assumes "serde_ok (outside M)" and "host_create M h root i w = (Ok p, w')"
  shows "has_stored (outside M) h root i p w'"
proof -
  from assms(2) obtain v forked line q v2 where rep: "supervisor_reports M h root i v = (Ok (line, q), v2)"
    and fin: "create_waits M forked line v2 = (Ok p, w')"
    unfolding host_create_def create_detached_def andthen_def by (fastforce simp: bind_eq_Ok)
  have line: "report_line line \<noteq> []" and p: "create_result (report_line line) = Inr p" and w': "w' = v2"
    using fin by (auto simp: create_waits_def Let_def andthen_def bind_eq_Ok fail_def of_sum_def ret_def
        split: if_splits sum.splits)
  from rep show ?thesis
  proof (cases rule: reports_Ok)
    case (created u u' c l)
    note s = created_stored [OF assms(1) created(1)]
    have "report_line [] = []" by (simp add: report_line_def trim_def trim_start_def trim_end_def)
    then have "report_line line = show_int c"
      using line s created(4) report_line_pid [of c "[]"] report_line_pid [of c "show_int c @ [CHR 0x0A]"] by auto
    then have "p = c"
      using p parse_i32_own by (auto simp: create_result_def split: option.splits)
    then show ?thesis using s created(3) w' by (auto simp: stored_def)
  next
    case (failed e)
    then show ?thesis using worded_result [OF failed(1,3) line] p by auto
  qed
qed

section \<open>A create in which no call fails\<close>

lemma runs_to_try:
  assumes "runs_to P m Q"
  shows "runs_to P (try_result m) (\<lambda>r fs. \<exists>a. r = Inr a \<and> Q a fs)"
  using assms unfolding runs_to_def try_result_def by fastforce

lemma runs_to_each: "(\<And>x. runs_to P (f x) (\<lambda>_. P)) \<Longrightarrow> runs_to P (each f xs) (\<lambda>_. P)"
  by (induction xs) (auto intro: runs_to_ret runs_to_andthen)

lemma runs_to_daemonize:
  assumes "fault_free (outside M)"
  shows "runs_to P (daemonize M) (\<lambda>_. P)"
proof -
  have n: "runs_to P (each (\<lambda>n. host_ignore M (DupNull n)) [0, 1, 2]) (\<lambda>_. P)"
    by (rule runs_to_each) (rule quiet_calls(2) [OF assms])
  show ?thesis
    unfolding daemonize_def
    by (intro runs_to_andthen [OF quiet_calls(2) [OF assms]] runs_to_bind [OF runs_to_on_calls [OF succeeds_prims(2)]])
      (use n in \<open>auto intro: runs_to_ret\<close>)
qed

lemma runs_to_report:
  assumes "fault_free (outside M)"
  shows "runs_to P (report M s) (\<lambda>l fs. l = s \<and> P fs)"
  unfolding runs_to_def
proof (intro allI impI)
  fix w :: world assume "P (files w)"
  moreover obtain v where "answers (outside M) (calls w @ [Report s]) = Inr v"
    using fault_freeE [OF assms] by blast
  ultimately show "\<exists>a w'. report M s w = (Ok a, w') \<and> a = s \<and> P (files w')"
    by (simp add: report_def on_calls_def sys_ok_def prog_simps Let_def)
qed

lemma runs_to_fifo:
  assumes "fault_free (outside M)"
  shows "runs_to (\<lambda>fs. on_disk root i t st fs \<and> map_of fs (exec_fifo root i) = None) (try_result (make_fifo M root i))
    (\<lambda>r fs. r = Inr () \<and> on_disk root i t st fs \<and> map_of fs (exec_fifo root i) = Some (Fifo 0 []))"
  unfolding runs_to_def
proof (intro allI impI)
  fix w :: world assume d: "on_disk root i t st (files w) \<and> map_of (files w) (exec_fifo root i) = None"
  obtain v where "answers (outside M) (calls w @ [MkFifo (exec_fifo root i)]) = Inr v"
    using fault_freeE [OF assms] by blast
  then show "\<exists>r w'. try_result (make_fifo M root i) w = (Ok r, w') \<and> r = Inr ()
      \<and> on_disk root i t st (files w') \<and> map_of (files w') (exec_fifo root i) = Some (Fifo 0 [])"
    using d fifo_distinct [of root i]
    by (auto simp: try_result_def make_fifo_def wcall_in_def wcall_def prog_simps Let_def on_disk_def file_at_def)
qed

text \<open>A container as \<open>create\<close> leaves it: nothing traced yet, \<open>s\<close> in the state file, \<open>n\<close> descriptors of the FIFO.\<close>

definition created_disk :: "string \<Rightarrow> string \<Rightarrow> string option \<Rightarrow> nat \<Rightarrow> string \<Rightarrow> (string \<times> node) list \<Rightarrow> bool" where
  "created_disk root i s n b fs \<longleftrightarrow> on_disk root i [] s fs \<and> map_of fs (exec_fifo root i) = Some (Fifo n b)"

lemma runs_to_prepare:
  assumes "fault_free (outside M)" and "entrypoint h \<noteq> None"
  shows "runs_to (\<lambda>fs. map_of fs (exec_fifo root i) = None) (create_prepare M h root i)
    (\<lambda>_ fs. \<exists>s. created_disk root i s 0 [] fs)"
proof -
  let ?none = "\<lambda>fs. map_of fs (exec_fifo root i) = None" and ?dir = "\<lambda>fs. map_of fs (container_dir root i) \<noteq> None"
  note frame = runs_to_frame [where p = "exec_fifo root i" and x = None]
  have init: "runs_to ?none (map_err HIo (init_container_dir (outside M) root i)) (\<lambda>_ fs. ?dir fs \<and> ?none fs)"
    unfolding init_container_dir_def Let_def
    by (intro runs_to_map_err runs_to_bind [OF runs_to_wcall [where Q = "\<lambda>fs. ?dir fs \<and> ?none fs", OF assms(1)]]
        runs_to_ret) (use fifo_distinct [of root i] in \<open>auto simp: make_dir_def\<close>)
  have reset: "runs_to (\<lambda>fs. ?dir fs \<and> ?none fs) (reset_trace (outside M) root i :: (host_error, unit) wprog)
      (\<lambda>_ fs. (\<exists>s. on_disk root i [] s fs) \<and> ?none fs)"
    by (rule frame [OF touches_state(5) runs_to_reset [OF assms(1)]]) (simp add: fifo_distinct)
  have after: "runs_to (\<lambda>fs. r = Inr () \<and> Q fs) (case r of
      Inl e \<Rightarrow> if e = EEXIST then ret () else fail (HErrno ''mkfifo'' e) | Inr _ \<Rightarrow> ret ()) (\<lambda>_. Q)" for r Q
    by (cases r) (auto simp: runs_to_def ret_def)
  have fifo: "runs_to (\<lambda>fs. (\<exists>s. on_disk root i [] s fs) \<and> ?none fs) (bind (try_result (make_fifo M root i)) (\<lambda>r. case r of
      Inl e \<Rightarrow> if e = EEXIST then ret () else fail (HErrno ''mkfifo'' e) | Inr _ \<Rightarrow> ret ()))
      (\<lambda>_ fs. \<exists>s. created_disk root i s 0 [] fs)"
    using runs_to_bind [OF runs_to_fifo [OF assms(1)] after] unfolding runs_to_def created_disk_def by blast
  show ?thesis
    unfolding create_prepare_def
    by (intro runs_to_andthen [OF runs_to_validate [OF assms]] runs_to_bind [OF init] runs_to_andthen [OF reset] fifo)
qed

lemma runs_to_created:
  assumes "fault_free (outside M)" and "\<And>st. \<exists>s. state_to_json (outside M) st = Inr s"
    and "entrypoint h \<noteq> None" and "\<And>c. setup_status M c = Inr (Stopped p SIGSTOP)"
  shows "runs_to (\<lambda>fs. \<exists>st. on_disk root i [] st fs) (supervisor_created M h root i)
    (\<lambda>a fs. a = (p, show_int p @ [CHR 0x0A]) \<and> (\<exists>s. on_disk root i [] (Some s) fs))"
proof -
  let ?D = "\<lambda>fs. \<exists>st. on_disk root i [] st fs" and ?S = "\<lambda>fs. \<exists>s. on_disk root i [] (Some s) fs"
  have mk: "runs_to P (mk_state M h i Created c None) (\<lambda>st fs. st_id st = i \<and> P fs)" for P c
    by (simp add: runs_to_def mk_state_def now_rfc3339_def prog_simps)
  have put: "runs_to (\<lambda>fs. st_id st = i \<and> ?D fs) (lift_state (write_state (outside M) st root)) (\<lambda>_. ?S)" for st
  proof -
    obtain s where s: "state_to_json (outside M) st = Inr s" using assms(2) by blast
    have "runs_to (on_disk root i [] old) (lift_state (write_state (outside M) st root)) (\<lambda>_. ?S)"
      if "st_id st = i" for old
      unfolding lift_state_def
      by (rule runs_to_weaken [OF runs_to_map_err [OF runs_to_write_state [OF assms(1) s that]]]) auto
    then show ?thesis unfolding runs_to_def by blast
  qed
  have fin: "runs_to P (bind (report M s) (\<lambda>line. ret (c, line))) (\<lambda>a fs. a = (c, s) \<and> P fs)" for P c s
    by (rule runs_to_bind [OF runs_to_report [OF assms(1)]]) (rule runs_to_ret, simp)
  have rest: "runs_to (\<lambda>fs. c = p \<and> ?D fs) (bind (mk_state M h i Created c None) (\<lambda>st.
      andthen (lift_state (write_state (outside M) st root))
     (bind (report M (show_int c @ [CHR 0x0A])) (\<lambda>line. ret (c, line))))) (\<lambda>a fs. a = (p, show_int p @ [CHR 0x0A]) \<and> ?S fs)" for c
  proof (cases "c = p")
    case True
    have "runs_to ?D (bind (mk_state M h i Created p None) (\<lambda>st. andthen (lift_state (write_state (outside M) st root))
        (bind (report M (show_int p @ [CHR 0x0A])) (\<lambda>line. ret (p, line))))) (\<lambda>a fs. a = (p, show_int p @ [CHR 0x0A]) \<and> ?S fs)"
      by (rule runs_to_bind [OF mk runs_to_andthen [OF put fin]])
    then show ?thesis using True by simp
  qed (simp add: runs_to_def)
  show ?thesis
    unfolding supervisor_created_def by (rule runs_to_bind [OF runs_to_spawn [OF assms(1,3,4)] rest])
qed

lemma runs_to_detached:
  assumes "fault_free (outside M)" and "\<And>st. \<exists>s. state_to_json (outside M) st = Inr s"
    and "entrypoint h \<noteq> None" and "\<And>c. setup_status M c = Inr (Stopped p SIGSTOP)"
    and "- (2 ^ 31) \<le> p" and "p < 2 ^ 31"
  shows "runs_to (\<lambda>fs. \<exists>s. on_disk root i [] s fs) (create_detached M h root i)
    (\<lambda>q fs. q = p \<and> (\<exists>s. on_disk root i [] (Some s) fs))"
proof -
  note ff = assms(1)
  let ?nl = "[CHR 0x0A]" and ?S = "\<lambda>fs. \<exists>s. on_disk root i [] (Some s) fs"
  let ?twice = "(show_int p @ ?nl @ show_int p @ ?nl, Some p)"
  have report: "runs_to (\<lambda>fs. \<exists>a. r = Inr a \<and> a = (p, show_int p @ ?nl) \<and> ?S fs) (case r of
        Inr (p, line) \<Rightarrow> bind (report M (show_int p @ ?nl)) (\<lambda>again. ret (line @ again, Some p))
      | Inl e \<Rightarrow> bind (report M (show_host_error (show_errno M) e @ ?nl)) (\<lambda>line. ret (line, None)))
      (\<lambda>a fs. a = ?twice \<and> ?S fs)" for r
  proof (cases "r = Inr (p, show_int p @ ?nl)")
    case True
    have "runs_to P (bind (report M (show_int p @ ?nl)) (\<lambda>again. ret ((show_int p @ ?nl) @ again, Some p)))
        (\<lambda>a fs. a = ?twice \<and> P fs)" for P
      by (rule runs_to_bind [OF runs_to_report [OF ff]]) (rule runs_to_ret, simp)
    then show ?thesis using True by simp
  qed (simp add: runs_to_def)
  have reports: "runs_to (\<lambda>fs. \<exists>s. on_disk root i [] s fs) (supervisor_reports M h root i) (\<lambda>a fs. a = ?twice \<and> ?S fs)"
    unfolding supervisor_reports_def
    by (intro runs_to_andthen [OF runs_to_daemonize [OF ff]] runs_to_bind [OF runs_to_try [OF
            runs_to_created [OF assms(1-4)]] report])
  have waits: "runs_to (\<lambda>fs. a = ?twice \<and> P fs) (case a of (l, _) \<Rightarrow> create_waits M forked l)
      (\<lambda>q fs. q = p \<and> P fs)" for a forked P
  proof (cases "a = ?twice")
    case True
    have "report_line (show_int p @ ?nl @ show_int p @ ?nl) = show_int p"
      using report_line_pid [of p "show_int p @ ?nl"] by simp
    moreover have "show_int p \<noteq> []" by (simp add: show_int_def)
    ultimately have "create_waits M forked (show_int p @ ?nl @ show_int p @ ?nl) = ret p"
      using parse_i32_show_int [OF assms(5,6)] by (simp add: create_waits_def create_result_def Let_def of_sum_def)
    then show ?thesis using True by (simp add: runs_to_ret)
  qed (simp add: runs_to_def)
  have fork: "runs_to P (fork_supervisor M) (\<lambda>_. P)" for P
    unfolding fork_supervisor_def by (intro runs_to_bind [OF quiet_calls(1) [OF ff]] quiet_calls(1) [OF ff])
  show ?thesis
    unfolding create_detached_def by (intro runs_to_bind [OF fork] runs_to_bind [OF reports waits])
qed

lemma touches_reports: "touches (\<lambda>q. q \<noteq> exec_fifo root i) (supervisor_reports M h root i)"
  unfolding supervisor_reports_def supervisor_created_def lift_state_def case_prod_beta'
  by (intro touch_intros touches_state touch_structure touches_mk_state; simp add: fifo_distinct)

lemma touches_detached: "touches (\<lambda>q. q \<noteq> exec_fifo root i) (create_detached M h root i)"
  unfolding create_detached_def fork_supervisor_def create_waits_def case_prod_beta' Let_def
  by (intro touch_intros touches_reports touch_structure)

lemma runs_to_create:
  assumes "fault_free (outside M)" and "\<And>st. \<exists>s. state_to_json (outside M) st = Inr s"
    and "entrypoint h \<noteq> None" and "\<And>c. setup_status M c = Inr (Stopped p SIGSTOP)"
    and "- (2 ^ 31) \<le> p" and "p < 2 ^ 31"
  shows "runs_to (\<lambda>fs. map_of fs (exec_fifo root i) = None) (host_create M h root i)
    (\<lambda>q fs. q = p \<and> (\<exists>s. created_disk root i (Some s) 0 [] fs))"
proof -
  have "runs_to (\<lambda>fs. \<exists>s. created_disk root i s 0 [] fs) (create_detached M h root i)
      (\<lambda>q fs. q = p \<and> (\<exists>s. created_disk root i (Some s) 0 [] fs))"
    by (rule runs_to_weaken [OF runs_to_frame [OF touches_detached [of root i] runs_to_detached [OF assms],
            where x = "Some (Fifo 0 [])"]]) (auto simp: created_disk_def)
  then show ?thesis
    unfolding host_create_def by (rule runs_to_andthen [OF runs_to_prepare [OF assms(1,3)]])
qed

end
