(* ===== verification/SessionSpec.thy ===== *)
theory SessionSpec
  imports Codec Reports
begin

text \<open>
  Properties of the life of a container: what its stored state can be and how it develops, what
  \<open>create\<close> reports and waits for, and what a forced \<open>delete\<close> leaves behind.
\<close>

section \<open>The status only advances\<close>

lemma triple_holds_same:
  assumes "\<And>B. triple (holds E root i B) m (\<lambda>_. holds E root i B) (holds E root i B)"
    and "m w = (r, w')" and "stored E root i w = Some a" and "stored E root i w' = Some b"
  shows "b = a"
  using triple_end [OF assms(1) assms(2), of "\<lambda>x. x = a"] assms(3,4) by (simp add: holds_def)

lemma step_advances:
  assumes "serde_ok (outside M)" and "step M h root i s e s'" and "session_ok M h root i s"
    and "stored (outside M) root i (disk s) = Some a" and "stored (outside M) root i (disk s') = Some b"
  shows "st_status a \<le> st_status b \<and> st_pid b = st_pid a"
  using assms(2)
proof (cases rule: step.cases)
  case (start w r w' ph)
  have "b = a" by (rule triple_holds_same [OF triple_commands(1) start(4)]) (use assms(4,5) start in simp_all)
  then show ?thesis by simp
next
  case (kill sig w r w' ph)
  have "b = a" by (rule triple_holds_same [OF triple_commands(2) kill(4)]) (use assms(4,5) kill in simp_all)
  then show ?thesis by simp
next
  case (delete force w r w' ph)
  have "b = a" by (rule triple_holds_same [OF triple_commands(3) delete(4)]) (use assms(4,5) delete in simp_all)
  then show ?thesis by simp
next
  case (opens w r w' c)
  have "b = a" by (rule triple_holds_same [OF triple_commands(4) opens(4)]) (use assms(4,5) opens in simp_all)
  then show ?thesis by simp
next
  case (reads w w' c)
  have "b = a" by (rule triple_holds_same [OF triple_commands(5) reads(4)]) (use assms(4,5) reads in simp_all)
  then show ?thesis by simp
next
  case (marks c w st w')
  have a: "has_status h i c Created a"
    using assms(3,4) marks(1) by (simp add: session_ok_def holds_def)
  have "running (outside M) h root i c st w'"
    using triple_Ok [OF triple_mark [OF assms(1)] _ marks(4)] assms(3) marks(1) by (simp add: session_ok_def)
  then have "has_status h i c Running b"
    using assms(5) marks(3) by (simp add: holds_def)
  then show ?thesis using a by (simp add: has_status_def describes_def status_order)
next
  case (marks_fails c w err w')
  have a: "has_status h i c Created a"
    using assms(3,4) marks_fails(1) by (simp add: session_ok_def holds_def)
  have "holds (outside M) root i (marked h i c) w'"
    using triple_Err [OF triple_mark [OF assms(1)] _ marks_fails(4)] assms(3) marks_fails(1)
    by (simp add: session_ok_def)
  then have "marked h i c b" using assms(5) marks_fails(3) by (simp add: holds_def)
  then show ?thesis using a by (auto simp: has_status_def describes_def status_order)
next
  case (finishes c st w r w')
  have st: "has_status h i c Running st" and w: "holds (outside M) root i (\<lambda>x. x = st) w"
    using assms(3) finishes(1) by (simp_all add: session_ok_def)
  have "holds (outside M) root i (\<lambda>x. x = st \<or> has_status h i c StoppedStatus x) w'"
    using triple_finish [OF assms(1) st, of root] w finishes(4,5) by (cases r) (auto simp: triple_def)
  moreover have "a = st" using w assms(4) finishes(1) by (simp add: holds_def)
  ultimately show ?thesis
    using st assms(5) finishes(3) by (auto simp: holds_def has_status_def describes_def status_order)
qed (use assms(3,4,5) in \<open>simp_all add: session_ok_def holds_def\<close>)

section \<open>No start, no run\<close>

text \<open>What is at the FIFO's path is an empty FIFO, if anything. Nothing but \<open>start\<close> writes into it.\<close>

definition dry :: "string \<Rightarrow> string \<Rightarrow> world \<Rightarrow> bool" where
  "dry root i w \<longleftrightarrow> (case map_of (files w) (exec_fifo root i) of
      None \<Rightarrow> True | Some (Fifo _ s) \<Rightarrow> s = [] | Some _ \<Rightarrow> False)"

lemma triple_dry:
  assumes "touches (\<lambda>q. q \<noteq> exec_fifo root i) m"
  shows "triple (dry root i) m (\<lambda>_. dry root i) (dry root i)"
proof -
  have "dry root i w \<Longrightarrow> dry root i (snd (m w))" for w
    using assms by (simp add: moves_all within_def dry_def)
  then have "keeps (dry root i) m" by (rule keepsI)
  then show ?thesis by (simp add: keeps_def)
qed

definition unstarted :: "phase \<Rightarrow> bool" where
  "unstarted ph = (case ph of Begun _ \<Rightarrow> False | Supervising _ _ \<Rightarrow> False | Unlinked _ b \<Rightarrow> b = [] | _ \<Rightarrow> True)"

lemma triple_prepare_dry:
  "triple (dry root i) (andthen (create_prepare M h root i) (fork_supervisor M)) (\<lambda>_. dry root i) (dry root i)"
proof -
  have own: "touches (\<lambda>q. q \<noteq> exec_fifo root i) (host_validate M h)"
    "touches (\<lambda>q. q \<noteq> exec_fifo root i) (map_err HIo (init_container_dir (outside M) root i))"
    "touches (\<lambda>q. q \<noteq> exec_fifo root i) (reset_trace (outside M) root i :: (host_error, unit) wprog)"
    "touches (\<lambda>q. q \<noteq> exec_fifo root i) (fork_supervisor M)"
    unfolding fork_supervisor_def
    by (intro touch_intros touches_state touch_structure; simp add: fifo_distinct)+
  have fifo: "triple (dry root i) (make_fifo M root i) (\<lambda>_. dry root i) (dry root i)"
    by (auto simp: triple_def make_fifo_def wcall_in_def wcall_def prog_simps Let_def dry_def
        split: sum.split)
  have after: "triple (\<lambda>w. case r of Inl _ \<Rightarrow> dry root i w | Inr _ \<Rightarrow> dry root i w)
      (case r of Inl e \<Rightarrow> if e = EEXIST then ret () else fail (HErrno ''mkfifo'' e) | Inr (_ :: unit) \<Rightarrow> ret ())
      (\<lambda>_. dry root i) (dry root i)" for r
    by (cases r) (auto intro: triple_ret triple_fail)
  show ?thesis
    unfolding create_prepare_def
    by (intro triple_andthen [OF _ triple_dry [OF own(4)]] triple_andthen [OF triple_dry [OF own(1)]]
        triple_bind [OF triple_dry [OF own(2)]] triple_andthen [OF triple_dry [OF own(3)]]
        triple_bind [OF triple_try [OF fifo] after])
qed

lemma dry_end: "triple (dry root i) m (\<lambda>_. dry root i) (dry root i) \<Longrightarrow> m w = (r, w') \<Longrightarrow> dry root i w \<Longrightarrow> dry root i w'"
  by (cases r) (auto simp: triple_def)

lemma dry_commands:
  "triple (dry root i) (kill_container E root i sig) (\<lambda>_. dry root i) (dry root i)"
  "triple (dry root i) (supervisor_opens E root i) (\<lambda>_. dry root i) (dry root i)"
  "triple (dry root i) (delete_container E root i force) (\<lambda>_. dry root i) (dry root i)"
proof -
  let ?I = "dry root i"
  show "triple ?I (kill_container E root i sig) (\<lambda>_. ?I) ?I" by (intro triple_dry touches_fifo)
  show "triple ?I (supervisor_opens E root i) (\<lambda>_. ?I) ?I"
    by (auto simp: triple_def supervisor_opens_def open_fifo_def wcall_def prog_simps Let_def dry_def
        fifo_opened_def split: sum.split option.splits node.splits)
  have kill: "touches (\<lambda>q. q \<noteq> exec_fifo root i) (attempt (kill_call E p SIGKILL))" for p
    unfolding kill_call_def by (intro touch_intros touch_structure)
  have "dry root i w \<Longrightarrow> dry root i (w\<lparr>calls := cs, files := filter (\<lambda>(p, _). P p) (files w)\<rparr>)" for w cs P
    by (simp add: dry_def filtered_map_of)
  then have "triple ?I (remove_state E root i) (\<lambda>_. ?I) ?I"
    by (auto simp: triple_def remove_state_def wcall_def prog_simps Let_def remove_under_def remove_some_def
        split: sum.split)
  then show "triple ?I (delete_container E root i force) (\<lambda>_. ?I) ?I"
    unfolding delete_container_def lift_state_def
    by (intro triple_bind [where Q' = "\<lambda>_. ?I"] triple_if triple_fail triple_ret triple_andthen triple_map_err
        triple_dry [OF touches_state(2)] triple_dry [OF kill]) assumption+
qed

lemma dry_step:
  assumes "step M h root i s e s'" and "fst e \<noteq> Start" and "e \<noteq> (RunNow, True)"
    and "dry root i (disk s)" and "unstarted (phase s)"
  shows "unstarted (phase s') \<and> (phase s' \<noteq> Over \<longrightarrow> dry root i (disk s'))"
  using assms(1)
proof (cases rule: step.cases)
  case (create w forked w1 line p w2 r w')
  have "dry root i w'"
    using dry_end [OF triple_prepare_dry create(4)] dry_end [OF triple_dry [OF touches_reports] create(5)]
      dry_end [OF triple_dry [OF touches_waits] create(6)] assms(4) create(1)
    by simp
  then show ?thesis using create by (simp add: unstarted_def split: option.split)
next
  case (kill sig w r w' ph)
  then show ?thesis using dry_end [OF dry_commands(1) kill(4)] assms(4,5) by simp
next
  case (delete force w r w' ph)
  then show ?thesis
    using dry_end [OF dry_commands(3) delete(4)] assms(4,5)
    by (auto simp: after_delete_def unstarted_def dry_def fifo_bytes_def
        split: phase.splits option.splits node.splits)
next
  case (opens w r w' c)
  then show ?thesis using dry_end [OF dry_commands(2) opens(4)] assms(4) by (simp add: unstarted_def)
next
  case (reads w w' c)
  then show ?thesis
    using assms(4) by (auto simp: read_start_def dry_def split: option.splits node.splits if_splits)
qed (use assms(2,3,4,5) in \<open>simp_all add: unstarted_def\<close>)

lemma run_dry:
  assumes "session_run M h root i s es s'" and "phase s = Absent" and "dry root i (disk s)"
    and "Start \<notin> fst ` set es" and "(RunNow, True) \<notin> set es"
  shows "unstarted (phase s') \<and> (phase s' \<noteq> Over \<longrightarrow> dry root i (disk s'))"
  using assms(1,4,5)
proof (induction rule: session_run.induct)
  case none
  then show ?case using assms(2,3) by (simp add: unstarted_def)
next
  case (more es s' e s'')
  then have IH: "unstarted (phase s') \<and> (phase s' \<noteq> Over \<longrightarrow> dry root i (disk s'))" by simp
  show ?case
  proof (cases "phase s' = Over")
    case True
    then have "phase s'' = Over"
      using more.hyps(2) by (auto elim: stepE simp: after_delete_def)
    then show ?thesis by (simp add: unstarted_def)
  next
    case False
    then show ?thesis using dry_step [OF more.hyps(2)] more.prems IH by (cases e) auto
  qed
qed

section \<open>A supervisor whose FIFO is gone\<close>

lemma delete_Ok:
  assumes "delete_container E root i force w = (Ok (), w')"
  shows "files w' = remove_under (container_dir root i) (files w)"
proof -
  obtain st v v' where "remove_state E root i v = (Ok (), w')" and v: "files v = files w"
  proof (cases rule: lift_read_cases [of E root i w])
    case (ok st)
    show thesis
      using assms ok(1)
      by (auto simp: delete_container_def bind_Ok fail_def kill_call_def wcall_def prog_simps lift_state_def
          map_err_def Let_def split: if_splits sum.splits prod.splits outcome.splits intro: that)
  next
    case (err e)
    then show thesis using assms by (simp add: delete_container_def bind_Err)
  qed
  then show ?thesis by (auto simp: remove_state_def wcall_def prog_simps Let_def split: sum.splits)
qed

text \<open>Nothing is stored, nothing is at the FIFO's path and the supervisor waits for bytes that cannot come.\<close>

definition stranded :: "'k machine \<Rightarrow> string \<Rightarrow> string \<Rightarrow> pid \<Rightarrow> session \<Rightarrow> bool" where
  "stranded M root i c s \<longleftrightarrow> phase s = Unlinked c [] \<and> empty (outside M) root i (disk s)"

lemma stranded_step:
  assumes "step M h root i s e s'" and "stranded M root i c s"
  shows "stranded M root i c s' \<and> fst e \<notin> {Create, RunNow, Opens, Reads, Marks, Finishes}"
  using assms(1)
proof (cases rule: step.cases)
  case (start w r w' ph)
  then show ?thesis using triple_end [OF triple_commands(1) start(4)] assms(2) by (simp add: stranded_def)
next
  case (kill sig w r w' ph)
  then show ?thesis using triple_end [OF triple_commands(2) kill(4)] assms(2) by (simp add: stranded_def)
next
  case (delete force w r w' ph)
  then show ?thesis
    using triple_end [OF triple_commands(3) delete(4)] assms(2) by (simp add: stranded_def after_delete_def)
qed (use assms(2) in \<open>simp_all add: stranded_def\<close>)

lemma stranded_run:
  assumes "session_run M h root i s es s'" and "stranded M root i c s"
  shows "stranded M root i c s' \<and> fst ` set es \<inter> {Create, RunNow, Opens, Reads, Marks, Finishes} = {}"
  using assms(1)
proof (induction rule: session_run.induct)
  case none
  then show ?case using assms(2) by simp
next
  case (more es s' e s'')
  then show ?case using stranded_step [OF more.hyps(2)] by auto
qed

section \<open>A concrete session\<close>

definition new_session :: session where
  "new_session = \<lparr>disk = \<lparr>calls = [], files = []\<rparr>, phase = Absent\<rparr>"

lemma new_fresh: "fresh M ''/s'' ''c'' new_session" "dry ''/s'' ''c'' (disk new_session)"
  by (simp_all add: fresh_def new_session_def stored_def file_at_def dry_def)

lemma demo_session:
  obtains c st s1 s2 where "phase s1 = Supervising c st" "phase s2 = Over"
    "session_run codec_machine shell_host ''/s'' ''c'' new_session [(RunNow, True)] s1"
    "step codec_machine shell_host ''/s'' ''c'' s1 (Finishes, True) s2"
    "stored codec_env ''/s'' ''c'' (disk s1) = Some st" "stored codec_env ''/s'' ''c'' (disk s2) \<noteq> None"
proof -
  obtain c st w1 w2 where
    b: "run_begins codec_machine shell_host ''/s'' ''c'' \<lparr>calls = [], files = []\<rparr> = (Ok (c, st), w1)" and
    f: "supervise_and_finish codec_machine shell_host ''/s'' ''c'' c st w1 = (Ok 7, w2)" and
    s: "stored codec_env ''/s'' ''c'' w1 = Some st" "stored codec_env ''/s'' ''c'' w2 \<noteq> None"
    by (rule codec_run)
  have 1: "session_run codec_machine shell_host ''/s'' ''c'' new_session ([] @ [(RunNow, True)])
      \<lparr>disk = w1, phase = Supervising c st\<rparr>"
    unfolding new_session_def
    by (intro session_run.more [OF session_run.none] step.run b)
  have 2: "step codec_machine shell_host ''/s'' ''c'' \<lparr>disk = w1, phase = Supervising c st\<rparr>
      (Finishes, True) \<lparr>disk = w2, phase = Over\<rparr>"
    using step.finishes [OF f] by simp
  show thesis by (rule that [OF _ _ 1 [simplified] 2]) (simp_all add: s)
qed

lemma codec_outside: "outside codec_machine = codec_env"
  by (simp add: codec_machine_def)

section \<open>Properties\<close>

text \<open>
  C11. Every state that can be read for a container, at any moment of its life, under any failures and
  torn writes, is well formed: it carries the container's id, seed, bundle and root, its status is
  never \<open>creating\<close>, it has an exit code exactly when it is stopped, and its status and pid are those of
  the phase its supervisor is in.
\<close>

theorem stored_state_typed:
  assumes "serde_ok (outside M)" and "fresh M root i s" and "session_run M h root i s es s'"
    and "stored (outside M) root i (disk s') = Some st"
  shows "st_id st = i \<and> st_seed st = host_seed h \<and> st_bundle st = host_bundle h \<and> st_rootfs st = host_rootfs h
    \<and> st_status st \<noteq> Creating \<and> (st_exit_code st \<noteq> None \<longleftrightarrow> st_status st = StoppedStatus)
    \<and> (case phase s' of
        Absent \<Rightarrow> False
      | Holding c \<Rightarrow> st_status st = Created \<and> st_pid st = c
      | Waiting c \<Rightarrow> st_status st = Created \<and> st_pid st = c
      | Unlinked c _ \<Rightarrow> st_status st = Created \<and> st_pid st = c
      | Begun c \<Rightarrow> st_status st = Created \<and> st_pid st = c
      | Supervising c st' \<Rightarrow> st_status st = Running \<and> st_pid st = c \<and> st = st'
      | Over \<Rightarrow> True)"
proof -
  have ok: "session_ok M h root i s'" by (rule session_run_ok [OF assms(3,1,2)])
  then have "any_state h i st" using session_ok_any [OF ok] assms(4) by (simp add: holds_def)
  moreover have "case phase s' of
        Absent \<Rightarrow> False
      | Holding c \<Rightarrow> st_status st = Created \<and> st_pid st = c
      | Waiting c \<Rightarrow> st_status st = Created \<and> st_pid st = c
      | Unlinked c _ \<Rightarrow> st_status st = Created \<and> st_pid st = c
      | Begun c \<Rightarrow> st_status st = Created \<and> st_pid st = c
      | Supervising c st' \<Rightarrow> st_status st = Running \<and> st_pid st = c \<and> st = st'
      | Over \<Rightarrow> True"
    using ok assms(4)
    by (cases "phase s'") (auto simp: session_ok_def holds_def has_status_def describes_def)
  ultimately show ?thesis by (auto simp: describes_def status_order)
qed

lemma stored_state_typed_witness:
  "\<exists>es s st. session_run codec_machine shell_host ''/s'' ''c'' new_session es s
    \<and> stored codec_env ''/s'' ''c'' (disk s) = Some st \<and> st_id st = ''c'' \<and> st_status st = Running \<and> st_exit_code st = None"
proof -
  obtain c st s1 s2 where s: "phase s1 = Supervising c st"
    "session_run codec_machine shell_host ''/s'' ''c'' new_session [(RunNow, True)] s1"
    "stored codec_env ''/s'' ''c'' (disk s1) = Some st"
    by (rule demo_session)
  have "st_id st = ''c'' \<and> st_status st = Running \<and> st_exit_code st = None"
    using stored_state_typed [OF _ new_fresh(1) s(2), of st] codec_serde s(1,3)
    by (auto simp: codec_outside)
  then show ?thesis using s by blast
qed



text \<open>
  C13. A container that was only created does not run: its supervisor gets past the FIFO, and the container
  is supervised, only after a \<open>start\<close> or a \<open>run\<close>, provided what is at the FIFO's path at first is at
  most an empty FIFO.
\<close>

theorem created_waits_for_start:
  assumes "fresh M root i s" and "dry root i (disk s)" and "session_run M h root i s es s'"
    and "phase s' = Begun c \<or> phase s' = Supervising c st"
  shows "Start \<in> fst ` set es \<or> (RunNow, True) \<in> set es"
proof (rule ccontr)
  assume "\<not> ?thesis"
  then have "unstarted (phase s')"
    using run_dry [OF assms(3) _ assms(2)] assms(1) by (simp add: fresh_def)
  then show False using assms(4) by (auto simp: unstarted_def)
qed

lemma created_waits_for_start_witness:
  "\<exists>es s c st. session_run codec_machine shell_host ''/s'' ''c'' new_session es s
    \<and> phase s = Supervising c st \<and> (Start \<in> fst ` set es \<or> (RunNow, True) \<in> set es)"
proof -
  obtain c st s1 s2 where s: "phase s1 = Supervising c st"
    "session_run codec_machine shell_host ''/s'' ''c'' new_session [(RunNow, True)] s1"
    by (rule demo_session)
  have "Start \<in> fst ` set [(RunNow, True)] \<or> (RunNow, True) \<in> set [(RunNow, True)]"
    by (rule created_waits_for_start [OF new_fresh s(2)]) (use s(1) in simp)
  then show ?thesis using s by blast
qed



text \<open>
  C15. When \<open>create\<close> returns a pid, the container with that very pid is on disk in status created, with
  its id and the host's seed and no exit code: the pid survives being printed, piped and parsed, and
  no error message of the supervisor is taken for a pid.
\<close>

theorem create_returns_container:
  assumes "serde_ok (outside M)" and "host_create M h root i w = (Ok p, w')"
  shows "\<exists>st. stored (outside M) root i w' = Some st \<and> st_pid st = p \<and> st_status st = Created
    \<and> st_id st = i \<and> st_seed st = host_seed h \<and> st_exit_code st = None"
  using create_Ok [OF assms] by (auto simp: has_status_def describes_def)

lemma create_returns_container_witness:
  "\<exists>w' st. host_create codec_machine shell_host ''/s'' ''c'' \<lparr>calls = [], files = []\<rparr> = (Ok 1, w')
    \<and> stored codec_env ''/s'' ''c'' w' = Some st \<and> st_pid st = 1 \<and> st_status st = Created"
proof -
  have "runs_to (\<lambda>fs. map_of fs (exec_fifo ''/s'' ''c'') = None) (host_create codec_machine shell_host ''/s'' ''c'')
      (\<lambda>q fs. q = 1 \<and> (\<exists>s. created_disk ''/s'' ''c'' (Some s) 0 [] fs))"
    by (rule runs_to_create)
      (simp_all add: codec_outside codec_fault_free codec_total,
       simp_all add: entrypoint_def shell_host_def with_net_def shell_config_def codec_machine_def calm_machine_def)
  then obtain w' where w': "host_create codec_machine shell_host ''/s'' ''c'' \<lparr>calls = [], files = []\<rparr> = (Ok 1, w')"
    unfolding runs_to_def by (auto dest!: spec [of _ "\<lparr>calls = [], files = []\<rparr>"])
  show ?thesis
    using create_returns_container [OF _ w'] codec_serde w' by (auto simp: codec_outside)
qed

end
