(* ===== verification/Detached.thy ===== *)
theory Detached
  imports SessionSpec
begin

text \<open>
  A detached container from end to end: \<open>create\<close>, the supervisor that waits, \<open>start\<close>, and the
  supervision, when no call fails.
\<close>

lemma runs_to_read_state:
  assumes "fault_free E" and "state_from_json E s = Inr st"
  shows "runs_to (\<lambda>fs. P fs \<and> file_at (state_file root i) fs = Some s) (read_state E root i)
    (\<lambda>a fs. a = st \<and> P fs)"
  unfolding runs_to_def
proof (intro allI impI)
  fix w :: world assume w: "P (files w) \<and> file_at (state_file root i) (files w) = Some s"
  obtain v where "answers E (calls w @ [ReadFile (state_file root i)]) = Inr v"
    using fault_freeE [OF assms(1)] by blast
  then show "\<exists>a w'. read_state E root i w = (Ok a, w') \<and> a = st \<and> P (files w')"
    using w assms(2) by (simp add: read_state_def read_to_string_def map_err_def bind_def ret_def Let_def)
qed

lemma runs_to_opens:
  assumes "fault_free E"
  shows "runs_to (created_disk root i s n b) (supervisor_opens E root i) (\<lambda>_. created_disk root i s (Suc n) b)"
  unfolding runs_to_def
proof (intro allI impI)
  fix w :: world assume w: "created_disk root i s n b (files w)"
  obtain v where "answers E (calls w @ [OpenRw (exec_fifo root i)]) = Inr v"
    using fault_freeE [OF assms] by blast
  then show "\<exists>a w'. supervisor_opens E root i w = (Ok a, w') \<and> created_disk root i s (Suc n) b (files w')"
    using w fifo_distinct [of root i]
    by (auto simp: supervisor_opens_def open_fifo_def wcall_def prog_simps Let_def created_disk_def on_disk_def
        file_at_def fifo_opened_def)
qed

lemma runs_to_start:
  assumes "fault_free E" and "state_from_json E s = Inr st" and "st_status st = Created" and "0 < n"
  shows "runs_to (created_disk root i (Some s) n b) (start_container E root i)
    (\<lambda>_. created_disk root i (Some s) n (b @ ''x''))"
proof -
  let ?C = "created_disk root i (Some s)"
  have read: "runs_to (?C n b) (lift_state (read_state E root i)) (\<lambda>a fs. a = st \<and> ?C n b fs)"
    unfolding lift_state_def
    by (rule runs_to_map_err [OF runs_to_weaken [OF runs_to_read_state [OF assms(1,2)]]])
      (auto simp: created_disk_def on_disk_def)
  have open_f: "runs_to (?C n b) (open_fifo E (exec_fifo root i)) (\<lambda>_. ?C (Suc n) b)"
    using runs_to_opens [OF assms(1)] by (simp add: supervisor_opens_def)
  have put: "runs_to (?C (Suc n) b) (write_all E (exec_fifo root i) ''x'' HIo) (\<lambda>_. ?C (Suc n) (b @ ''x''))"
    using fifo_distinct [of root i]
    by (intro runs_to_write_all assms(1)) (auto simp: created_disk_def on_disk_def fifo_effects(2))
  have "runs_to (?C (Suc n) b) (and_drop (write_all E (exec_fifo root i) ''x'' HIo) (close_fifo (exec_fifo root i)))
      (\<lambda>_. ?C n (b @ ''x''))"
    unfolding runs_to_def
  proof (intro allI impI)
    fix w :: world assume "?C (Suc n) b (files w)"
    then obtain a w' where "write_all E (exec_fifo root i) ''x'' HIo w = (Ok a, w')"
      "?C (Suc n) (b @ ''x'') (files w')"
      using put unfolding runs_to_def by blast
    then show "\<exists>a w'. and_drop (write_all E (exec_fifo root i) ''x'' HIo) (close_fifo (exec_fifo root i)) w = (Ok a, w')
        \<and> ?C n (b @ ''x'') (files w')"
      using assms(4) fifo_distinct [of root i]
      by (auto simp: and_drop_def close_fifo_def modify_def created_disk_def on_disk_def file_at_def
          fifo_effects(3) other_paths_fifo)
  qed
  note go = runs_to_andthen [OF open_f this]
  have "runs_to (\<lambda>fs. a = st \<and> ?C n b fs) (if st_status a \<noteq> Created then fail HNotCreated
      else let fifo = exec_fifo root i in andthen (open_fifo E fifo)
        (and_drop (write_all E fifo ''x'' HIo) (close_fifo fifo))) (\<lambda>_. ?C n (b @ ''x''))" for a
    using go assms(3) by (cases "a = st") (simp_all add: Let_def, simp add: runs_to_def)
  then show ?thesis
    unfolding start_container_def by (rule runs_to_bind [OF read])
qed

lemma runs_to_begin:
  "runs_to (created_disk root i (Some s) n (c # b)) (read_start (exec_fifo root i)) (\<lambda>_. on_disk root i [] (Some s))"
  using fifo_distinct [of root i]
  by (auto simp: runs_to_def read_start_def created_disk_def on_disk_def file_at_def other_paths_fifo)

lemma waits_for_byte:
  "created_disk root i s n [] (files w) \<Longrightarrow> read_start (exec_fifo root i) w = (More, w)"
  by (simp add: read_start_def created_disk_def)

lemma runs_to_mark:
  assumes "fault_free (outside M)" and "\<And>st. \<exists>s. state_to_json (outside M) st = Inr s"
    and "state_from_json (outside M) s = Inr st" and "st_id st = i"
  shows "runs_to (on_disk root i [] (Some s)) (mark_running M h root i p)
    (\<lambda>a fs. a = st\<lparr>st_status := Running, st_pid := p\<rparr> \<and> (\<exists>t. on_disk root i [] (Some t) fs))"
proof -
  let ?st = "st\<lparr>st_status := Running, st_pid := p\<rparr>" and ?D = "on_disk root i [] (Some s)"
  have read: "runs_to ?D (attempt (read_state (outside M) root i)) (\<lambda>a fs. a = Some st \<and> ?D fs)"
    by (rule runs_to_attempt, rule runs_to_weaken [OF runs_to_read_state [OF assms(1,3)]])
      (auto simp: on_disk_def)
  obtain t where t: "state_to_json (outside M) ?st = Inr t" using assms(2) by blast
  have "runs_to ?D (lift_state (write_state (outside M) ?st root)) (\<lambda>_. on_disk root i [] (Some t))"
    unfolding lift_state_def by (intro runs_to_map_err runs_to_write_state assms(1) t) (simp add: assms(4))
  then have put: "runs_to ?D (andthen (lift_state (write_state (outside M) ?st root)) (ret ?st))
      (\<lambda>a fs. a = ?st \<and> (\<exists>t. on_disk root i [] (Some t) fs))"
    by (rule runs_to_andthen) (rule runs_to_ret, blast)
  have "runs_to (\<lambda>fs. old = Some st \<and> ?D fs) (bind (case old of Some st \<Rightarrow> ret st | None \<Rightarrow> mk_state M h i Created p None)
      (\<lambda>st. let st' = st\<lparr>st_status := Running, st_pid := p\<rparr> in
        andthen (lift_state (write_state (outside M) st' root)) (ret st')))
      (\<lambda>a fs. a = ?st \<and> (\<exists>t. on_disk root i [] (Some t) fs))" for old
    using put by (cases "old = Some st") (simp_all add: runs_to_def prog_simps Let_def)
  then show ?thesis
    unfolding mark_running_def by (intro runs_to_andthen [OF runs_to_limit] runs_to_bind [OF read])
qed

lemma runs_to_supervised:
  assumes "fault_free (outside M)" and "\<And>st. \<exists>s. state_to_json (outside M) st = Inr s"
    and "supervise (kernel_ops M) (loop_fuel M) p (host_seed h) root i (kernel_state M) = (Ok code, sv)"
    and "state_from_json (outside M) s = Inr st" and "has_status h i p Created st"
  shows "runs_to (on_disk root i [] (Some s)) (supervisor_runs M h root i p)
    (\<lambda>a fs. a = code \<and> (\<exists>t. state_to_json (outside M) (final_state M h i p code (st_created st)) = Inr t
      \<and> on_disk root i (trace_text (outside M) (run_trace M sv)) (Some t) fs))"
proof -
  let ?st = "st\<lparr>st_status := Running, st_pid := p\<rparr>"
  have final: "?st\<lparr>st_status := StoppedStatus, st_exit_code := Some code\<rparr> = final_state M h i p code (st_created st)"
    using assms(5) by (cases st) (simp add: has_status_def describes_def final_state_def)
  obtain t where t: "state_to_json (outside M) (final_state M h i p code (st_created st)) = Inr t"
    using assms(2) by blast
  have "runs_to (on_disk root i [] old) (supervise_and_finish M h root i p ?st)
      (\<lambda>a fs. a = code \<and> on_disk root i (trace_text (outside M) (run_trace M sv)) (Some t) fs)" for old
    by (rule runs_to_finish [OF assms(1,3)])
      (use assms(5) in \<open>simp_all only: final t\<close>, simp_all add: has_status_def describes_def)
  then have "runs_to (\<lambda>fs. a = ?st \<and> (\<exists>t. on_disk root i [] (Some t) fs)) (supervise_and_finish M h root i p a)
      (\<lambda>a fs. a = code \<and> (\<exists>t. state_to_json (outside M) (final_state M h i p code (st_created st)) = Inr t
        \<and> on_disk root i (trace_text (outside M) (run_trace M sv)) (Some t) fs))" for a
    using t unfolding runs_to_def by fastforce
  then show ?thesis
    unfolding supervisor_runs_def
    by (rule runs_to_bind [OF runs_to_mark [OF assms(1,2,4) has_status_id [OF assms(5)]]])
qed

section \<open>Property\<close>

text \<open>
  C7. \<open>create\<close> followed by \<open>start\<close> is a run: when no call fails, \<open>create\<close> returns the container's pid, its
  supervisor opens the FIFO and waits, \<open>start\<close> succeeds and ends the wait, and the supervisor returns the
  exit code of the supervised container. The state file then holds the state \<open>run\<close> leaves (stopped, with
  this code, and the timestamp of \<open>create\<close>), and the trace file the same trace.
\<close>

theorem detached_end_to_end:
  assumes "fault_free (outside M)" and "serde_ok (outside M)" and "\<And>st. \<exists>s. state_to_json (outside M) st = Inr s"
    and "entrypoint h \<noteq> None" and "\<And>c. setup_status M c = Inr (Stopped p SIGSTOP)"
    and "- (2 ^ 31) \<le> p" and "p < 2 ^ 31"
    and "supervise (kernel_ops M) (loop_fuel M) p (host_seed h) root i (kernel_state M) = (Ok code, sv)"
    and "map_of (files w) (exec_fifo root i) = None"
  shows "\<exists>w1 w2 w3 w4 w5 now s. host_create M h root i w = (Ok p, w1)
    \<and> supervisor_opens (outside M) root i w1 = (Ok (), w2) \<and> read_start (exec_fifo root i) w2 = (More :: (host_error, unit) outcome, w2)
    \<and> start_container (outside M) root i w2 = (Ok (), w3)
    \<and> read_start (exec_fifo root i) w3 = (Ok () :: (host_error, unit) outcome, w4)
    \<and> supervisor_runs M h root i p w4 = (Ok code, w5)
    \<and> state_to_json (outside M) (final_state M h i p code now) = Inr s
    \<and> file_at (state_file root i) (files w5) = Some s
    \<and> file_at (trace_file root i) (files w5) = Some (trace_text (outside M) (run_trace M sv))"
proof -
  let ?C = "created_disk root i"
  obtain w1 s where w1: "host_create M h root i w = (Ok p, w1)" "?C (Some s) 0 [] (files w1)"
    using runs_to_create [OF assms(1,3-7), of root i] assms(9) unfolding runs_to_def by blast
  obtain st where st: "stored (outside M) root i w1 = Some st" "has_status h i p Created st"
    using create_Ok [OF assms(2) w1(1)] by blast
  have parse: "state_from_json (outside M) s = Inr st"
    using st(1) w1(2) by (auto simp: stored_def created_disk_def on_disk_def split: sum.splits)
  obtain w2 where w2: "supervisor_opens (outside M) root i w1 = (Ok (), w2)" "?C (Some s) 1 [] (files w2)"
    using runs_to_opens [OF assms(1)] w1(2) unfolding runs_to_def by fastforce
  have created: "st_status st = Created" using st(2) by (simp add: has_status_def)
  obtain w3 where w3: "start_container (outside M) root i w2 = (Ok (), w3)" "?C (Some s) 1 ''x'' (files w3)"
    using runs_to_start [OF assms(1) parse created, of 1 root i "[]"] w2(2) unfolding runs_to_def by auto
  obtain w4 where w4: "read_start (exec_fifo root i) w3 = (Ok () :: (host_error, unit) outcome, w4)"
      "on_disk root i [] (Some s) (files w4)"
    using runs_to_begin w3(2) unfolding runs_to_def by fastforce
  obtain w5 t where "supervisor_runs M h root i p w4 = (Ok code, w5)"
      "state_to_json (outside M) (final_state M h i p code (st_created st)) = Inr t"
      "on_disk root i (trace_text (outside M) (run_trace M sv)) (Some t) (files w5)"
    using runs_to_supervised [OF assms(1,3,8) parse st(2)] w4(2) unfolding runs_to_def by blast
  then show ?thesis
    using w1(1) w2(1) waits_for_byte [OF w2(2)] w3(1) w4(1) unfolding on_disk_def by blast
qed

lemma detached_end_to_end_witness:
  "\<exists>w4 w5 now. supervisor_runs codec_machine shell_host ''/s'' ''c'' 1 w4 = (Ok 7, w5)
    \<and> file_at ''/s/c/state.json'' (files w5) = Some (print_fields (final_state codec_machine shell_host ''c'' 1 7 now))"
proof -
  have "fst (supervise sim_kernel 8 1 42 ''/s'' ''c'' (sim_start two_threads)) = Ok 7" by code_simp
  then obtain sv where "supervise sim_kernel 8 1 42 ''/s'' ''c'' (sim_start two_threads) = (Ok 7, sv)"
    by (cases "supervise sim_kernel 8 1 42 ''/s'' ''c'' (sim_start two_threads)") auto
  then have sv: "supervise (kernel_ops codec_machine) (loop_fuel codec_machine) 1 (host_seed shell_host) ''/s'' ''c''
      (kernel_state codec_machine) = (Ok 7, sv)"
    by (simp add: codec_machine_def calm_machine_def shell_host_def with_net_def)
  have stop: "setup_status codec_machine c = Inr (Stopped 1 SIGSTOP)" for c
    by (simp add: codec_machine_def calm_machine_def)
  have entry: "entrypoint shell_host \<noteq> None"
    by (simp add: entrypoint_def shell_host_def with_net_def shell_config_def)
  have js: "state_to_json codec_env st = Inr (print_fields st)" for st
    by (simp add: codec_env_def)
  show ?thesis
    using detached_end_to_end [of codec_machine shell_host 1 "''/s''" "''c''" 7 sv "\<lparr>calls = [], files = []\<rparr>"]
      sv stop entry
    by (auto simp: codec_outside codec_fault_free codec_serde js state_file_def container_dir_def path_join_def
        starts_with_def)
qed

end
