(* ===== verification/Exec.thy ===== *)
theory Exec
  imports Host
begin

text \<open>
  \<open>dtrun exec\<close> (\<open>src/runtime/exec.rs\<close>): the caller forks a process that joins the namespaces of the
  container and forks the command. Each process is a program of its own; a parent sees of its child
  the status that \<open>waitpid\<close> reports.
\<close>

section \<open>Joining the namespaces\<close>

definition ns_flag :: "string \<Rightarrow> u64" where
  "ns_flag ns =
    (if ns = ''user'' then 0x10000000 else if ns = ''mnt'' then 0x00020000
     else if ns = ''pid'' then 0x20000000 else if ns = ''net'' then 0x40000000
     else if ns = ''ipc'' then 0x08000000 else if ns = ''uts'' then 0x04000000 else 0)"

definition enter_ns :: "os \<Rightarrow> pid \<Rightarrow> string \<Rightarrow> (host_error, unit) io" where
  "enter_ns os p ns =
    bind (sys os (OpenPath (''/proc/'' @ show_int p @ ''/ns/'' @ ns)) HIo) (\<lambda>fd.
    bind (sys os (SetNs fd (ns_flag ns)) (HErrno ''setns'')) (\<lambda>_. ret ()))"

text \<open>The order in which they are joined: the user namespace first, the pid namespace last.\<close>

definition ns_order :: "string list" where
  "ns_order = [''user'', ''mnt'', ''net'', ''ipc'', ''uts'', ''pid'']"

section \<open>The processes\<close>

definition status_code :: "wait_status \<Rightarrow> int" where
  "status_code st = (case st of
      Exited _ code \<Rightarrow> code | Signaled _ sig _ \<Rightarrow> 128 + signal_number sig | _ \<Rightarrow> 1)"

text \<open>
  The command: \<open>Err 127\<close> is \<open>_exit(127)\<close>, \<open>Ok ()\<close> the replaced process image. \<open>inherited\<close> is the
  environment of the caller. A working directory with a NUL byte is replaced by the root.
\<close>

definition exec_command ::
  "os \<Rightarrow> int \<Rightarrow> string \<Rightarrow> (string \<times> string) list \<Rightarrow> string list \<Rightarrow> string list \<Rightarrow> (int, unit) io" where
  "exec_command os rootfd cwd inherited env command =
    andthen (sys_ignore os (Fchdir rootfd))
   (andthen (sys_ignore os (Chroot ''.''))
   (andthen (sys_ignore os (Chdir (if has_nul cwd then ''/'' else cwd)))
     (let c_env = filter (\<lambda>kv. \<not> has_nul kv) (map (\<lambda>(k, v). k @ ''='' @ v) inherited)
            @ filter (\<lambda>kv. \<not> has_nul kv) env;
          cargs = filter (\<lambda>a. \<not> has_nul a) command in
      if cargs = [] then fail 127
      else bind (sys os (Execvpe cargs c_env) (\<lambda>_. 127)) (\<lambda>_. ret ()))))"

text \<open>
  The process in between: it ends with the code of the command, or returns with an error to \<open>main\<close>,
  which exits with 1.
\<close>

definition exec_middle ::
  "os \<Rightarrow> (call list \<Rightarrow> errno + wait_status) \<Rightarrow> pid \<Rightarrow> (host_error, int) io" where
  "exec_middle os waits p =
    andthen (each (enter_ns os p) ns_order)
   (bind (sys os Fork (HErrno ''fork'')) (\<lambda>child.
     (\<lambda>h. let h' = h @ [WaitChild child] in case waits h' of
        Inl e \<Rightarrow> (Err (HWait e), h') | Inr st \<Rightarrow> (Ok (status_code st), h'))))"

definition exec_in_container ::
  "'k machine \<Rightarrow> string \<Rightarrow> string \<Rightarrow> (host_error, int) wprog" where
  "exec_in_container M root i =
    bind (lift_state (read_state (outside M) root i)) (\<lambda>st.
      if st_pid st \<le> 0 \<or> st_status st = StoppedStatus
      then fail (HConfig ''container is not running'')
      else if has_nul (st_rootfs st) then fail (HConfig (''rootfs path: nul byte found in provided data at position: ''
        @ show_nat (length (takeWhile (\<lambda>c. c \<noteq> CHR 0x00) (st_rootfs st)))))
      else bind (host_call M (OpenDir (st_rootfs st)) (HErrno ''open rootfs'')) (\<lambda>_.
        bind (host_call M Fork (HErrno ''fork'')) (\<lambda>child.
        bind (wait_setup M child) (\<lambda>status. ret (status_code status)))))"

end
