(* ===== verification/ExecSpec.thy ===== *)
theory ExecSpec
  imports Exec RunSpec
begin

text \<open>
  The three processes of \<open>dtrun exec\<close> together: what the caller returns, from how the command ended,
  through the exit status of the process in between.
\<close>

text \<open>
  What a process that returns to \<open>main\<close> or calls \<open>_exit\<close> leaves for \<open>waitpid\<close>: the low byte of the
  code, and 1 for an error.
\<close>

definition exit_of :: "(host_error, int) outcome \<Rightarrow> int" where
  "exit_of r = (case r of Ok code \<Rightarrow> code mod 256 | _ \<Rightarrow> 1)"

text \<open>
  How the forked command ends: as the program it became does (\<open>final\<close>), or with the code of \<open>_exit\<close>
  when it could not be executed.
\<close>

definition command_status :: "wait_status \<Rightarrow> (int, unit) outcome \<Rightarrow> wait_status" where
  "command_status final r = (case r of Err code \<Rightarrow> Exited 0 code | _ \<Rightarrow> final)"

text \<open>The calls that join the namespaces of process \<open>p\<close>, with the descriptors they were opened as.\<close>

definition joining :: "pid \<Rightarrow> (string \<times> int) list \<Rightarrow> call list" where
  "joining p = concat \<circ> map (\<lambda>(ns, fd). [OpenPath (''/proc/'' @ show_int p @ ''/ns/'' @ ns), SetNs fd (ns_flag ns)])"

lemma enter_ns_Ok:
  assumes "enter_ns os p ns h = (Ok u, h')"
  shows "\<exists>fd. h' = h @ joining p [(ns, fd)]"
  using assms
  by (auto simp: enter_ns_def joining_def bind_eq_Ok sys_def Let_def ret_def split: sum.splits)

lemma each_enter_Ok:
  assumes "each (enter_ns os p) nss h = (Ok u, h')"
  shows "\<exists>fds. map fst fds = nss \<and> h' = h @ joining p fds"
  using assms
proof (induction nss arbitrary: h)
  case Nil
  then show ?case by (simp add: ret_def joining_def)
next
  case (Cons ns nss)
  then obtain h1 where "enter_ns os p ns h = (Ok (), h1)" "each (enter_ns os p) nss h1 = (Ok u, h')"
    by (auto simp: andthen_def bind_eq_Ok)
  then obtain fd fds where "h1 = h @ joining p [(ns, fd)]" "map fst fds = nss" "h' = h1 @ joining p fds"
    using enter_ns_Ok Cons.IH by metis
  then show ?case
    by (intro exI [of _ "(ns, fd) # fds"]) (simp add: joining_def)
qed

lemma middle_Ok:
  assumes "exec_middle os waits p h = (Ok code, h')" and "\<And>g. waits g = Inr st"
  shows "code = status_code st \<and> (\<exists>fds child. map fst fds = ns_order
    \<and> h' = h @ joining p fds @ [Fork, WaitChild child])"
proof -
  obtain h1 child where each: "each (enter_ns os p) ns_order h = (Ok (), h1)"
    and "code = status_code st" "h' = h1 @ [Fork, WaitChild child]"
    using assms
    by (auto simp: exec_middle_def andthen_def bind_eq_Ok sys_def Let_def split: sum.splits) (metis obj_sumE)
  then show ?thesis using each_enter_Ok [OF each] by auto
qed

lemma command_127: "fst (exec_command os rootfd cwd inherited env argv g) = Err code \<Longrightarrow> code = 127"
  unfolding exec_command_def Let_def
  by (auto simp: andthen_def bind_def sys_ignore_def sys_def fail_def ret_def Let_def split: if_splits sum.splits)

lemma caller_returns:
  assumes "fault_free (outside M)" and "stored (outside M) root i w = Some st" and "0 < st_pid st"
    and "st_status st \<noteq> StoppedStatus" and "\<not> has_nul (st_rootfs st)" and "\<And>g. setup_status M g = Inr x"
  shows "\<exists>w'. exec_in_container M root i w = (Ok (status_code x), w')"
proof -
  obtain s where s: "file_at (state_file root i) (files w) = Some s" "state_from_json (outside M) s = Inr st"
    using assms(2) by (auto simp: stored_def split: option.splits sum.splits)
  obtain v where "answers (outside M) (calls w @ [ReadFile (state_file root i)]) = Inr v"
    using fault_freeE [OF assms(1)] by blast
  then have read: "lift_state (read_state (outside M) root i) w
      = (Ok st, w\<lparr>calls := calls w @ [ReadFile (state_file root i)]\<rparr>)"
    using s by (simp add: lift_state_def read_state_def read_to_string_def map_err_def bind_def ret_def Let_def)
  have call: "\<exists>v. host_call M c wrap u = (Ok v, u\<lparr>calls := calls u @ [c]\<rparr>)" for c wrap u
  proof -
    obtain v where "answers (outside M) (calls u @ [c]) = Inr v" using fault_freeE [OF assms(1)] by blast
    then show ?thesis by (simp add: host_call_def on_calls_def sys_def Let_def)
  qed
  have wait: "\<exists>u'. bind (wait_setup M child) (\<lambda>status. ret (status_code status)) u
      = (Ok (status_code x) :: (host_error, int) outcome, u')" for child u
    by (simp add: wait_setup_def assms(6) Let_def bind_def ret_def)
  have fork: "\<exists>u'. bind (host_call M Fork (HErrno ''fork'')) (\<lambda>child. bind (wait_setup M child)
      (\<lambda>status. ret (status_code status))) u = (Ok (status_code x), u')" for u
    using call [of Fork "HErrno ''fork''" u] wait by (auto simp: bind_Ok)
  have "\<exists>u'. bind (host_call M (OpenDir (st_rootfs st)) (HErrno ''open rootfs'')) (\<lambda>_.
      bind (host_call M Fork (HErrno ''fork'')) (\<lambda>child. bind (wait_setup M child)
      (\<lambda>status. ret (status_code status)))) u = (Ok (status_code x), u')" for u
    using call [of "OpenDir (st_rootfs st)" "HErrno ''open rootfs''" u] fork by (auto simp: bind_Ok)
  moreover have "bind (lift_state (read_state (outside M) root i)) f w
      = f st (w\<lparr>calls := calls w @ [ReadFile (state_file root i)]\<rparr>)" for f :: "_ \<Rightarrow> (host_error, int) wprog"
    using read by (rule bind_Ok)
  ultimately show ?thesis
    using assms(3-5) by (simp add: exec_in_container_def)
qed

section \<open>Property\<close>

text \<open>
  C18. The exit code of \<open>exec\<close> is the command's. In a container that is not stopped the caller returns,
  if the process in between joined the namespaces, the exit code of the command, 128 plus the signal
  that killed it, or 127 when it could not be executed; otherwise 1. The process in between forks the
  command only after it has joined all six namespaces of the recorded process, the user namespace
  first and the pid namespace last.
\<close>

theorem exec_returns_command_status:
  assumes "fault_free (outside M)" and "stored (outside M) root i w = Some st" and "0 < st_pid st"
    and "st_status st \<noteq> StoppedStatus" and "\<not> has_nul (st_rootfs st)"
    and "command = fst (exec_command os rootfd cwd inherited env argv g)"
    and "exec_middle os' waits (st_pid st) h = (middle, h')"
    and "\<And>h. waits h = Inr (command_status final command)"
    and "\<And>h. setup_status M h = Inr (Exited p (exit_of middle))"
    and "status_code final \<in> {0..<256}"
  shows "(\<exists>w'. exec_in_container M root i w = (Ok (case middle of
        Ok _ \<Rightarrow> (case command of Err _ \<Rightarrow> 127 | _ \<Rightarrow> (case final of
            Exited _ n \<Rightarrow> n | Signaled _ sig _ \<Rightarrow> 128 + signal_number sig | _ \<Rightarrow> 1))
      | _ \<Rightarrow> 1), w'))
    \<and> (case middle of Ok _ \<Rightarrow> \<exists>fds child. map fst fds = [''user'', ''mnt'', ''net'', ''ipc'', ''uts'', ''pid'']
        \<and> h' = h @ joining (st_pid st) fds @ [Fork, WaitChild child] | _ \<Rightarrow> True)"
proof (cases middle)
  case (Ok code)
  have m: "code = status_code (command_status final command)"
    "\<exists>fds child. map fst fds = ns_order \<and> h' = h @ joining (st_pid st) fds @ [Fork, WaitChild child]"
    using middle_Ok [OF assms(7) [unfolded Ok] assms(8)] by blast+
  have "c = 127" if "command = Err c" for c
    using command_127 [of os rootfd cwd inherited env argv g c] assms(6) that by simp
  then have "code = (case command of Err _ \<Rightarrow> 127 | _ \<Rightarrow> status_code final)"
    using m(1) by (cases command) (simp_all add: command_status_def status_code_def [of "Exited p c" for p c])
  moreover have "(case final of Exited _ n \<Rightarrow> n | Signaled _ sig _ \<Rightarrow> 128 + signal_number sig | _ \<Rightarrow> 1)
      = status_code final"
    by (simp add: status_code_def)
  ultimately show ?thesis
    using caller_returns [OF assms(1-5,9)] m(2) assms(10) Ok
    by (cases command) (simp_all add: exit_of_def status_code_def [of "Exited p c" for p c] ns_order_def)
qed (use caller_returns [OF assms(1-5,9)] in \<open>simp_all add: exit_of_def status_code_def\<close>)

text \<open>A command killed by SIGKILL in a container whose init is process 7.\<close>

definition exec_machine :: "sim machine" where
  "exec_machine = calm_machine\<lparr>outside := created_env, setup_status := (\<lambda>_. Inr (Exited 9 137))\<rparr>"

lemma exec_returns_command_status_witness:
  "\<exists>w'. exec_in_container exec_machine ''/s'' ''c'' created_world = (Ok 137, w')"
proof -
  define st where "st = the (stored created_env ''/s'' ''c'' created_world)"
  have o: "outside exec_machine = created_env" by (simp add: exec_machine_def)
  have "stored created_env ''/s'' ''c'' created_world \<noteq> None" by code_simp
  then have st: "stored (outside exec_machine) ''/s'' ''c'' created_world = Some st"
    by (auto simp: st_def o)
  have cmd: "Ok () = fst (exec_command (\<lambda>_. Inr 3) 5 ''/'' [] [] [''/bin/true''] [])" by code_simp
  define r where "r = exec_middle (\<lambda>_. Inr 3) (\<lambda>_. Inr (Signaled 3 SIGKILL False)) (st_pid st) []"
  have ok: "fst r = Ok 137" unfolding r_def st_def by code_simp
  have live: "0 < st_pid st \<and> st_status st \<noteq> StoppedStatus \<and> \<not> has_nul (st_rootfs st)"
    unfolding st_def by code_simp
  have ff: "fault_free (outside exec_machine)" by (simp add: fault_free_def o created_env_def calm_env_def)
  have mid: "exec_middle (\<lambda>_. Inr 3) (\<lambda>_. Inr (Signaled 3 SIGKILL False)) (st_pid st) [] = (Ok 137, snd r)"
    unfolding r_def [symmetric] using ok by (metis prod.collapse)
  have wait: "setup_status exec_machine h = Inr (Exited 9 (exit_of (Ok 137)))" for h
    by (simp add: exec_machine_def exit_of_def)
  have "\<exists>w'. exec_in_container exec_machine ''/s'' ''c'' created_world = (Ok (status_code (Signaled 3 SIGKILL False)), w')"
    using exec_returns_command_status [OF _ st _ _ _ cmd mid, of "Signaled 3 SIGKILL False" 9] live ff wait
    by (simp add: command_status_def status_code_def)
  then show ?thesis by (simp add: status_code_def)
qed

end
