(* ===== verification/Renaming.thy ===== *)
theory Renaming
  imports Dispatch
begin

text \<open>
  Runs of the supervisor under two kernels that behave alike except for the pids they hand out: the
  two supervisors stay related through every operation, so that they record the same trace. This is
  what \<open>deterministic\<close> promises of the supervisor itself, whatever pids, container id and state
  directory a run is given.
\<close>

section \<open>Programs that mirror each other\<close>

text \<open>
  \<open>mirrors S Q m m'\<close>: from states related by \<open>S\<close>, \<open>m\<close> and \<open>m'\<close> end in related states, both normally with
  values related by \<open>Q\<close>, both with the same error or both without fuel.
\<close>

definition mirrors :: "('s \<Rightarrow> 't \<Rightarrow> bool) \<Rightarrow> ('a \<Rightarrow> 'b \<Rightarrow> bool) \<Rightarrow> ('s, 'e, 'a) prog \<Rightarrow>
    ('t, 'e, 'b) prog \<Rightarrow> bool" where
  "mirrors S Q = rel_fun S (rel_prod (rel_outcome (=) Q) S)"

named_theorems mirror_intros \<open>structural rules for programs that mirror each other\<close>

lemma mirrorsI:
  assumes "\<And>s s'. S s s' \<Longrightarrow> rel_outcome (=) Q (fst (m s)) (fst (m' s')) \<and> S (snd (m s)) (snd (m' s'))"
  shows "mirrors S Q m m'"
  using assms by (auto simp: mirrors_def rel_fun_def rel_prod_sel)

lemma mirrorsD:
  assumes "mirrors S Q m m'" and "S s s'"
  shows "rel_outcome (=) Q (fst (m s)) (fst (m' s'))" "S (snd (m s)) (snd (m' s'))"
  using assms by (auto simp: mirrors_def rel_fun_def rel_prod_sel)

lemma mirrors_ret: "Q a b \<Longrightarrow> mirrors S Q (ret a) (ret b)"
  by (simp add: mirrors_def rel_fun_def ret_def)

lemma mirrors_ret_eq [mirror_intros]: "mirrors S (=) (ret a) (ret a)"
  by (rule mirrors_ret) (rule refl)

lemma mirrors_fuel [mirror_intros]: "mirrors S Q out_of_fuel out_of_fuel"
  by (simp add: mirrors_def rel_fun_def out_of_fuel_def)

lemma mirrors_gets: "(\<And>s s'. S s s' \<Longrightarrow> Q (g s) (g' s')) \<Longrightarrow> mirrors S Q (gets g) (gets g')"
  by (simp add: mirrors_def rel_fun_def gets_def)

lemma mirrors_modify: "(\<And>s s'. S s s' \<Longrightarrow> S (g s) (g' s')) \<Longrightarrow> mirrors S (=) (modify g) (modify g')"
  by (simp add: mirrors_def rel_fun_def modify_def)

lemma mirrors_bind:
  assumes m: "mirrors S P m m'" and g: "\<And>a b. P a b \<Longrightarrow> mirrors S Q (g a) (g' b)"
  shows "mirrors S Q (bind m g) (bind m' g')"
proof (rule mirrorsI)
  fix s s' assume "S s s'"
  note h = mirrorsD [OF m this]
  show "rel_outcome (=) Q (fst (bind m g s)) (fst (bind m' g' s'))
    \<and> S (snd (bind m g s)) (snd (bind m' g' s'))"
  proof (cases "fst (m s)")
    case (Ok a)
    then obtain b where b: "fst (m' s') = Ok b" and "P a b"
      using h(1) by (cases "fst (m' s')") auto
    then show ?thesis
      using Ok h(2) mirrorsD [OF g [OF \<open>P a b\<close>]] by (cases "m s"; cases "m' s'") (simp add: bind_def)
  next
    case (Err e)
    then have "fst (m' s') = Err e" using h(1) by (cases "fst (m' s')") auto
    then show ?thesis using Err h(2) by (cases "m s"; cases "m' s'") (simp add: bind_def)
  next
    case More
    then have "fst (m' s') = More" using h(1) by (cases "fst (m' s')") auto
    then show ?thesis using More h(2) by (cases "m s"; cases "m' s'") (simp add: bind_def)
  qed
qed

lemma mirrors_bind_eq [mirror_intros]:
  "mirrors S (=) m m' \<Longrightarrow> (\<And>a. mirrors S Q (g a) (g' a)) \<Longrightarrow> mirrors S Q (bind m g) (bind m' g')"
  by (rule mirrors_bind [where P = "(=)"]) auto

lemma mirrors_andthen [mirror_intros]:
  "mirrors S (=) m m' \<Longrightarrow> mirrors S Q n n' \<Longrightarrow> mirrors S Q (andthen m n) (andthen m' n')"
  unfolding andthen_def by (rule mirrors_bind_eq)

lemma mirrors_attempt [mirror_intros]:
  assumes "mirrors S (=) m m'"
  shows "mirrors S (=) (attempt m) (attempt m')"
proof (rule mirrorsI)
  fix s s' assume "S s s'"
  note h = mirrorsD [OF assms this]
  then show "rel_outcome (=) (=) (fst (attempt m s)) (fst (attempt m' s'))
    \<and> S (snd (attempt m s)) (snd (attempt m' s'))"
    by (cases "m s"; cases "m' s'"; cases "fst (m s)"; cases "fst (m' s')") (auto simp: attempt_def)
qed

lemma mirrors_if [mirror_intros]:
  "(b \<Longrightarrow> mirrors S Q m m') \<Longrightarrow> (\<not> b \<Longrightarrow> mirrors S Q n n') \<Longrightarrow>
    mirrors S Q (if b then m else n) (if b then m' else n')"
  by simp

lemma mirrors_option [mirror_intros]:
  "mirrors S Q m m' \<Longrightarrow> (\<And>a. mirrors S Q (g a) (g' a)) \<Longrightarrow>
    mirrors S Q (case x of None \<Rightarrow> m | Some a \<Rightarrow> g a) (case x of None \<Rightarrow> m' | Some a \<Rightarrow> g' a)"
  by (cases x) auto

section \<open>Supervisors that differ in their pids\<close>

definition rename_status :: "(pid \<Rightarrow> pid) \<Rightarrow> wait_status \<Rightarrow> wait_status" where
  "rename_status f st = (case st of
      Exited p c \<Rightarrow> Exited (f p) c
    | Signaled p sig core \<Rightarrow> Signaled (f p) sig core
    | Stopped p sig \<Rightarrow> Stopped (f p) sig
    | PtraceEvent p sig ev \<Rightarrow> PtraceEvent (f p) sig ev
    | PtraceSyscall p \<Rightarrow> PtraceSyscall (f p)
    | Continued p \<Rightarrow> Continued (f p)
    | StillAlive \<Rightarrow> StillAlive)"

text \<open>
  Two kernels alike up to \<open>f\<close>: related states answer every operation alike, with \<open>f p\<close> for \<open>p\<close>; a clone
  event names the renamed child. Registers and memory agree: a tracee sees the pids of its own pid
  namespace, which start from 1 in every run, not those of the host.
\<close>

definition same_kernels ::
  "(pid \<Rightarrow> pid) \<Rightarrow> ('k \<Rightarrow> 'l \<Rightarrow> bool) \<Rightarrow> 'k kernel \<Rightarrow> 'l kernel \<Rightarrow> bool" where
  "same_kernels f R K K' \<longleftrightarrow> inj f \<and> (\<forall>k k'. R k k' \<longrightarrow>
    rel_prod (rel_sum (=) (\<lambda>a b. b = rename_status f a)) R (k_waitpid K k) (k_waitpid K' k')
    \<and> (\<forall>p. (\<forall>sig. rel_prod (=) R (k_resume K p sig k) (k_resume K' (f p) sig k'))
      \<and> rel_prod (=) R (k_syscall_info K p k) (k_syscall_info K' (f p) k')
      \<and> rel_prod (rel_sum (=) (\<lambda>a b. as_i32 b = f (as_i32 a))) R (k_getevent K p k) (k_getevent K' (f p) k')
      \<and> rel_prod (=) R (k_getregs K p k) (k_getregs K' (f p) k')
      \<and> (\<forall>r. rel_prod (=) R (k_setregs K p r k) (k_setregs K' (f p) r k'))
      \<and> rel_prod (=) R (k_open_mem K p k) (k_open_mem K' (f p) k')
      \<and> (\<forall>a d. rel_prod (=) R (k_write_at K p a d k) (k_write_at K' (f p) a d k'))
      \<and> (\<forall>a n. rel_prod (=) R (k_read_exact_at K p a n k) (k_read_exact_at K' (f p) a n k'))))"

definition rekey :: "(pid \<Rightarrow> pid) \<Rightarrow> (pid \<times> 'a) list \<Rightarrow> (pid \<times> 'a) list" where
  "rekey f xs = map (\<lambda>(p, t). (f p, t)) xs"

definition same_sv ::
  "(pid \<Rightarrow> pid) \<Rightarrow> ('k \<Rightarrow> 'l \<Rightarrow> bool) \<Rightarrow> 'k supervisor \<Rightarrow> 'l supervisor \<Rightarrow> bool" where
  "same_sv f R s s' \<longleftrightarrow> sv_pid s' = f (sv_pid s) \<and> rng s' = rng s \<and> tick s' = tick s
    \<and> pending s' \<circ> f = pending s \<and> seq s' = seq s
    \<and> threads s' = rekey f (threads s) \<and> vtid_next s' = vtid_next s
    \<and> runnable s' = map f (runnable s) \<and> pending_start s' = f ` pending_start s
    \<and> stopped_pending s' = f ` stopped_pending s \<and> blocked s' = f ` blocked s
    \<and> waiting s' = map_option (map f) \<circ> waiting s \<and> current s' = map_option f (current s)
    \<and> last_vtid s' = last_vtid s \<and> sig_pending s' \<circ> f = sig_pending s
    \<and> clone_pending s' \<circ> f = clone_pending s \<and> group_exiting s' = group_exiting s
    \<and> events s' = events s \<and> R (kern s) (kern s')"

lemma map_of_renamed: "inj f \<Longrightarrow> map_of (rekey f xs) (f p) = map_of xs p"
  by (induction xs) (auto simp: rekey_def inj_eq)

lemma delete_renamed:
  "inj f \<Longrightarrow> AList.delete (f p) (rekey f xs) = rekey f (AList.delete p xs)"
  by (induction xs) (auto simp: rekey_def inj_eq)

lemma update_renamed:
  "inj f \<Longrightarrow> AList.update (f p) t (rekey f xs) = rekey f (AList.update p t xs)"
  by (induction xs) (auto simp: rekey_def inj_eq)

lemma upd_renamed: "inj f \<Longrightarrow> m'(f p := v) \<circ> f = (m' \<circ> f)(p := v)"
  by (auto simp: fun_eq_iff inj_eq)

lemma minus_renamed: "inj f \<Longrightarrow> f ` A - {f p} = f ` (A - {p})"
  by (simp add: image_set_diff)

lemma filter_renamed: "inj f \<Longrightarrow> filter (\<lambda>x. x \<noteq> f p) (map f xs) = map f (filter (\<lambda>x. x \<noteq> p) xs)"
  by (induction xs) (auto simp: inj_eq)

lemmas renamed = map_of_renamed delete_renamed update_renamed upd_renamed minus_renamed filter_renamed
  inj_image_mem_iff inj_eq

section \<open>Every operation keeps the supervisors related\<close>

locale renamed_kernels =
  fixes f :: "pid \<Rightarrow> pid" and R :: "'k \<Rightarrow> 'l \<Rightarrow> bool" and K :: "'k kernel" and K' :: "'l kernel"
  assumes alike: "same_kernels f R K K'"
begin

abbreviation same :: "'k supervisor \<Rightarrow> 'l supervisor \<Rightarrow> bool" where
  "same \<equiv> same_sv f R"

lemma inj: "inj f"
  using alike by (simp add: same_kernels_def)

lemma mirrors_kcall:
  assumes "\<And>k k'. R k k' \<Longrightarrow> rel_prod (rel_sum (=) Q) R (g k) (g' k')"
  shows "mirrors same Q (kcall g w) (kcall g' w)"
proof (rule mirrorsI)
  fix s s' assume s: "same s s'"
  then have "rel_prod (rel_sum (=) Q) R (g (kern s)) (g' (kern s'))"
    by (intro assms) (simp add: same_sv_def)
  then show "rel_outcome (=) Q (fst (kcall g w s)) (fst (kcall g' w s'))
    \<and> same (snd (kcall g w s)) (snd (kcall g' w s'))"
    using s by (cases "g (kern s)"; cases "g' (kern s')"; cases "fst (g (kern s))"; cases "fst (g' (kern s'))")
      (auto simp: kcall_def same_sv_def)
qed

lemma mirrors_kcall_eq:
  assumes "\<And>k k'. R k k' \<Longrightarrow> rel_prod (=) R (g k) (g' k')"
  shows "mirrors same (=) (kcall g w) (kcall g' w)"
  by (rule mirrors_kcall) (use assms in \<open>simp add: sum.rel_eq\<close>)

lemma kcalls_mirror [mirror_intros]:
  "mirrors same (=) (kcall (k_resume K p sig) w) (kcall (k_resume K' (f p) sig) w)"
  "mirrors same (=) (kcall (k_syscall_info K p) w) (kcall (k_syscall_info K' (f p)) w)"
  "mirrors same (=) (kcall (k_getregs K p) w) (kcall (k_getregs K' (f p)) w)"
  "mirrors same (=) (kcall (k_setregs K p r) w) (kcall (k_setregs K' (f p) r) w)"
  "mirrors same (=) (kcall (k_open_mem K p) w) (kcall (k_open_mem K' (f p)) w)"
  "mirrors same (=) (kcall (k_write_at K p a d) w) (kcall (k_write_at K' (f p) a d) w)"
  "mirrors same (=) (kcall (k_read_exact_at K p a n) w) (kcall (k_read_exact_at K' (f p) a n) w)"
  by (rule mirrors_kcall_eq; use alike in \<open>simp add: same_kernels_def\<close>)+

lemma wait_mirrors: "mirrors same (\<lambda>a b. b = rename_status f a) (sv_wait K) (sv_wait K')"
  unfolding sv_wait_def by (rule mirrors_kcall) (use alike in \<open>simp add: same_kernels_def\<close>)

lemma getevent_mirrors:
  "mirrors same (\<lambda>a b. as_i32 b = f (as_i32 a)) (kcall (k_getevent K p) w) (kcall (k_getevent K' (f p)) w)"
  by (rule mirrors_kcall) (use alike in \<open>simp add: same_kernels_def\<close>)

lemma modify_same:
  assumes "\<And>s s'. same s s' \<Longrightarrow> same (g s) (g' s')"
  shows "mirrors same (=) (modify g) (modify g')"
  using assms by (rule mirrors_modify)

lemma observed:
  assumes "same s s'"
  shows "map_of (threads s') (f p) = map_of (threads s) p"
    "f p \<in> hm_keys (threads s') \<longleftrightarrow> p \<in> hm_keys (threads s)"
    "is_scheduled (f p) s' \<longleftrightarrow> is_scheduled p s"
    "pending s' (f p) = pending s p"
    "f p \<in> pending_start s' \<longleftrightarrow> p \<in> pending_start s"
    "f p \<in> stopped_pending s' \<longleftrightarrow> p \<in> stopped_pending s"
    "current s' = Some (f p) \<longleftrightarrow> current s = Some p"
    "vtid_next s' = vtid_next s" "group_exiting s' = group_exiting s"
proof -
  show m: "map_of (threads s') (f p) = map_of (threads s) p"
    using assms by (simp add: same_sv_def map_of_renamed inj)
  show "f p \<in> hm_keys (threads s') \<longleftrightarrow> p \<in> hm_keys (threads s)"
    using m by (metis map_of_None_keys)
  show "is_scheduled (f p) s' \<longleftrightarrow> is_scheduled p s" by (simp add: is_scheduled_def m)
  show "pending s' (f p) = pending s p" using assms by (simp add: same_sv_def fun_eq_iff)
  show "current s' = Some (f p) \<longleftrightarrow> current s = Some p"
    using assms by (cases "current s") (simp_all add: same_sv_def inj_eq inj)
qed (use assms in \<open>simp_all add: same_sv_def inj_image_mem_iff inj\<close>)

lemma gets_same [mirror_intros]:
  "mirrors same (=) (gets (is_scheduled p)) (gets (is_scheduled (f p)))"
  "mirrors same (=) (gets vtid_next) (gets vtid_next)"
  "mirrors same (=) (gets group_exiting) (gets group_exiting)"
  "mirrors same (=) (gets (\<lambda>s. current s = Some p)) (gets (\<lambda>s. current s = Some (f p)))"
  "mirrors same (=) (gets (\<lambda>s. p \<in> hm_keys (threads s))) (gets (\<lambda>s. f p \<in> hm_keys (threads s)))"
  "mirrors same (=) (gets (\<lambda>s. p \<in> pending_start s)) (gets (\<lambda>s. f p \<in> pending_start s))"
  "mirrors same (=) (gets (\<lambda>s. p \<in> stopped_pending s)) (gets (\<lambda>s. f p \<in> stopped_pending s))"
  "mirrors same (=) (gets (\<lambda>s. pending s p)) (gets (\<lambda>s. pending s (f p)))"
  "mirrors same (=) (gets (\<lambda>s. map_option vtid (map_of (threads s) p)))
    (gets (\<lambda>s. map_option vtid (map_of (threads s) (f p))))"
  by (rule mirrors_gets; simp only: observed)+

lemma scheduled_same:
  "same s s' \<Longrightarrow> scheduled_count s' = scheduled_count s" "same s s' \<Longrightarrow> any_concurrent s' = any_concurrent s"
  by (auto simp: same_sv_def scheduled_count_def any_concurrent_def filter_map list_ex_iff comp_def
      rekey_def case_prod_beta')

lemma trace_mirrors [mirror_intros]: "mirrors same (=) (trace_json e d) (trace_json e d)"
  unfolding trace_json_def by (rule modify_same) (simp add: trace_json_st_def same_sv_def Let_def)

lemma traces_mirror [mirror_intros]:
  "mirrors same (=) (trace_futex p o' k) (trace_futex (f p) o' k)"
  "mirrors same (=) (trace_syscall nr k) (trace_syscall nr k)"
  "mirrors same (=) (trace_lifecycle e c) (trace_lifecycle e c)"
  unfolding trace_futex_def trace_syscall_def trace_lifecycle_def by (intro mirror_intros)+

lemma small_mirror [mirror_intros]:
  "mirrors same (=) (draw_bytes n) (draw_bytes n)" "mirrors same (=) (read_clock c) (read_clock c)"
  "mirrors same (=) (take_clone_info p) (take_clone_info (f p))"
  "mirrors same (=) (take_signal p) (take_signal (f p))"
  by (rule mirrorsI; auto simp: same_sv_def draw_bytes_def read_clock_def take_clone_info_def take_signal_def
      renamed inj fun_eq_iff split: prod.split)+

section \<open>Futex queues and exits\<close>

lemma wake_loop_renamed:
  "wake_loop cap n (map f q) (f ` b) (map f r) = (case wake_loop cap n q b r of
    (m, q', b', r') \<Rightarrow> (m, map f q', f ` b', map f r'))"
proof (induction cap n q b r rule: wake_loop.induct)
  case (2 cap woken t parked b r)
  then show ?case by (simp add: inj_image_mem_iff minus_renamed inj)
qed simp

lemma wake_same:
  assumes "same s s'"
  shows "fst (wake a v s') = fst (wake a v s)" "same (snd (wake a v s)) (snd (wake a v s'))"
proof -
  have w: "waiting s' a = map_option (map f) (waiting s a)" "blocked s' = f ` blocked s"
    "runnable s' = map f (runnable s)"
    using assms by (simp_all add: same_sv_def)
  show "fst (wake a v s') = fst (wake a v s)"
    by (auto simp: wake_def Let_def w wake_loop_renamed split: option.split prod.split)
  show "same (snd (wake a v s)) (snd (wake a v s'))"
    using assms
    by (auto simp: wake_def Let_def w wake_loop_renamed same_sv_def fun_eq_iff split: option.split prod.split)
qed

lemma wake_mirrors [mirror_intros]: "mirrors same (=) (sv_wake a v) (sv_wake a v)"
  by (rule mirrorsI) (auto simp: sv_wake_def wake_same split: prod.split dest: wake_same [of _ _ a v])

lemma block_mirrors [mirror_intros]: "mirrors same (=) (modify (block p a)) (modify (block (f p) a))"
  by (rule modify_same) (auto simp: block_def same_sv_def fun_eq_iff split: option.split)

lemma drop_waiter_renamed:
  "drop_waiter (f p) (map_option (map f) \<circ> w) = map_option (map f) \<circ> drop_waiter p w"
  by (auto simp: drop_waiter_def fun_eq_iff filter_renamed inj Let_def split: option.split)

lemma forget_same: "same s s' \<Longrightarrow> same (forget_pid p s) (forget_pid (f p) s')"
  by (simp add: forget_pid_def same_sv_def renamed drop_waiter_renamed inj)

lemma trace_same: "same s s' \<Longrightarrow> same (trace_json_st e d s) (trace_json_st e d s')"
  by (simp add: trace_json_st_def same_sv_def Let_def)

lemma exit_registered_same:
  assumes "same s s'"
  shows "same (exit_registered p rec t s) (exit_registered (f p) rec t s')"
proof -
  have 1: "same (s\<lparr>threads := AList.delete p (threads s)\<rparr>) (s'\<lparr>threads := AList.delete (f p) (threads s')\<rparr>)"
    using assms by (simp add: same_sv_def delete_renamed inj)
  have 2: "same (if b then snd (wake a v u) else u) (if b then snd (wake a v u') else u')"
    if "same u u'" for b a v u u'
    using that wake_same(2) by simp
  have 3: "same (if rec then trace_json_st e d u else u) (if rec then trace_json_st e d u' else u')"
    if "same u u'" for e d u u'
    using that trace_same by simp
  have 4: "same (u\<lparr>pending := (pending u)(p := None)\<rparr>) (u'\<lparr>pending := (pending u')(f p := None)\<rparr>)"
    if "same u u'" for u u'
    using that by (simp add: same_sv_def upd_renamed inj)
  show ?thesis
    unfolding exit_registered_def Let_def by (intro 1 2 3 4)
qed

lemma exit_mirrors [mirror_intros]:
  "mirrors same (=) (on_thread_exit p rec) (on_thread_exit (f p) rec)"
  unfolding on_thread_exit_def
proof (rule modify_same)
  fix s s' assume s: "same s s'"
  then show "same (forget_pid p (case map_of (threads s) p of None \<Rightarrow> s | Some t \<Rightarrow> exit_registered p rec t s))
    (forget_pid (f p) (case map_of (threads s') (f p) of None \<Rightarrow> s' | Some t \<Rightarrow> exit_registered (f p) rec t s'))"
    unfolding observed(1) [OF s]
    by (intro forget_same) (auto intro: exit_registered_same split: option.split)
qed

section \<open>The scheduler\<close>

lemma pick_renamed:
  "pick_next (rekey f ths) (f ` b) (map f r)
    = map_option (\<lambda>(p, t, r'). (f p, t, map f r')) (pick_next ths b r)"
  by (induction ths b r rule: pick_next.induct)
    (simp_all add: map_of_renamed inj_image_mem_iff inj split: option.split)

lemma resume_mirrors [mirror_intros]: "mirrors same (=) (resume_thread K p) (resume_thread K' (f p))"
  unfolding resume_thread_def by (intro mirror_intros)

lemma schedule_mirrors [mirror_intros]: "mirrors same (=) (schedule_next K) (schedule_next K')"
proof (rule mirrorsI)
  fix s s' assume s: "same s s'"
  have pick: "pick_next (threads s') (blocked s') (runnable s')
      = map_option (\<lambda>(p, t, r'). (f p, t, map f r')) (pick_next (threads s) (blocked s) (runnable s))"
    using s pick_renamed [of "threads s" "blocked s" "runnable s"] by (simp add: same_sv_def)
  have idle: "pending_start s' \<noteq> {} \<or> any_concurrent s' \<longleftrightarrow> pending_start s \<noteq> {} \<or> any_concurrent s"
    using s scheduled_same(2) [OF s] by (simp add: same_sv_def)
  show "rel_outcome (=) (=) (fst (schedule_next K s)) (fst (schedule_next K' s'))
    \<and> same (snd (schedule_next K s)) (snd (schedule_next K' s'))"
  proof (cases "pick_next (threads s) (blocked s) (runnable s)")
    case None
    moreover have "same (s\<lparr>runnable := []\<rparr>) (s'\<lparr>runnable := []\<rparr>)" using s by (simp add: same_sv_def)
    ultimately show ?thesis using idle by (auto simp: schedule_next_def pick)
  next
    case (Some x)
    obtain p t r where x: "x = (p, t, r)" by (cases x)
    let ?u = "(schedule_event t (s\<lparr>runnable := r\<rparr>))\<lparr>last_vtid := Some (vtid t), current := Some p\<rparr>"
    let ?v = "(schedule_event t (s'\<lparr>runnable := map f r\<rparr>))\<lparr>last_vtid := Some (vtid t), current := Some (f p)\<rparr>"
    have "same ?u ?v"
      using s by (auto simp: schedule_event_def same_sv_def trace_json_st_def Let_def)
    then show ?thesis
      using mirrorsD [OF resume_mirrors, of ?u ?v p] Some x by (simp add: schedule_next_def pick)
  qed
qed

lemma queue_mirrors [mirror_intros]:
  "mirrors same (=) (modify (\<lambda>s. s\<lparr>runnable := runnable s @ [p]\<rparr>))
    (modify (\<lambda>s. s\<lparr>runnable := runnable s @ [f p]\<rparr>))"
  "mirrors same (=) (modify (\<lambda>s. s\<lparr>current := None\<rparr>)) (modify (\<lambda>s. s\<lparr>current := None\<rparr>))"
  "mirrors same (=) (modify (\<lambda>s. s\<lparr>stopped_pending := stopped_pending s - {p}\<rparr>))
    (modify (\<lambda>s. s\<lparr>stopped_pending := stopped_pending s - {f p}\<rparr>))"
  "mirrors same (=) (modify (\<lambda>s. s\<lparr>pending_start := pending_start s - {p}\<rparr>))
    (modify (\<lambda>s. s\<lparr>pending_start := pending_start s - {f p}\<rparr>))"
  "mirrors same (=) (modify (\<lambda>s. s\<lparr>pending_start := insert p (pending_start s)\<rparr>))
    (modify (\<lambda>s. s\<lparr>pending_start := insert (f p) (pending_start s)\<rparr>))"
  "mirrors same (=) (modify (\<lambda>s. s\<lparr>stopped_pending := insert p (stopped_pending s)\<rparr>))
    (modify (\<lambda>s. s\<lparr>stopped_pending := insert (f p) (stopped_pending s)\<rparr>))"
  "mirrors same (=) (modify (\<lambda>s. s\<lparr>sig_pending := (sig_pending s)(p \<mapsto> sig)\<rparr>))
    (modify (\<lambda>s. s\<lparr>sig_pending := (sig_pending s)(f p \<mapsto> sig)\<rparr>))"
  "mirrors same (=) (modify (\<lambda>s. s\<lparr>pending := (pending s)(p := q)\<rparr>))
    (modify (\<lambda>s. s\<lparr>pending := (pending s)(f p := q)\<rparr>))"
  "mirrors same (=) (modify (\<lambda>s. s\<lparr>clone_pending := (clone_pending s)(p \<mapsto> i)\<rparr>))
    (modify (\<lambda>s. s\<lparr>clone_pending := (clone_pending s)(f p \<mapsto> i)\<rparr>))"
  "mirrors same (=) (modify (\<lambda>s. s\<lparr>group_exiting := True\<rparr>)) (modify (\<lambda>s. s\<lparr>group_exiting := True\<rparr>))"
  by (rule modify_same, simp add: same_sv_def renamed inj)+

lemma step_down_mirrors [mirror_intros]:
  "mirrors same (=) (modify (\<lambda>s. if current s = Some p
      then s\<lparr>current := None, runnable := runnable s @ [p]\<rparr> else s))
    (modify (\<lambda>s. if current s = Some (f p)
      then s\<lparr>current := None, runnable := runnable s @ [f p]\<rparr> else s))"
proof (rule modify_same)
  fix s s' assume s: "same s s'"
  then show "same (if current s = Some p then s\<lparr>current := None, runnable := runnable s @ [p]\<rparr> else s)
    (if current s' = Some (f p) then s'\<lparr>current := None, runnable := runnable s' @ [f p]\<rparr> else s')"
    unfolding observed(7) [OF s] by (simp add: same_sv_def)
qed

lemma step_mirrors [mirror_intros]:
  "mirrors same (=) (yield_current K p) (yield_current K' (f p))"
  "mirrors same (=) (release_task K p) (release_task K' (f p))"
  unfolding yield_current_def release_task_def by (intro mirror_intros)+

lemma resume_current_mirrors [mirror_intros]:
  "mirrors same (=) (resume_current K p) (resume_current K' (f p))"
proof -
  have "mirrors same (\<lambda>c c'. c' = Some (f p) \<longleftrightarrow> c = Some p) (gets current) (gets current)"
    by (rule mirrors_gets) (rule observed)
  then show ?thesis
    unfolding resume_current_def by (rule mirrors_bind) (simp add: resume_mirrors mirrors_ret)
qed

lemma enroll_mirrors [mirror_intros]:
  "mirrors same (=)
    (modify (\<lambda>s. s\<lparr>vtid_next := vtid_next s + 1, threads := AList.update p t (threads s)\<rparr>))
    (modify (\<lambda>s. s\<lparr>vtid_next := vtid_next s + 1, threads := AList.update (f p) t (threads s)\<rparr>))"
  by (rule modify_same, simp add: same_sv_def update_renamed inj)

lemma register_mirrors [mirror_intros]:
  "mirrors same (=) (register_thread K p i) (register_thread K' (f p) i)"
  unfolding register_thread_def Let_def by (intro mirror_intros)

section \<open>Syscall stops\<close>

lemma memory_mirrors [mirror_intros]:
  "mirrors same (=) (write_proc_mem K p a d) (write_proc_mem K' (f p) a d)"
  "mirrors same (=) (read_proc_mem K p a n) (read_proc_mem K' (f p) a n)"
  "mirrors same (=) (read_u32 K p a) (read_u32 K' (f p) a)"
  unfolding write_proc_mem_def read_proc_mem_def read_u32_def by (intro mirror_intros)+

lemma skip_mirrors [mirror_intros]:
  "mirrors same (=) (skip_syscall K p nr v) (skip_syscall K' (f p) nr v)"
  "mirrors same (=) (on_syscall_exit K p) (on_syscall_exit K' (f p))"
  unfolding skip_syscall_def on_syscall_exit_def by (intro mirror_intros)+

lemma intercept_mirrors [mirror_intros]:
  "mirrors same (=) (intercept_getrandom K p r) (intercept_getrandom K' (f p) r)"
  "mirrors same (=) (intercept_clock_gettime K p r) (intercept_clock_gettime K' (f p) r)"
  "mirrors same (=) (intercept_gettimeofday K p r) (intercept_gettimeofday K' (f p) r)"
  "mirrors same (=) (stash_clone K p nr r) (stash_clone K' (f p) nr r)"
  unfolding intercept_getrandom_def intercept_clock_gettime_def intercept_gettimeofday_def
    stash_clone_def Let_def case_prod_beta'
  by (intro mirror_intros)+

lemma alone_mirrors [mirror_intros]:
  "mirrors same (=) (gets (\<lambda>s. \<not> is_scheduled p s \<or> scheduled_count s \<le> 1))
    (gets (\<lambda>s. \<not> is_scheduled (f p) s \<or> scheduled_count s \<le> 1))"
  by (rule mirrors_gets) (simp add: observed scheduled_same)

lemma futex_mirrors [mirror_intros]:
  "mirrors same (=) (intercept_futex K p r) (intercept_futex K' (f p) r)"
  unfolding intercept_futex_def Let_def by (intro mirror_intros)

lemma entry_mirrors [mirror_intros]:
  "mirrors same (=) (on_syscall_entry K p) (on_syscall_entry K' (f p))"
  unfolding on_syscall_entry_def Let_def by (intro mirror_intros)

section \<open>The event loop\<close>

lemma dispatch_syscall_mirrors [mirror_intros]:
  "mirrors same (=) (dispatch_syscall K p) (dispatch_syscall K' (f p))"
  unfolding dispatch_syscall_def by (intro mirror_intros)

lemma resume_either_mirrors [mirror_intros]:
  "mirrors same (=) (resume_either K p) (resume_either K' (f p))"
  unfolding resume_either_def by (intro mirror_intros)

lemma dispatch_event_mirrors:
  assumes "\<And>c. mirrors same (=) (aw c) (aw' (f c))"
  shows "mirrors same (=) (dispatch_event K aw p ev) (dispatch_event K' aw' (f p) ev)"
proof -
  have after: "mirrors same (=)
      (bind (take_clone_info p) (\<lambda>info. andthen (register_thread K (as_i32 a) info)
        (bind (aw (as_i32 a)) (\<lambda>r. case r of
           Some code \<Rightarrow> ret (Some code) | None \<Rightarrow> andthen (resume_either K p) (ret None)))))
      (bind (take_clone_info (f p)) (\<lambda>info. andthen (register_thread K' (as_i32 b) info)
        (bind (aw' (as_i32 b)) (\<lambda>r. case r of
           Some code \<Rightarrow> ret (Some code) | None \<Rightarrow> andthen (resume_either K' (f p)) (ret None)))))"
    if "as_i32 b = f (as_i32 a)" for a b
    unfolding that by (intro mirror_intros assms)
  show ?thesis
    unfolding dispatch_event_def Let_def
    by (intro mirrors_if mirrors_bind [OF getevent_mirrors after]) (intro mirror_intros | assumption)+
qed

lemma dispatch_stopped_mirrors [mirror_intros]:
  "mirrors same (=) (dispatch_stopped K p sig) (dispatch_stopped K' (f p) sig)"
proof -
  have "mirrors same same (gets id) (gets id)" by (rule mirrors_gets) simp
  then show ?thesis
    unfolding dispatch_stopped_def
  proof (rule mirrors_bind)
    fix s s' assume s: "same s s'"
    show "mirrors same (=)
      (if sig = SIGSTOP then
        if current s = Some p then resume_thread K p
        else if p \<in> pending_start s then
          andthen (modify (\<lambda>s. s\<lparr>pending_start := pending_start s - {p}\<rparr>)) (release_task K p)
        else if p \<notin> hm_keys (threads s) then
          modify (\<lambda>s. s\<lparr>stopped_pending := insert p (stopped_pending s)\<rparr>)
        else ret ()
      else if current s = Some p then kcall (k_resume K p (Some sig)) Ptrace
      else if is_scheduled p s then
        modify (\<lambda>s. s\<lparr>sig_pending := (sig_pending s)(p \<mapsto> sig)\<rparr>)
      else if p \<in> hm_keys (threads s) then kcall (k_resume K p (Some sig)) Ptrace
      else ret ())
      (if sig = SIGSTOP then
        if current s' = Some (f p) then resume_thread K' (f p)
        else if f p \<in> pending_start s' then
          andthen (modify (\<lambda>s. s\<lparr>pending_start := pending_start s - {f p}\<rparr>)) (release_task K' (f p))
        else if f p \<notin> hm_keys (threads s') then
          modify (\<lambda>s. s\<lparr>stopped_pending := insert (f p) (stopped_pending s)\<rparr>)
        else ret ()
      else if current s' = Some (f p) then kcall (k_resume K' (f p) (Some sig)) Ptrace
      else if is_scheduled (f p) s' then
        modify (\<lambda>s. s\<lparr>sig_pending := (sig_pending s)(f p \<mapsto> sig)\<rparr>)
      else if f p \<in> hm_keys (threads s') then kcall (k_resume K' (f p) (Some sig)) Ptrace
      else ret ())"
      unfolding observed [OF s] by (intro mirror_intros)
  qed
qed

lemma dispatch_gone_mirrors [mirror_intros]:
  "mirrors same (=) (dispatch_gone K p) (dispatch_gone K' (f p))"
  unfolding dispatch_gone_def by (intro mirror_intros)

lemma dispatch_mirrors:
  assumes "\<And>c. mirrors same (=) (aw c) (aw' (f c))"
  shows "mirrors same (=) (dispatch K aw st) (dispatch K' aw' (rename_status f st))"
proof -
  have own: "mirrors same (=) (bind (gets sv_pid) (\<lambda>i. if p = i then m else n))
      (bind (gets sv_pid) (\<lambda>i. if f p = i then m' else n'))"
    if "mirrors same (=) m m'" "mirrors same (=) n n'"
    for p and m n :: "('k, int option) sv" and m' n'
  proof (rule mirrors_bind)
    show "mirrors same (\<lambda>a b. f p = b \<longleftrightarrow> p = a) (gets sv_pid) (gets sv_pid)"
      by (rule mirrors_gets) (simp add: same_sv_def inj_eq inj)
  qed (simp add: that)
  show ?thesis
    unfolding dispatch_def rename_status_def
    by (cases st; simp only: wait_status.case)
      (intro mirror_intros own dispatch_event_mirrors assms)+
qed

lemma await_attach_mirrors:
  "(\<And>c. mirrors same (=) (lp c) (lp' (f c))) \<Longrightarrow>
    mirrors same (=) (await_attach lp c) (await_attach lp' (f c))"
  unfolding await_attach_def by (intro mirror_intros)

lemma await_loop_mirrors: "mirrors same (=) (await_loop K n c) (await_loop K' n (f c))"
proof (induction n arbitrary: c)
  case 0
  then show ?case by (simp add: mirror_intros)
next
  case (Suc n)
  have stop: "rename_status f st = Stopped (f c) SIGSTOP \<longleftrightarrow> st = Stopped c SIGSTOP" for st
    by (auto simp: rename_status_def inj_eq inj split: wait_status.splits)
  show ?case
    unfolding await_loop.simps
  proof (rule mirrors_bind [OF wait_mirrors])
    fix st st' assume st: "st' = rename_status f st"
    show "mirrors same (=)
      (if st = Stopped c SIGSTOP then
        andthen (modify (\<lambda>s. s\<lparr>pending_start := pending_start s - {c}\<rparr>))
        (andthen (release_task K c) (ret None))
      else bind (dispatch K (await_attach (await_loop K n)) st) (\<lambda>r. case r of
          Some code \<Rightarrow> ret (Some code) | None \<Rightarrow> await_loop K n c))
      (if st' = Stopped (f c) SIGSTOP then
        andthen (modify (\<lambda>s. s\<lparr>pending_start := pending_start s - {f c}\<rparr>))
        (andthen (release_task K' (f c)) (ret None))
      else bind (dispatch K' (await_attach (await_loop K' n)) st') (\<lambda>r. case r of
          Some code \<Rightarrow> ret (Some code) | None \<Rightarrow> await_loop K' n (f c)))"
      unfolding st stop
      by (intro mirror_intros dispatch_mirrors await_attach_mirrors Suc)
  qed
qed

lemma run_loop_mirrors: "mirrors same (=) (run_loop K n) (run_loop K' n)"
proof (induction n)
  case 0
  then show ?case by (simp add: mirror_intros)
next
  case (Suc n)
  have idle: "mirrors same (=) (bind (gets current) (\<lambda>c. if c = None then m else k))
      (bind (gets current) (\<lambda>c. if c = None then m' else k'))"
    if "mirrors same (=) m m'" "mirrors same (=) k k'" for m k :: "('k, int) sv" and m' k'
  proof (rule mirrors_bind)
    show "mirrors same (\<lambda>a b. b = None \<longleftrightarrow> a = None) (gets current) (gets current)"
      by (rule mirrors_gets) (simp add: same_sv_def)
  qed (simp add: that)
  show ?case
    unfolding run_loop.simps
  proof (rule mirrors_bind [OF wait_mirrors])
    fix st st' assume "st' = rename_status f st"
    then show "mirrors same (=)
      (bind (dispatch K (await_attach (await_loop K n)) st) (\<lambda>r. case r of
        Some code \<Rightarrow> ret code | None \<Rightarrow> bind (gets current) (\<lambda>c.
          if c = None then andthen (schedule_next K) (run_loop K n) else run_loop K n)))
      (bind (dispatch K' (await_attach (await_loop K' n)) st') (\<lambda>r. case r of
        Some code \<Rightarrow> ret code | None \<Rightarrow> bind (gets current) (\<lambda>c.
          if c = None then andthen (schedule_next K') (run_loop K' n) else run_loop K' n)))"
      by (simp only:) (intro mirrors_bind_eq mirrors_option mirrors_ret_eq idle mirrors_andthen
          schedule_mirrors dispatch_mirrors await_attach_mirrors await_loop_mirrors Suc)
  qed
qed

lemma run_mirrors: "mirrors same (=) (run K n) (run K' n)"
  unfolding run_def by (intro mirror_intros run_loop_mirrors)

lemma new_same: "R k k' \<Longrightarrow> same (supervisor_new p seed root i k) (supervisor_new (f p) seed root' i' k')"
  by (auto simp: same_sv_def supervisor_new_def rekey_def fun_eq_iff)

lemma supervise_same:
  assumes "R k k'"
  shows "fst (supervise K' n (f p) seed root' i' k') = fst (supervise K n p seed root i k)"
    "same (snd (supervise K n p seed root i k)) (snd (supervise K' n (f p) seed root' i' k'))"
proof -
  note h = mirrorsD [OF run_mirrors new_same [OF assms], of n p seed root i root' i']
  then show "fst (supervise K' n (f p) seed root' i' k') = fst (supervise K n p seed root i k)"
    by (simp add: supervise_def outcome.rel_eq)
  show "same (snd (supervise K n p seed root i k)) (snd (supervise K' n (f p) seed root' i' k'))"
    using h by (simp add: supervise_def)
qed

end

end
