(* ===== verification/Determinism.thy ===== *)
theory Determinism
  imports Renaming Simulator
begin

text \<open>
  The trace of a container does not depend on the pids the host gives its threads, nor on its id or the
  state directory: two runs whose kernels agree up to the pids record the same events.
\<close>

section \<open>A renamed simulator\<close>

text \<open>Init and its thread are 41 and 42 instead of 1 and 2.\<close>

definition other_pid :: "pid \<Rightarrow> pid" where
  "other_pid p = (if p \<in> {1, 2} then p + 40 else if p \<in> {41, 42} then p - 40 else p)"

definition other_stop :: "stop \<Rightarrow> stop" where
  "other_stop s = s\<lparr>stop_status := rename_status other_pid (stop_status s),
    st_msg := word_of_int (other_pid (as_i32 (st_msg s)))\<rparr>"

definition other_sim :: "sim \<Rightarrow> sim \<Rightarrow> bool" where
  "other_sim k k' \<longleftrightarrow> sim_script k' = map other_stop (sim_script k) \<and> sim_op k' = sim_op k
    \<and> as_i32 (sim_msg k') = other_pid (as_i32 (sim_msg k)) \<and> sim_regs k' = sim_regs k
    \<and> sim_running k' = other_pid ` sim_running k \<and> sim_dead k' = other_pid ` sim_dead k"

lemma other_inj: "inj other_pid"
  by (rule injI) (auto simp: other_pid_def split: if_splits)

lemma as_i32_word: "- (2 ^ 31) \<le> x \<Longrightarrow> x < 2 ^ 31 \<Longrightarrow> as_i32 (word_of_int x) = x"
  unfolding as_i32_def
  by (simp add: unsigned_of_int signed_of_int signed_take_bit_take_bit signed_take_bit_int_eq_self)

lemma as_i32_range: "- (2 ^ 31) \<le> as_i32 x" "as_i32 x < 2 ^ 31"
  using sint_range_size [of "ucast x :: u32"] by (simp_all add: as_i32_def word_size)

lemma other_msg: "as_i32 (word_of_int (other_pid (as_i32 m))) = other_pid (as_i32 m)"
  using as_i32_range [of m] by (intro as_i32_word) (auto simp: other_pid_def)

lemma other_admissible:
  "admissible (rename_status other_pid st) (other_pid ` r) \<longleftrightarrow> admissible st r"
  "stops (rename_status other_pid st) = other_pid ` stops st"
  "kills (rename_status other_pid st) = other_pid ` kills st"
  by (auto simp: admissible_def stops_def kills_def rename_status_def inj_image_mem_iff other_inj
      split: wait_status.split)

lemma other_wait:
  assumes "other_sim k k'"
  shows "rel_prod (rel_sum (=) (\<lambda>a b. b = rename_status other_pid a)) other_sim (sim_waitpid k) (sim_waitpid k')"
proof (cases "sim_script k")
  case Nil
  then show ?thesis using assms by (simp add: sim_waitpid_def other_sim_def)
next
  case (Cons s rest)
  then show ?thesis
    using assms
    by (simp add: sim_waitpid_def other_sim_def other_stop_def other_admissible other_msg image_Un
        image_set_diff [OF other_inj])
qed

interpretation ok: renamed_kernels other_pid other_sim sim_kernel sim_kernel
proof
  show "same_kernels other_pid other_sim sim_kernel sim_kernel"
    unfolding same_kernels_def
    by (intro conjI allI impI other_inj)
      (simp add: sim_kernel_def other_wait,
        auto simp: sim_kernel_def other_sim_def sim_resume_def inj_image_mem_iff other_inj)
qed

section \<open>Property\<close>

text \<open>
  C2. The supervisor is deterministic up to what its kernel answers: two kernels that agree except for
  the pids, which differ by an injection, lead to the same outcome and to the same trace, whatever
  the container id and the state directory are.
\<close>

theorem trace_independent_of_pids:
  assumes "same_kernels f R K K'" and "R k k'"
  shows "fst (supervise K' n (f p) seed root' i' k') = fst (supervise K n p seed root i k)
    \<and> events (snd (supervise K' n (f p) seed root' i' k')) = events (snd (supervise K n p seed root i k))"
  using renamed_kernels.supervise_same [OF renamed_kernels.intro [OF assms(1)] assms(2),
      where n = n and p = p and seed = seed and root = root and i = i and root' = root' and i' = i']
  by (simp add: same_sv_def)

lemma trace_independent_of_pids_witness:
  "same_kernels other_pid other_sim sim_kernel sim_kernel
    \<and> sim_start two_threads \<noteq> sim_start (map other_stop two_threads)
    \<and> fst (supervise sim_kernel 20 41 5 ''/t'' ''d'' (sim_start (map other_stop two_threads))) = Ok 7
    \<and> events (snd (supervise sim_kernel 20 41 5 ''/t'' ''d'' (sim_start (map other_stop two_threads))))
      = events (snd (supervise sim_kernel 20 1 5 ''/s'' ''c'' (sim_start two_threads)))"
proof -
  have o: "other_sim (sim_start two_threads) (sim_start (map other_stop two_threads))"
  proof -
    have "as_i32 0 = 0" by (simp add: as_i32_def)
    then show ?thesis by (simp add: other_sim_def sim_start_def other_pid_def)
  qed
  have "fst (supervise sim_kernel 20 1 5 ''/s'' ''c'' (sim_start two_threads)) = Ok 7" by code_simp
  moreover have "sim_start two_threads \<noteq> sim_start (map other_stop two_threads)"
    by (simp add: sim_start_def two_threads_def other_stop_def at_stop_def at_syscall_def at_clone_def
        rename_status_def other_pid_def)
  moreover have p: "other_pid 1 = 41" by (simp add: other_pid_def)
  ultimately show ?thesis
    using trace_independent_of_pids [OF ok.alike o, of 20 1 5 "''/t''" "''d''" "''/s''" "''c''"] ok.alike
    by (simp add: p)
qed

end
