(* ===== verification/Image.thy ===== *)
theory Image
  imports StateStore
begin

text \<open>
  Flattening of an image tarball (\<open>src/oci/image.rs\<close>): which paths of an archive are accepted, the
  whiteout entries of a Docker layer, and the normalisation of metadata. Reading tar and gzip is the
  work of the crates \<open>tar\<close> and \<open>flate2\<close>: an archive is the list of the entries they deliver, and
  unpacking one entry is a call.
\<close>

unbundle bit_operations_syntax

datatype image_error = ImageIo errno | Tar errno

section \<open>Paths\<close>

text \<open>
  \<open>Path::components\<close> of a relative path, without the \<open>.\<close> components, which the code skips too.
\<close>

definition components :: "string \<Rightarrow> string list" where
  "components p = filter (\<lambda>c. c \<noteq> [] \<and> c \<noteq> ''.'') (split_on (\<lambda>c. c = CHR ''/'') p)"

definition sanitize_path :: "string \<Rightarrow> string list option" where
  "sanitize_path p =
    (if starts_with p ''/'' \<or> p = [] then None
     else if ''..'' \<in> set (components p) then None
     else if components p = [] then None
     else Some (components p))"

definition under_dest :: "string \<Rightarrow> string list \<Rightarrow> string" where
  "under_dest dest cs = foldl path_join dest cs"

section \<open>Unpacking\<close>

datatype tar_entry = BadEntry | BadPath | Entry string

text \<open>What a whiteout entry removes: the directory of an opaque marker, or the named victim.\<close>

datatype whiteout = Opaque "string list" | Victim "string list"

definition whiteout_of :: "string list \<Rightarrow> whiteout option" where
  "whiteout_of safe = (case strip_prefix ''.wh.'' (last safe) of
      None \<Rightarrow> None
    | Some deleted \<Rightarrow>
        if deleted = ''.wh..opq'' then Some (Opaque (butlast safe))
        else Some (Victim (butlast safe @ [deleted])))"

definition unpack_entry :: "os \<Rightarrow> string \<Rightarrow> tar_entry \<Rightarrow> (image_error, unit) io" where
  "unpack_entry os dest entry = (case entry of
      BadEntry \<Rightarrow> ret ()
    | BadPath \<Rightarrow> ret ()
    | Entry raw \<Rightarrow>
        (case sanitize_path raw of
          None \<Rightarrow> ret ()
        | Some safe \<Rightarrow>
            (case whiteout_of safe of
              Some (Opaque dir) \<Rightarrow> sys_ignore os (RemoveDirAll (under_dest dest dir))
            | Some (Victim v) \<Rightarrow>
                andthen (sys_ignore os (RemoveFile (under_dest dest v)))
                  (sys_ignore os (RemoveDirAll (under_dest dest v)))
            | None \<Rightarrow> bind (sys os (UnpackIn raw dest) Tar) (\<lambda>_. ret ()))))"

section \<open>Normalisation\<close>

definition canonical_mode :: "bool \<Rightarrow> nat \<Rightarrow> nat" where
  "canonical_mode is_dir mode = (if is_dir \<or> mode AND 0x49 \<noteq> 0 then 0x1ED else 0x1A4)"

text \<open>\<open>0o111\<close> is \<open>0x49\<close>, \<open>0o755\<close> is \<open>0x1ED\<close> and \<open>0o644\<close> is \<open>0x1A4\<close>. A path with a NUL is skipped.\<close>

definition normalize_meta :: "os \<Rightarrow> string \<Rightarrow> bool \<Rightarrow> (errno, unit) io" where
  "normalize_meta os p is_dir =
    bind (sys os (Stat p) id) (\<lambda>mode.
    andthen (sys_ignore os (SetMode p (canonical_mode is_dir (nat mode))))
      (if CHR 0x00 \<in> set p then ret ()
       else andthen (sys_ignore os (Chown p)) (sys_ignore os (Utimens p))))"

text \<open>
  The walk over the extracted tree. \<open>ls\<close> lists a directory: the names of its entries with, for each,
  whether it is a directory (\<open>DirEntry::metadata\<close>, which does not follow links). The fuel bounds the
  number of directories visited.
\<close>

definition normalize_entry ::
  "os \<Rightarrow> string \<Rightarrow> errno + string \<times> bool \<Rightarrow> (image_error, string list) io" where
  "normalize_entry os dir entry = (case entry of
      Inl e \<Rightarrow> fail (ImageIo e)
    | Inr (name, is_dir) \<Rightarrow>
        let p = path_join dir name in
        bind (sys os (Lstat p) ImageIo) (\<lambda>_.
        bind (attempt (normalize_meta os p is_dir)) (\<lambda>_. ret (if is_dir then [p] else []))))"

fun normalize_entries ::
  "os \<Rightarrow> string \<Rightarrow> (errno + string \<times> bool) list \<Rightarrow> string list \<Rightarrow> (image_error, string list) io" where
  "normalize_entries os dir [] stack = ret stack"
| "normalize_entries os dir (e # es) stack =
    bind (normalize_entry os dir e) (\<lambda>sub. normalize_entries os dir es (sub @ stack))"

primrec normalize_loop ::
  "nat \<Rightarrow> os \<Rightarrow> (string \<Rightarrow> errno + (errno + string \<times> bool) list) \<Rightarrow> string list \<Rightarrow> (image_error, unit) io" where
  "normalize_loop 0 os ls stack = (if stack = [] then ret () else out_of_fuel)"
| "normalize_loop (Suc n) os ls stack = (case stack of
      [] \<Rightarrow> ret ()
    | dir # rest \<Rightarrow>
        (case ls dir of
          Inl e \<Rightarrow> fail (ImageIo e)
        | Inr found \<Rightarrow>
            bind (normalize_entries os dir found rest) (\<lambda>stack'. normalize_loop n os ls stack')))"

definition normalize_tree ::
  "nat \<Rightarrow> os \<Rightarrow> (string \<Rightarrow> errno + (errno + string \<times> bool) list) \<Rightarrow> string \<Rightarrow> (image_error, unit) io" where
  "normalize_tree n os ls root = normalize_loop n os ls [root]"

definition unpack_reader ::
  "nat \<Rightarrow> os \<Rightarrow> (string \<Rightarrow> errno + (errno + string \<times> bool) list) \<Rightarrow> tar_entry list \<Rightarrow> string \<Rightarrow>
    (image_error, unit) io" where
  "unpack_reader n os ls archive dest =
    andthen (each (unpack_entry os dest) archive) (normalize_tree n os ls dest)"

text \<open>
  \<open>gunzip\<close> and \<open>untar\<close> stand for the decoders; the first two bytes decide which reader is used.
\<close>

definition flatten ::
  "nat \<Rightarrow> os \<Rightarrow> (string \<Rightarrow> errno + (errno + string \<times> bool) list) \<Rightarrow>
    (bytes \<Rightarrow> bytes) \<Rightarrow> (bytes \<Rightarrow> errno + tar_entry list) \<Rightarrow> (string \<Rightarrow> bytes) \<Rightarrow> string \<Rightarrow> string \<Rightarrow>
    (image_error, unit) io" where
  "flatten n os ls gunzip untar contents img dest =
    bind (sys_test os (Exists dest)) (\<lambda>there.
    andthen (if there then ret () else bind (sys os (CreateDirAll dest) ImageIo) (\<lambda>_. ret ()))
   (bind (sys os (OpenPath img) ImageIo) (\<lambda>_.
    bind (sys os (ReadMagic img) ImageIo) (\<lambda>_.
    if length (contents img) < 2 then fail (ImageIo 0)
    else bind (sys os (Seek img) ImageIo) (\<lambda>_.
      let data = (if take 2 (contents img) = [0x1f, 0x8b] then gunzip (contents img)
                  else contents img) in
      case untar data of
        Inl e \<Rightarrow> fail (ImageIo e)
      | Inr archive \<Rightarrow> unpack_reader n os ls archive dest)))))"

section \<open>Properties\<close>

text \<open>Lexical resolution of a relative path; \<open>None\<close> when it leaves its base.\<close>

fun resolve :: "string list \<Rightarrow> string list \<Rightarrow> string list option" where
  "resolve acc [] = Some acc"
| "resolve acc (c # cs) =
    (if c = [] \<or> c = ''.'' then resolve acc cs
     else if c = ''..'' then (if acc = [] then None else resolve (butlast acc) cs)
     else resolve (acc @ [c]) cs)"

lemma resolve_normal:
  "(\<And>c. c \<in> set cs \<Longrightarrow> c \<noteq> [] \<and> c \<noteq> ''.'' \<and> c \<noteq> ''..'') \<Longrightarrow> resolve acc (cs @ ds) = resolve (acc @ cs) ds"
  by (induction cs arbitrary: acc) auto

lemma sanitize_normal:
  "sanitize_path p = Some cs \<Longrightarrow> c \<in> set cs \<Longrightarrow> c \<noteq> [] \<and> c \<noteq> ''.'' \<and> c \<noteq> ''..'' \<and> CHR ''/'' \<notin> set c"
proof -
  assume s: "sanitize_path p = Some cs" and c: "c \<in> set cs"
  have "cs = components p \<and> ''..'' \<notin> set (components p)"
    using s unfolding sanitize_path_def by (simp split: if_split_asm)
  then show "c \<noteq> [] \<and> c \<noteq> ''.'' \<and> c \<noteq> ''..'' \<and> CHR ''/'' \<notin> set c"
    using c split_on_no_sep [of "\<lambda>c. c = CHR ''/''" p] unfolding components_def by auto
qed


lemma escape_at_top: "whiteout_of [''.wh...''] = Some (Victim [''..''])"
  by (simp add: whiteout_of_def)

end
