(* ===== verification/Cli.thy ===== *)
theory Cli
  imports Exec Image
begin

text \<open>
  The command line (\<open>src/cli.rs\<close>) and \<open>main\<close> (\<open>src/main.rs\<close>): the parsed arguments, the root of the
  state store, and the dispatch from a command to an exit code. Parsing the arguments is clap's work,
  logging is not modelled.
\<close>

section \<open>Arguments\<close>

record bundle_args =
  ba_id :: string
  ba_bundle :: string
  ba_pid_file :: "string option"
  ba_net :: string

record create_args =
  ca_bundle :: bundle_args

record start_args =
  sta_id :: string

record run_args =
  ra_bundle :: bundle_args

record kill_args =
  ka_id :: string
  ka_signal :: string

record delete_args =
  da_id :: string
  da_force :: bool

record state_args =
  sa_id :: string

record list_args =
  la_format :: string

record exec_args =
  ea_id :: string
  ea_command :: "string list"
  ea_cwd :: "string option"
  ea_env :: "string list"

record spec_args =
  spa_bundle :: string

record flatten_args =
  fa_image :: string
  fa_dest :: string

datatype commands =
    CreateCmd create_args
  | StartCmd start_args
  | RunCmd run_args
  | KillCmd kill_args
  | DeleteCmd delete_args
  | StateCmd state_args
  | ListCmd list_args
  | ExecCmd exec_args
  | SpecCmd spec_args
  | FlattenCmd flatten_args
  | VersionCmd

record cli =
  cli_root :: "string option"
  cli_seed :: u64
  cli_log :: "string option"
  cli_command :: commands

text \<open>\<open>xdg\<close> is the variable \<open>XDG_RUNTIME_DIR\<close>, \<open>temp\<close> the directory for temporary files.\<close>

definition root_dir :: "os \<Rightarrow> string option \<Rightarrow> string \<Rightarrow> u32 \<Rightarrow> cli \<Rightarrow> ('e, string) io" where
  "root_dir os xdg temp uid c = (case cli_root c of
      Some p \<Rightarrow> ret p
    | None \<Rightarrow>
        (if xdg \<noteq> None \<and> xdg \<noteq> Some [] then ret (path_join (the xdg) ''dtrun'')
         else bind (sys_ok os (CreateDirAll ''/run/dtrun'')) (\<lambda>made.
           if made then ret ''/run/dtrun''
           else ret (path_join temp (''dtrun-'' @ show_u32 uid)))))"

section \<open>The default configuration\<close>

definition jmount :: "string \<Rightarrow> string \<Rightarrow> string \<Rightarrow> string list \<Rightarrow> json" where
  "jmount dest ty src opts = JObj [(''destination'', JStr dest), (''type'', JStr ty),
    (''source'', JStr src), (''options'', JArr (map JStr opts))]"

definition default_mounts :: json where
  "default_mounts = JArr
    [jmount ''/proc'' ''proc'' ''proc'' [''nosuid'', ''noexec'', ''nodev''],
     jmount ''/dev'' ''tmpfs'' ''tmpfs'' [''nosuid'', ''strictatime'', ''mode=755'', ''size=65536k''],
     jmount ''/dev/pts'' ''devpts'' ''devpts''
       [''nosuid'', ''noexec'', ''newinstance'', ''ptmxmode=0666'', ''mode=0620'', ''gid=5''],
     jmount ''/sys'' ''sysfs'' ''sysfs'' [''nosuid'', ''noexec'', ''nodev'', ''ro''],
     jmount ''/dev/mqueue'' ''mqueue'' ''mqueue'' [''nosuid'', ''noexec'', ''nodev''],
     jmount ''/dev/shm'' ''tmpfs'' ''shm''
       [''nosuid'', ''noexec'', ''nodev'', ''mode=1777'', ''size=65536k'']]"

definition default_namespaces :: json where
  "default_namespaces = JArr (map (\<lambda>t. JObj [(''type'', JStr t)])
    [''pid'', ''network'', ''ipc'', ''uts'', ''mount''])"

definition default_config_json :: json where
  "default_config_json = JObj
    [(''ociVersion'', JStr ''1.0.2''),
     (''process'', JObj
       [(''terminal'', JBool False), (''user'', JObj [(''uid'', JNum 0), (''gid'', JNum 0)]),
        (''args'', JArr [JStr ''/bin/sh'']),
        (''env'', JArr [JStr ''PATH=/usr/local/sbin:/usr/local/bin:/usr/sbin:/usr/bin:/sbin:/bin'']),
        (''cwd'', JStr ''/'')]),
     (''root'', JObj [(''path'', JStr ''rootfs''), (''readonly'', JBool False)]),
     (''hostname'', JStr ''dtrun''),
     (''mounts'', default_mounts),
     (''linux'', JObj [(''namespaces'', default_namespaces)])]"

section \<open>Dispatch\<close>

definition show_config_error :: "(errno \<Rightarrow> string) \<Rightarrow> config_error \<Rightarrow> string" where
  "show_config_error es e = (case e of
      ConfigIo n \<Rightarrow> ''failed to read config: '' @ es n
    | ConfigParse msg \<Rightarrow> ''failed to parse config.json: '' @ msg
    | Validate msg \<Rightarrow> ''invalid config.json: '' @ msg)"

text \<open>\<open>parse\<close> is serde's parser, \<open>read\<close> reads a file of the bundle.\<close>

definition load_host ::
  "'k machine \<Rightarrow> (string \<Rightarrow> string + oci_config) \<Rightarrow> (string \<Rightarrow> errno + string) \<Rightarrow> string \<Rightarrow> u64 \<Rightarrow>
    string \<Rightarrow> string + host" where
  "load_host M parse read bundle seed net =
    (let p = path_join bundle ''config.json'' in
     case config_from_path parse read p of
       Inl e \<Rightarrow> Inl (''failed to load '' @ p @ '': '' @ show_config_error (show_errno M) e)
     | Inr c \<Rightarrow> (case net_mode_parse net of
         Inl e \<Rightarrow> Inl (show_host_error (show_errno M) e)
       | Inr nm \<Rightarrow> Inr (with_net c bundle seed nm)))"

text \<open>\<open>fs::write\<close>: create and write; a failure is logged.\<close>

definition write_pid_file :: "'k machine \<Rightarrow> string option \<Rightarrow> pid \<Rightarrow> ('e, unit) wprog" where
  "write_pid_file M file p = (case file of
      None \<Rightarrow> ret ()
    | Some f \<Rightarrow>
        bind (attempt (andthen (wcall (outside M) (CreateFile f) (truncate_file f) id id)
          (write_all (outside M) f (show_int p @ [CHR 0x0A]) id))) (\<lambda>_. ret ()))"

text \<open>\<open>fail\<close> logs the error; the exit code is 1.\<close>

definition exit_code :: "('x, int) wprog \<Rightarrow> ('e, int) wprog" where
  "exit_code m = bind (try_result m) (\<lambda>r. case r of Inl _ \<Rightarrow> ret 1 | Inr code \<Rightarrow> ret code)"

definition with_host ::
  "string + host \<Rightarrow> (host \<Rightarrow> ('x, int) wprog) \<Rightarrow> ('e, int) wprog" where
  "with_host loaded f = (case loaded of Inl _ \<Rightarrow> ret 1 | Inr h \<Rightarrow> exit_code (f h))"

definition then_0 :: "('x, 'a) wprog \<Rightarrow> ('x, int) wprog" where
  "then_0 m = bind m (\<lambda>_. ret 0)"

text \<open>
  \<open>write_spec\<close> creates and writes the file of the \<open>spec\<close> command; \<open>flat\<close> runs \<open>flatten\<close> with its
  decoders.
\<close>

definition write_spec :: "'k machine \<Rightarrow> string \<Rightarrow> (host_error, int) wprog" where
  "write_spec M bundle =
    (let p = path_join bundle ''config.json'' in
     andthen (wcall (outside M) (CreateFile p) (truncate_file p) id HIo)
       (then_0 (write_all (outside M) p
         (json_to_string_pretty (outside M) default_config_json @ [CHR 0x0A]) HIo)))"

definition dispatch_command ::
  "'k machine \<Rightarrow> (string \<Rightarrow> string + oci_config) \<Rightarrow> (string \<Rightarrow> errno + string) \<Rightarrow>
    (string \<Rightarrow> string \<Rightarrow> (image_error, unit) io) \<Rightarrow> cli \<Rightarrow> string \<Rightarrow> ('e, int) wprog" where
  "dispatch_command M parse read flat c root = (case cli_command c of
      CreateCmd args \<Rightarrow> (let a = ca_bundle args in
        with_host (load_host M parse read (ba_bundle a) (cli_seed c) (ba_net a)) (\<lambda>h.
        bind (host_create M h root (ba_id a)) (\<lambda>p.
          andthen (write_pid_file M (ba_pid_file a) p) (ret 0))))
    | StartCmd a \<Rightarrow> exit_code (then_0 (start_container (outside M) root (sta_id a)))
    | RunCmd args \<Rightarrow> (let a = ra_bundle args in
        with_host (load_host M parse read (ba_bundle a) (cli_seed c) (ba_net a)) (\<lambda>h.
        host_run M h root (ba_id a)))
    | KillCmd a \<Rightarrow> exit_code (then_0 (kill_container (outside M) root (ka_id a) (ka_signal a)))
    | DeleteCmd a \<Rightarrow> exit_code (then_0 (delete_container (outside M) root (da_id a) (da_force a)))
    | StateCmd a \<Rightarrow> exit_code (then_0 (print_container_state (outside M) root (sa_id a)))
    | ListCmd a \<Rightarrow> exit_code (then_0 (list_containers (outside M) root (la_format a)))
    | ExecCmd a \<Rightarrow> exit_code (exec_in_container M root (ea_id a))
    | SpecCmd a \<Rightarrow> exit_code (write_spec M (spa_bundle a))
    | FlattenCmd a \<Rightarrow> exit_code (then_0 (on_calls (flat (fa_image a) (fa_dest a))))
    | VersionCmd \<Rightarrow> ret 0)"

definition dtrun ::
  "'k machine \<Rightarrow> (string \<Rightarrow> string + oci_config) \<Rightarrow> (string \<Rightarrow> errno + string) \<Rightarrow>
    (string \<Rightarrow> string \<Rightarrow> (image_error, unit) io) \<Rightarrow> string option \<Rightarrow> string \<Rightarrow> cli \<Rightarrow> ('e, int) wprog" where
  "dtrun M parse read flat xdg temp c =
    bind (on_calls (root_dir (answers (outside M)) xdg temp (own_uid M) c)) (\<lambda>root.
      dispatch_command M parse read flat c root)"

end
