(* ===== verification/Spec2Isabelle.thy ===== *)
theory Spec2Isabelle
  imports SyscallSpec Attach Detached ExecSpec Determinism Cli
begin

text \<open>
  A model of dtrun, an OCI container runtime that executes containers deterministically: a supervisor
  traces every thread of the container with ptrace, runs one thread at a time in a fixed order, and
  replaces the clock and the random numbers by seeded ones.

  \<^bold>\<open>The program.\<close> \<open>main\<close> parses a command, loads a bundle's \<open>config.json\<close> and calls the host.
  \<open>Host::run\<close> clones a child into new namespaces; the child builds the container around itself and
  executes the entrypoint, while the parent writes its id mappings, sets cgroup limits, records the
  container's state and supervises it until it exits. \<open>create\<close> leaves the last part to a detached
  supervisor that waits on a FIFO for \<open>start\<close>. \<open>kill\<close>, \<open>delete\<close>, \<open>state\<close>, \<open>list\<close> and \<open>exec\<close> work on
  the recorded state.

  \<^bold>\<open>Conventions.\<close> \<open>Prelude\<close> has the integers at their width (\<open>u64\<close> is \<open>64 word\<close>), a fallible function
  over a state as a \<open>prog\<close> (outcomes \<open>Ok\<close>, \<open>Err\<close>, and \<open>More\<close> for a loop cut off by its fuel or a process
  still waiting), Hoare triples, invariants (\<open>keeps\<close>) and the locale \<open>evolution\<close> for relations between
  the states before and after. \<open>Text\<close> has the string functions of Rust's standard library on ASCII
  strings, \<open>Bytes\<close> byte buffers.

  \<^bold>\<open>The supervisor\<close> (\<open>src/runtime/supervisor.rs\<close>). \<open>Prng\<close>: the generator behind \<open>getrandom\<close>. \<open>Clock\<close>:
  \<open>virtual_clock\<close>. \<open>Signals\<close>: \<open>signal.rs\<close>. \<open>Kernel\<close>: ptrace, waitpid and process memory as a record of
  operations over an abstract kernel state, a parameter. \<open>Supervisor\<close>: the record with all fields of
  the struct, futex queues, thread exit and scheduling. \<open>Syscalls\<close>: the intercepted system calls.
  \<open>Dispatch\<close>: \<open>dispatch\<close>, \<open>await_attach\<close>, \<open>run\<close> and \<open>supervise\<close>. The loops take one unit of fuel per
  \<open>waitpid\<close>; \<open>Progress\<close> shows that a run returns whenever its fuel exceeds the number of statuses the
  kernel still reports. \<open>Invariant\<close> proves the representation invariant \<open>sv_ok\<close> for any kernel.
  \<open>TraceSpec\<close> defines a replay checker, an abstract account of the trace that knows only the seed, and
  \<open>TraceLaws\<close> proves that it accepts every trace (a simulation) with its consequences for thread ids,
  context switches, random bytes and clock readings, through the locale \<open>ledger\<close>. \<open>SingleRunner\<close> states
  the contract of ptrace and proves that one scheduled thread runs at a time; \<open>Simulator\<close> is a kernel
  that meets the contract, on which witnesses are evaluated, with code equations for it; \<open>Attach\<close> runs
  two schedules of nested waits for attach stops on it. \<open>SchedulerSpec\<close> and \<open>SyscallSpec\<close> hold the
  properties of scheduling and interception. \<open>Renaming\<close> relates two supervisors under two kernels that
  differ only in their pids (\<open>mirrors\<close>, with one rule per construct, and the locale \<open>renamed_kernels\<close>);
  \<open>Determinism\<close> concludes that they write the same trace.

  \<^bold>\<open>The container\<close>. \<open>OciConfig\<close> (\<open>oci/config.rs\<close>): the data model and validation, proved to decide
  the documented conditions. \<open>Effects\<close>: programs that make system calls, where the operating system
  answers each call from the history of calls; \<open>plays\<close> gives the exact calls of a program and
  \<open>achieves\<close> the calls that must have succeeded when it returns. On it: \<open>Mounts\<close>, \<open>Credentials\<close>,
  \<open>Namespaces\<close> (\<open>namespaces.rs\<close> and \<open>net.rs\<close>) and \<open>Child\<close> (\<open>child.rs\<close> and the entrypoint of \<open>exec.rs\<close>),
  with the theorem that the entrypoint only runs in a completely built container.

  \<^bold>\<open>The host\<close>. \<open>StateStore\<close> (\<open>state.rs\<close>): a store of files keyed by path, on which calls succeed with
  their documented effect or fail, a failing write leaving any prefix of its data. \<open>Ops\<close> (\<open>ops.rs\<close>),
  \<open>Cgroup\<close>, \<open>Host\<close> (\<open>host.rs\<close>), \<open>Exec\<close>, \<open>Image\<close> (\<open>oci/image.rs\<close>) and \<open>Cli\<close> (\<open>cli.rs\<close> and the
  dispatch of \<open>main.rs\<close>). \<open>Lifecycle\<close> has total correctness on the store; \<open>RunSpec\<close> composes set-up,
  supervision and recording into the theorem about a whole run; \<open>Footprint\<close> has the paths a program can
  change and \<open>Isolation\<close> shows with it that commands on one container leave the others alone, and what
  \<open>delete\<close>, \<open>kill\<close> and \<open>start\<close> do and require; \<open>ExecSpec\<close> composes the three processes of \<open>exec\<close>.

  \<^bold>\<open>Sessions\<close>. \<open>Sessions\<close> is the life of one container as an inductive step relation: the commands
  \<open>create\<close>, \<open>run\<close>, \<open>start\<close>, \<open>kill\<close> and \<open>delete\<close> and the steps of its supervisor (opening the FIFO, reading
  it, marking the container as running, supervising it to its end), interleaved in any order. Its
  invariant \<open>session_ok\<close> ties the stored state to the phase of the supervisor; triples over the stored
  state prove it for each program, torn writes included, from the contract \<open>serde_ok\<close> of the codec.
  \<open>Reports\<close> is the line between the forked supervisor and \<open>create\<close>, \<open>Codec\<close> a codec that meets the
  contract, and \<open>SessionSpec\<close> has the properties of sessions. \<open>Detached\<close> has total correctness of the whole
  detour over \<open>create\<close>, the waiting supervisor and \<open>start\<close>.

  \<^bold>\<open>Bounds and fuel.\<close> The event loops take fuel as said above. The directory walk of \<open>Image\<close> takes one
  unit per directory. Everything else is structural.

  \<^bold>\<open>Parameters.\<close> The ptrace kernel, the operating system's answers, serde's parsing and printing,
  \<open>localtime_r\<close>, the tar and gzip crates, the environment of the process. They occur as arguments or as
  fields of the records \<open>kernel\<close>, \<open>env\<close> and \<open>machine\<close>.

  \<^bold>\<open>Not modelled.\<close> Logging, clap's parsing of the command line, module declarations. Strings are
  ASCII. JSON numbers are integers. A \<open>HashMap\<close> that is iterated over is an association list with
  distinct keys. The arithmetic of the supervisor wraps, as in release builds. Processes that share
  the store interleave at the points where the code waits or synchronises: a command, and a stretch of
  the supervisor between two such points, is one step, so races inside a read-modify-write of the
  state file are not modelled. A session ends with its container: creating the same id again is a new
  session.
\<close>

end
